theory Spec2Isabelle
  imports Complex_Main "HOL-Library.Multiset" "HOL-Library.Char_ord" "HOL-Library.List_Lexorder"
begin

section \<open>Data model\<close>

text \<open>
  The tutoring back end keeps its state in a relational store (Prisma over Postgres).
  Rows are records, enums of the schema are datatypes, tables are lists of rows in
  insertion order. Identifiers are the opaque strings of the schema. Instants are JavaScript
  \<open>Date\<close>s: whole milliseconds since the epoch, modelled as \<open>int\<close>. An instant is at most
  \<open>8.64 * 10^15\<close> in magnitude, so comparing instants and moving one by a day are exact
  in JavaScript, and the model computes them on \<open>int\<close>. The payroll route subtracts two
  instants and adds up cent amounts, which can pass \<open>2^53\<close>: these operations, and the
  conversion \<open>Number(bigint)\<close> in \<open>prorateCents\<close>, are modelled with their rounding.
\<close>

type_synonym ident = string
type_synonym instant = int

datatype Subject = GENERAL | ENGLISH | MATH | CHINESE
datatype UserRole = STUDENT | TEACHER | ADMIN
datatype Currency = AUD | CNY | USD
datatype SessionStatus = SCHEDULED | CANCELLED | COMPLETED
datatype HourLedgerReason = PURCHASE | ADJUSTMENT | SESSION_CONSUME
datatype ChangeRequestType = CANCEL | RESCHEDULE
datatype ChangeRequestStatus = PENDING | APPROVED | REJECTED

record User =
  user_id :: ident
  user_orgId :: ident
  user_role :: UserRole

record TeacherStudentRate =
  rate_teacherId :: ident
  rate_studentId :: ident
  rate_subject :: Subject
  rate_hourlyRateCents :: int
  rate_currency :: Currency

text \<open>
  The admin routes write the wage snapshot as \<open>rateCentsSnapshot\<close>; a later migration renames
  that column to \<open>teacherHourlyWageCentsSnapshot\<close>, the name the payroll route reads.
\<close>

record Session =
  sid :: ident
  teacherId :: ident
  studentId :: ident
  subject :: Subject
  startAtUtc :: instant
  endAtUtc :: instant
  classTimeZone :: string
  status :: SessionStatus
  consumesUnits :: int
  teacherHourlyWageCentsSnapshot :: int
  currencySnapshot :: Currency
  createdByAdminId :: ident

record ChangeRequest =
  cr_id :: ident
  sessionId :: ident
  crType :: ChangeRequestType
  proposedStartAtUtc :: "instant option"
  proposedEndAtUtc :: "instant option"
  proposedTimeZone :: "string option"
  crStatus :: ChangeRequestStatus
  requestedByUserId :: ident
  decidedByAdminId :: "ident option"

text \<open>
  Ledger entries and audit rows are never addressed by their own primary key in the code
  modelled here, so the generated key is left out of the row. The JSON \<open>meta\<close> payload of an
  audit row is left out as well.
\<close>

record HourLedgerEntry =
  le_studentId :: ident
  le_teacherId :: "ident option"
  deltaUnits :: int
  reason :: HourLedgerReason
  le_sessionId :: "ident option"

record AuditLog =
  orgId :: ident
  actorUserId :: ident
  action :: string
  entityType :: string
  entityId :: ident

record Store =
  users :: "User list"
  rates :: "TeacherStudentRate list"
  sessions :: "Session list"
  changeRequests :: "ChangeRequest list"
  ledger :: "HourLedgerEntry list"
  auditLogs :: "AuditLog list"

text \<open>
  What a handler sends back: the HTTP status with the part of the body that the properties
  below speak about. \<open>InternalError\<close> is a persistence failure that leaves the handler as an
  exception.
\<close>

datatype Reply =
    BadRequest
  | InvalidArgument string
  | Unauthorized
  | Forbidden
  | NotFound string
  | Conflict string
  | TimeConflict ident
  | Created ident
  | Ok
  | InternalError

fun statusCode :: "Reply \<Rightarrow> nat" where
  "statusCode BadRequest = 400"
| "statusCode (InvalidArgument m) = 400"
| "statusCode Unauthorized = 401"
| "statusCode Forbidden = 403"
| "statusCode (NotFound m) = 404"
| "statusCode (Conflict m) = 409"
| "statusCode (TimeConflict c) = 409"
| "statusCode (Created i) = 201"
| "statusCode Ok = 200"
| "statusCode InternalError = 500"

text \<open>
  \<open>findUnique\<close> and \<open>findFirst\<close> return the first row of the table that satisfies the filter.
  (Without an \<open>orderBy\<close> the store may pick any matching row; the model picks the oldest.)
\<close>

definition user_findUnique :: "Store \<Rightarrow> ident \<Rightarrow> User option" where
  "user_findUnique db i = find (\<lambda>u. user_id u = i) (users db)"

definition auditLog_create :: "AuditLog \<Rightarrow> Store \<Rightarrow> Store" where
  "auditLog_create row db = db\<lparr>auditLogs := auditLogs db @ [row]\<rparr>"

section \<open>Student route: creating a change request\<close>

datatype ChangeRequestBody =
    CancelBody
  | RescheduleBody instant instant string

text \<open>
  The zod schema of the body: a reschedule needs a non-empty zone name and
  \<open>proposedEndAtUtc\<close> after \<open>proposedStartAtUtc\<close>.
\<close>

fun createChangeRequestBodySchema :: "ChangeRequestBody \<Rightarrow> bool" where
  "createChangeRequestBodySchema CancelBody = True"
| "createChangeRequestBodySchema (RescheduleBody s e tz) = (tz \<noteq> [] \<and> \<not> e \<le> s)"

fun changeRequest_of_body :: "ident \<Rightarrow> ident \<Rightarrow> ident \<Rightarrow> ChangeRequestBody \<Rightarrow> ChangeRequest" where
  "changeRequest_of_body newId sessId userId CancelBody =
     \<lparr>cr_id = newId, sessionId = sessId, crType = CANCEL,
      proposedStartAtUtc = None, proposedEndAtUtc = None, proposedTimeZone = None,
      crStatus = PENDING, requestedByUserId = userId, decidedByAdminId = None\<rparr>"
| "changeRequest_of_body newId sessId userId (RescheduleBody s e tz) =
     \<lparr>cr_id = newId, sessionId = sessId, crType = RESCHEDULE,
      proposedStartAtUtc = Some s, proposedEndAtUtc = Some e, proposedTimeZone = Some tz,
      crStatus = PENDING, requestedByUserId = userId, decidedByAdminId = None\<rparr>"

text \<open>
  \<open>POST /sessions/:id/change-requests\<close>, after the role pre-handler. \<open>userId\<close> is the
  authenticated user, \<open>paramId\<close> the session id of the path, \<open>nowUtc\<close> the value of
  \<open>new Date()\<close>, \<open>newId\<close> the key the store generates for the new row.
\<close>

definition post_change_requests ::
  "ident \<Rightarrow> ident \<Rightarrow> instant \<Rightarrow> ident \<Rightarrow> ChangeRequestBody \<Rightarrow> Store \<Rightarrow> Reply \<times> Store" where
  "post_change_requests userId newId nowUtc paramId body db =
     (if paramId = [] then (BadRequest, db)
      else if \<not> createChangeRequestBodySchema body then (BadRequest, db)
      else case user_findUnique db userId of
        None \<Rightarrow> (Unauthorized, db)
      | Some actor \<Rightarrow>
         (case find (\<lambda>s. sid s = paramId \<and> studentId s = userId) (sessions db) of
            None \<Rightarrow> (NotFound ''Session not found'', db)
          | Some session \<Rightarrow>
             if status session \<noteq> SCHEDULED then (Conflict ''Session is not schedulable'', db)
             else
               let cutoffUtc = startAtUtc session - 24 * 60 * 60 * 1000 in
               if nowUtc > cutoffUtc then (Forbidden, db)
               else
                 (case find (\<lambda>c. sessionId c = sid session \<and> crStatus c = PENDING)
                         (changeRequests db) of
                    Some existingPending \<Rightarrow>
                      (Conflict ''Pending change request already exists'', db)
                  | None \<Rightarrow>
                      let created = changeRequest_of_body newId (sid session) userId body;
                          db1 = db\<lparr>changeRequests := changeRequests db @ [created]\<rparr>;
                          db2 = auditLog_create
                                  \<lparr>orgId = user_orgId actor, actorUserId = user_id actor,
                                   action = ''STUDENT_CREATE_CHANGE_REQUEST'',
                                   entityType = ''ChangeRequest'', entityId = cr_id created\<rparr> db1
                      in (Created (cr_id created), db2))))"

section \<open>Payroll: prorating a wage\<close>

text \<open>
  \<open>BigInt\<close> division truncates towards zero.
\<close>

definition BigInt_div :: "int \<Rightarrow> int \<Rightarrow> int" where
  "BigInt_div a b = sgn a * sgn b * (\<bar>a\<bar> div \<bar>b\<bar>)"

text \<open>The number of bits of a positive integer.\<close>

function bit_length :: "int \<Rightarrow> nat" where
  "bit_length n = (if n \<le> 0 then 0 else Suc (bit_length (n div 2)))"
  by pat_completeness auto
termination
  by (relation "measure nat") auto

declare bit_length.simps [simp del]

text \<open>
  \<open>Number(n)\<close> for a \<open>BigInt\<close> \<open>n\<close>: the nearest double, ties to even. A double carries
  53 significant bits, so every integer below \<open>2^53\<close> in magnitude is kept as it is; a longer
  one loses its low bits. (Magnitudes from \<open>2^1024\<close> on would give \<open>Infinity\<close>; the product of
  a duration and a 32-bit wage is far below that.)
\<close>

definition Number_of_BigInt :: "int \<Rightarrow> int" where
  "Number_of_BigInt n =
     (let a = \<bar>n\<bar> in
      if a < 2 ^ 53 then n
      else
        let e = bit_length a - 53;
            q = a div 2 ^ e;
            r = a mod 2 ^ e;
            h = 2 ^ (e - 1);
            q' = (if r > h \<or> (r = h \<and> odd q) then q + 1 else q)
        in sgn n * q' * 2 ^ e)"

text \<open>
  Sums and differences of Numbers that hold integers (cents, milliseconds): the exact
  result rounded to the nearest double, which is the double that \<open>Number\<close> gives for the
  exact integer. Below \<open>2^53\<close> in magnitude nothing is lost.
\<close>

definition Number_add :: "int \<Rightarrow> int \<Rightarrow> int" where
  "Number_add a b = Number_of_BigInt (a + b)"

definition Number_sub :: "int \<Rightarrow> int \<Rightarrow> int" where
  "Number_sub a b = Number_of_BigInt (a - b)"

definition MS_PER_HOUR :: int where
  "MS_PER_HOUR = 60 * 60 * 1000"

definition prorateCents :: "int \<Rightarrow> int \<Rightarrow> int" where
  "prorateCents durationMs hourlyRateCents =
     (if durationMs \<le> 0 then 0
      else
        let numerator = durationMs * hourlyRateCents;
            denominator = MS_PER_HOUR
        in Number_of_BigInt (BigInt_div (numerator + BigInt_div denominator 2) denominator))"

section \<open>A small organisation, used to run the handlers\<close>

definition demo_users :: "User list" where
  "demo_users =
     [\<lparr>user_id = ''admin1'', user_orgId = ''org1'', user_role = ADMIN\<rparr>,
      \<lparr>user_id = ''teacher1'', user_orgId = ''org1'', user_role = TEACHER\<rparr>,
      \<lparr>user_id = ''student1'', user_orgId = ''org1'', user_role = STUDENT\<rparr>]"

definition demo_rates :: "TeacherStudentRate list" where
  "demo_rates =
     [\<lparr>rate_teacherId = ''teacher1'', rate_studentId = ''student1'', rate_subject = GENERAL,
       rate_hourlyRateCents = 10000, rate_currency = AUD\<rparr>]"

text \<open>A lesson on 2030-01-02 from 00:00 to 01:00 UTC.\<close>

definition demo_session :: Session where
  "demo_session =
     \<lparr>sid = ''sess1'', teacherId = ''teacher1'', studentId = ''student1'', subject = GENERAL,
      startAtUtc = 1893542400000, endAtUtc = 1893546000000,
      classTimeZone = ''Australia/Sydney'', status = SCHEDULED, consumesUnits = 1,
      teacherHourlyWageCentsSnapshot = 10000, currencySnapshot = AUD,
      createdByAdminId = ''admin1''\<rparr>"

definition demo_db :: Store where
  "demo_db =
     \<lparr>users = demo_users, rates = demo_rates, sessions = [demo_session],
      changeRequests = [], ledger = [], auditLogs = []\<rparr>"

text \<open>The same store once the student has asked to cancel the lesson.\<close>

definition demo_pending :: ChangeRequest where
  "demo_pending = changeRequest_of_body ''cr1'' ''sess1'' ''student1'' CancelBody"

definition demo_db_pending :: Store where
  "demo_db_pending = demo_db\<lparr>changeRequests := [demo_pending]\<rparr>"

section \<open>Admin routes: sessions\<close>

text \<open>The body of \<open>POST /sessions\<close> after zod has filled in the defaults.\<close>

record CreateSessionBody =
  b_teacherId :: ident
  b_studentId :: ident
  b_subject :: Subject
  b_startAtUtc :: instant
  b_endAtUtc :: instant
  b_classTimeZone :: string
  b_consumesUnits :: int

definition createSessionBodySchema :: "CreateSessionBody \<Rightarrow> bool" where
  "createSessionBodySchema data =
     (b_teacherId data \<noteq> [] \<and> b_studentId data \<noteq> [] \<and> b_classTimeZone data \<noteq> []
      \<and> 0 < b_consumesUnits data
      \<and> b_endAtUtc data > b_startAtUtc data)"

definition rate_findUnique :: "Store \<Rightarrow> ident \<Rightarrow> ident \<Rightarrow> Subject \<Rightarrow> TeacherStudentRate option" where
  "rate_findUnique db t s subj =
     find (\<lambda>r. rate_teacherId r = t \<and> rate_studentId r = s \<and> rate_subject r = subj) (rates db)"

text \<open>
  \<open>POST /sessions\<close>, after the role pre-handler. \<open>userId\<close> is the authenticated admin,
  \<open>newId\<close> the key the store generates for the new session.
\<close>

definition post_sessions :: "ident \<Rightarrow> ident \<Rightarrow> CreateSessionBody \<Rightarrow> Store \<Rightarrow> Reply \<times> Store" where
  "post_sessions userId newId data db =
     (if \<not> createSessionBodySchema data then (BadRequest, db)
      else case user_findUnique db userId of
        None \<Rightarrow> (Unauthorized, db)
      | Some actor \<Rightarrow>
         (case user_findUnique db (b_teacherId data) of
            None \<Rightarrow> (NotFound ''Teacher not found'', db)
          | Some teacher \<Rightarrow>
             if user_orgId teacher \<noteq> user_orgId actor \<or> user_role teacher \<noteq> TEACHER
             then (NotFound ''Teacher not found'', db)
             else
              (case user_findUnique db (b_studentId data) of
                 None \<Rightarrow> (NotFound ''Student not found'', db)
               | Some student \<Rightarrow>
                  if user_orgId student \<noteq> user_orgId actor \<or> user_role student \<noteq> STUDENT
                  then (NotFound ''Student not found'', db)
                  else
                   (case rate_findUnique db (user_id teacher) (user_id student) (b_subject data) of
                      None \<Rightarrow> (NotFound ''Rate not found'', db)
                    | Some rate \<Rightarrow>
                       (case find (\<lambda>s. teacherId s = user_id teacher
                                       \<and> status s = SCHEDULED
                                       \<and> startAtUtc s < b_endAtUtc data
                                       \<and> endAtUtc s > b_startAtUtc data) (sessions db) of
                          Some conflict \<Rightarrow> (TimeConflict (sid conflict), db)
                        | None \<Rightarrow>
                           let session =
                                 \<lparr>sid = newId, teacherId = user_id teacher,
                                  studentId = user_id student, subject = b_subject data,
                                  startAtUtc = b_startAtUtc data, endAtUtc = b_endAtUtc data,
                                  classTimeZone = b_classTimeZone data, status = SCHEDULED,
                                  consumesUnits = b_consumesUnits data,
                                  teacherHourlyWageCentsSnapshot = rate_hourlyRateCents rate,
                                  currencySnapshot = rate_currency rate,
                                  createdByAdminId = user_id actor\<rparr>;
                               db1 = db\<lparr>sessions := sessions db @ [session]\<rparr>;
                               db2 = auditLog_create
                                       \<lparr>orgId = user_orgId actor, actorUserId = user_id actor,
                                        action = ''ADMIN_CREATE_SESSION'',
                                        entityType = ''Session'', entityId = sid session\<rparr> db1
                           in (Created (sid session), db2))))))"

text \<open>The body of \<open>PATCH /sessions/:id\<close>: every field is optional.\<close>

record UpdateSessionBody =
  u_subject :: "Subject option"
  u_startAtUtc :: "instant option"
  u_endAtUtc :: "instant option"
  u_classTimeZone :: "string option"
  u_consumesUnits :: "int option"
  u_status :: "SessionStatus option"

definition updateSessionBodySchema :: "UpdateSessionBody \<Rightarrow> bool" where
  "updateSessionBodySchema data =
     ((case u_classTimeZone data of None \<Rightarrow> True | Some tz \<Rightarrow> tz \<noteq> [])
      \<and> (case u_consumesUnits data of None \<Rightarrow> True | Some n \<Rightarrow> 0 < n)
      \<and> (case (u_startAtUtc data, u_endAtUtc data) of
            (Some s, Some e) \<Rightarrow> e > s
          | _ \<Rightarrow> True))"

text \<open>\<open>a ?? b\<close>: the left operand unless it is absent.\<close>

definition nullish :: "'a option \<Rightarrow> 'a \<Rightarrow> 'a" where
  "nullish a b = (case a of None \<Rightarrow> b | Some v \<Rightarrow> v)"

definition user_orgId_of :: "Store \<Rightarrow> ident \<Rightarrow> ident option" where
  "user_orgId_of db i = map_option user_orgId (user_findUnique db i)"

text \<open>
  \<open>session.update({ where: { id }, data })\<close>: rewrites the row with that primary key and
  returns it; when there is no such row the call throws, which is \<open>None\<close> here.
\<close>

definition session_update :: "ident \<Rightarrow> (Session \<Rightarrow> Session) \<Rightarrow> Store \<Rightarrow> (Session \<times> Store) option" where
  "session_update i f db =
     (case find (\<lambda>s. sid s = i) (sessions db) of
        None \<Rightarrow> None
      | Some s \<Rightarrow> Some (f s, db\<lparr>sessions := map (\<lambda>s. if sid s = i then f s else s) (sessions db)\<rparr>))"

definition patch_sessions :: "ident \<Rightarrow> ident \<Rightarrow> UpdateSessionBody \<Rightarrow> Store \<Rightarrow> Reply \<times> Store" where
  "patch_sessions userId paramId data db =
     (if paramId = [] then (BadRequest, db)
      else if \<not> updateSessionBodySchema data then (BadRequest, db)
      else case user_findUnique db userId of
        None \<Rightarrow> (Unauthorized, db)
      | Some actor \<Rightarrow>
         (case find (\<lambda>s. sid s = paramId
                         \<and> user_orgId_of db (teacherId s) = Some (user_orgId actor)
                         \<and> user_orgId_of db (studentId s) = Some (user_orgId actor)) (sessions db) of
            None \<Rightarrow> (NotFound ''Session not found'', db)
          | Some existing \<Rightarrow>
             if status existing \<noteq> SCHEDULED
             then (Conflict ''Only SCHEDULED sessions can be edited'', db)
             else
               let nextSubject = nullish (u_subject data) (subject existing);
                   nextStartAtUtc = nullish (u_startAtUtc data) (startAtUtc existing);
                   nextEndAtUtc = nullish (u_endAtUtc data) (endAtUtc existing);
                   nextStatus = nullish (u_status data) (status existing)
               in
               if nextStatus \<noteq> SCHEDULED \<and> nextStatus \<noteq> CANCELLED
               then (InvalidArgument ''Invalid status transition'', db)
               else
                (case find (\<lambda>s. sid s \<noteq> sid existing
                                \<and> teacherId s = teacherId existing
                                \<and> status s = SCHEDULED
                                \<and> startAtUtc s < nextEndAtUtc
                                \<and> endAtUtc s > nextStartAtUtc) (sessions db) of
                   Some conflict \<Rightarrow> (TimeConflict (sid conflict), db)
                 | None \<Rightarrow>
                    let rateLookup =
                          (if nextSubject \<noteq> subject existing
                           then (case rate_findUnique db (teacherId existing) (studentId existing)
                                        nextSubject of
                                   None \<Rightarrow> None
                                 | Some rate \<Rightarrow> Some (Some rate))
                           else Some None)
                    in
                    (case rateLookup of
                       None \<Rightarrow> (NotFound ''Rate not found'', db)
                     | Some nextRate \<Rightarrow>
                        (case session_update (sid existing)
                               (\<lambda>s. s\<lparr>subject := nextSubject,
                                      startAtUtc := nextStartAtUtc,
                                      endAtUtc := nextEndAtUtc,
                                      classTimeZone :=
                                        nullish (u_classTimeZone data) (classTimeZone existing),
                                      consumesUnits :=
                                        nullish (u_consumesUnits data) (consumesUnits existing),
                                      status := nextStatus,
                                      teacherHourlyWageCentsSnapshot :=
                                        (case nextRate of
                                           None \<Rightarrow> teacherHourlyWageCentsSnapshot s
                                         | Some rate \<Rightarrow> rate_hourlyRateCents rate),
                                      currencySnapshot :=
                                        (case nextRate of
                                           None \<Rightarrow> currencySnapshot s
                                         | Some rate \<Rightarrow> rate_currency rate)\<rparr>) db of
                           None \<Rightarrow> (InternalError, db)
                         | Some (updated, db1) \<Rightarrow>
                            (Ok, auditLog_create
                                   \<lparr>orgId = user_orgId actor, actorUserId = user_id actor,
                                    action = ''ADMIN_UPDATE_SESSION'',
                                    entityType = ''Session'', entityId = sid updated\<rparr> db1))))))"

section \<open>Admin routes: approving a change request\<close>

definition changeRequest_update ::
  "ident \<Rightarrow> (ChangeRequest \<Rightarrow> ChangeRequest) \<Rightarrow> Store \<Rightarrow> (ChangeRequest \<times> Store) option" where
  "changeRequest_update i f db =
     (case find (\<lambda>c. cr_id c = i) (changeRequests db) of
        None \<Rightarrow> None
      | Some c \<Rightarrow>
          Some (f c, db\<lparr>changeRequests :=
                          map (\<lambda>c. if cr_id c = i then f c else c) (changeRequests db)\<rparr>))"

text \<open>
  \<open>prisma.$transaction(callback)\<close>: the callback runs on the store; when it throws
  (\<open>None\<close>), nothing it wrote is kept and the store is as it was before.
\<close>

definition transaction :: "(Store \<Rightarrow> ('a \<times> Store) option) \<Rightarrow> Store \<Rightarrow> 'a option \<times> Store" where
  "transaction callback db =
     (case callback db of None \<Rightarrow> (None, db) | Some (r, db') \<Rightarrow> (Some r, db'))"

text \<open>
  The callback of the approval. Its four statements are numbered from 0; \<open>fault = Some k\<close>
  is a run in which statement \<open>k\<close> fails in the persistence layer (a lost connection, a
  violated constraint) and throws. A proposed field that is missing where the source asserts
  it with \<open>!\<close> makes the update throw as well.
\<close>

definition approve_callback ::
  "nat option \<Rightarrow> User \<Rightarrow> ChangeRequest \<Rightarrow> Store \<Rightarrow> ((ChangeRequest \<times> Session) \<times> Store) option" where
  "approve_callback fault actor changeRequest tx =
     (if fault = Some 0 then None
      else case changeRequest_update (cr_id changeRequest)
                  (\<lambda>c. c\<lparr>crStatus := APPROVED, decidedByAdminId := Some (user_id actor)\<rparr>) tx of
        None \<Rightarrow> None
      | Some (updatedChangeRequest, tx1) \<Rightarrow>
         if fault = Some 1 then None
         else
          (case (if crType changeRequest = CANCEL
                 then session_update (sessionId changeRequest) (\<lambda>s. s\<lparr>status := CANCELLED\<rparr>) tx1
                 else (case (proposedStartAtUtc changeRequest, proposedEndAtUtc changeRequest,
                             proposedTimeZone changeRequest) of
                         (Some ps, Some pe, Some ptz) \<Rightarrow>
                           session_update (sessionId changeRequest)
                             (\<lambda>s. s\<lparr>startAtUtc := ps, endAtUtc := pe, classTimeZone := ptz\<rparr>) tx1
                       | _ \<Rightarrow> None)) of
             None \<Rightarrow> None
           | Some (updatedSession, tx2) \<Rightarrow>
              if fault = Some 2 then None
              else
                let tx3 = auditLog_create
                            \<lparr>orgId = user_orgId actor, actorUserId = user_id actor,
                             action = ''ADMIN_APPROVE_CHANGE_REQUEST'',
                             entityType = ''ChangeRequest'',
                             entityId = cr_id updatedChangeRequest\<rparr> tx2
                in
                if fault = Some 3 then None
                else
                  let tx4 = auditLog_create
                              \<lparr>orgId = user_orgId actor, actorUserId = user_id actor,
                               action = (if crType changeRequest = CANCEL
                                         then ''ADMIN_CANCEL_SESSION''
                                         else ''ADMIN_RESCHEDULE_SESSION''),
                               entityType = ''Session'', entityId = sid updatedSession\<rparr> tx3
                  in Some ((updatedChangeRequest, updatedSession), tx4)))"

text \<open>
  \<open>POST /change-requests/:id/approve\<close>, after the role pre-handler. The change request is
  read together with its session and the session's student; both relations are required, and
  a row whose relation is missing makes the read throw.
\<close>

definition post_approve :: "nat option \<Rightarrow> ident \<Rightarrow> ident \<Rightarrow> Store \<Rightarrow> Reply \<times> Store" where
  "post_approve fault userId paramId db =
     (if paramId = [] then (BadRequest, db)
      else case user_findUnique db userId of
        None \<Rightarrow> (Unauthorized, db)
      | Some actor \<Rightarrow>
         (case find (\<lambda>c. cr_id c = paramId) (changeRequests db) of
            None \<Rightarrow> (NotFound ''Change request not found'', db)
          | Some changeRequest \<Rightarrow>
             (case find (\<lambda>s. sid s = sessionId changeRequest) (sessions db) of
                None \<Rightarrow> (InternalError, db)
              | Some session \<Rightarrow>
                 (case user_findUnique db (studentId session) of
                    None \<Rightarrow> (InternalError, db)
                  | Some student \<Rightarrow>
                     if user_orgId student \<noteq> user_orgId actor
                     then (NotFound ''Change request not found'', db)
                     else if crStatus changeRequest \<noteq> PENDING
                     then (Conflict ''Change request is not pending'', db)
                     else if status session \<noteq> SCHEDULED
                     then (Conflict ''Session is not schedulable'', db)
                     else if crType changeRequest = RESCHEDULE
                             \<and> (proposedStartAtUtc changeRequest = None
                                 \<or> proposedEndAtUtc changeRequest = None
                                 \<or> proposedTimeZone changeRequest = None
                                 \<or> proposedTimeZone changeRequest = Some [])
                     then (InvalidArgument ''Missing proposed time fields'', db)
                     else
                      (case transaction (approve_callback fault actor changeRequest) db of
                         (None, db') \<Rightarrow> (InternalError, db')
                       | (Some updated, db') \<Rightarrow> (Ok, db'))))))"

text \<open>The handler as it runs when the persistence layer does not fail.\<close>

abbreviation approve :: "ident \<Rightarrow> ident \<Rightarrow> Store \<Rightarrow> Reply \<times> Store" where
  "approve \<equiv> post_approve None"

section \<open>More stores of the small organisation\<close>

text \<open>The lesson has been held and completed.\<close>

definition demo_db_completed :: Store where
  "demo_db_completed = demo_db\<lparr>sessions := [demo_session\<lparr>status := COMPLETED\<rparr>]\<rparr>"

text \<open>A second lesson from 00:30 to 01:30 UTC on the same day, for the same teacher.\<close>

definition demo_overlap_body :: CreateSessionBody where
  "demo_overlap_body =
     \<lparr>b_teacherId = ''teacher1'', b_studentId = ''student1'', b_subject = GENERAL,
      b_startAtUtc = 1893544200000, b_endAtUtc = 1893547800000,
      b_classTimeZone = ''Australia/Sydney'', b_consumesUnits = 1\<rparr>"

text \<open>A lesson that starts when the first one ends, 01:00 to 02:00 UTC.\<close>

definition demo_adjacent_body :: CreateSessionBody where
  "demo_adjacent_body =
     \<lparr>b_teacherId = ''teacher1'', b_studentId = ''student1'', b_subject = GENERAL,
      b_startAtUtc = 1893546000000, b_endAtUtc = 1893549600000,
      b_classTimeZone = ''Australia/Sydney'', b_consumesUnits = 1\<rparr>"

text \<open>An edit that moves only the end of the lesson, to one hour before its start.\<close>

definition demo_end_only_body :: UpdateSessionBody where
  "demo_end_only_body =
     \<lparr>u_subject = None, u_startAtUtc = None, u_endAtUtc = Some 1893538800000,
      u_classTimeZone = None, u_consumesUnits = None, u_status = None\<rparr>"

text \<open>The student asks to move the lesson to 2030-01-11, 10:00 to 11:00 UTC.\<close>

definition demo_reschedule :: ChangeRequest where
  "demo_reschedule =
     changeRequest_of_body ''cr1'' ''sess1'' ''student1''
       (RescheduleBody 1894356000000 1894359600000 ''Asia/Shanghai'')"

definition demo_db_reschedule :: Store where
  "demo_db_reschedule = demo_db\<lparr>changeRequests := [demo_reschedule]\<rparr>"

section \<open>Time zones\<close>

text \<open>
  \<open>Date.UTC\<close>, after the ECMAScript definition (\<open>MakeDay\<close>, \<open>MakeTime\<close>, \<open>MakeDate\<close>): the
  month is counted from 0 and may lie outside \<open>0..11\<close>, the day may lie outside the month,
  and a year from 0 to 99 means 1900 to 1999. \<open>days_from_civil y m d\<close> is the number of days
  from 1970-01-01 to the day \<open>d\<close> of month \<open>m\<close> (1 to 12) of year \<open>y\<close> in the proleptic
  Gregorian calendar. Results beyond the range of a \<open>Date\<close> (more than 8.64e15 ms from the
  epoch), where JavaScript has an invalid date, are not modelled.
\<close>

definition days_from_civil :: "int \<Rightarrow> int \<Rightarrow> int \<Rightarrow> int" where
  "days_from_civil y m d =
     (let y' = (if m \<le> 2 then y - 1 else y);
          era = y' div 400;
          yoe = y' mod 400;
          mp = (if m > 2 then m - 3 else m + 9);
          doy = (153 * mp + 2) div 5 + d - 1;
          doe = yoe * 365 + yoe div 4 - yoe div 100 + doy
      in era * 146097 + doe - 719468)"

definition MakeDay :: "int \<Rightarrow> int \<Rightarrow> int \<Rightarrow> int" where
  "MakeDay year month date =
     (let ym = year + month div 12;
          mn = month mod 12
      in days_from_civil ym (mn + 1) 1 + date - 1)"

definition Date_UTC :: "int \<Rightarrow> int \<Rightarrow> int \<Rightarrow> int \<Rightarrow> int \<Rightarrow> int \<Rightarrow> int \<Rightarrow> instant" where
  "Date_UTC year month date hours minutes seconds ms =
     (let yr = (if 0 \<le> year \<and> year \<le> 99 then 1900 + year else year)
      in MakeDay yr month date * 86400000
         + (hours * 3600000 + minutes * 60000 + seconds * 1000 + ms))"

text \<open>
  The numeric fields that \<open>Intl.DateTimeFormat(..., { timeZone, hourCycle: 'h23' })\<close> reports
  for an instant. The formatter belongs to the platform and its time-zone database; the
  functions below take it as the parameter \<open>formatToParts\<close>.
\<close>

record DateTimeParts =
  p_year :: int
  p_month :: int
  p_day :: int
  p_hour :: int
  p_minute :: int
  p_second :: int

type_synonym formatter = "string \<Rightarrow> instant \<Rightarrow> DateTimeParts"

definition getTimeZoneOffsetMs :: "formatter \<Rightarrow> instant \<Rightarrow> string \<Rightarrow> int" where
  "getTimeZoneOffsetMs formatToParts date timeZone =
     (let values = formatToParts timeZone date;
          asUtc = Date_UTC (p_year values) (p_month values - 1) (p_day values)
                    (p_hour values) (p_minute values) (p_second values) 0
      in asUtc - date)"

record LocalDateTime =
  l_year :: int
  l_month :: int
  l_day :: int
  l_hour :: "int option"
  l_minute :: "int option"
  l_second :: "int option"
  l_millisecond :: "int option"

definition zonedTimeToUtc :: "formatter \<Rightarrow> LocalDateTime \<Rightarrow> string \<Rightarrow> instant" where
  "zonedTimeToUtc formatToParts local timeZone =
     (let hour = nullish (l_hour local) 0;
          minute = nullish (l_minute local) 0;
          second = nullish (l_second local) 0;
          millisecond = nullish (l_millisecond local) 0;
          utcGuess = Date_UTC (l_year local) (l_month local - 1) (l_day local)
                       hour minute second millisecond;
          offset1 = getTimeZoneOffsetMs formatToParts utcGuess timeZone;
          utc1 = utcGuess - offset1;
          offset2 = getTimeZoneOffsetMs formatToParts utc1 timeZone
      in if offset2 = offset1 then utc1 else utcGuess - offset2)"

text \<open>
  A formatter to run the conversion with: it knows one zone rule, that of Europe/London in
  2030 (UTC+1 from 2030-03-31T01:00Z until 2030-10-27T01:00Z, UTC otherwise), and reports
  the wall clock of an instant under that rule. \<open>civil_from_days\<close> is the inverse of
  \<open>days_from_civil\<close>.
\<close>

definition civil_from_days :: "int \<Rightarrow> int \<times> int \<times> int" where
  "civil_from_days z0 =
     (let z = z0 + 719468;
          era = z div 146097;
          doe = z mod 146097;
          yoe = (doe - doe div 1460 + doe div 36524 - doe div 146096) div 365;
          y = yoe + era * 400;
          doy = doe - (365 * yoe + yoe div 4 - yoe div 100);
          mp = (5 * doy + 2) div 153;
          d = doy - (153 * mp + 2) div 5 + 1;
          m = (if mp < 10 then mp + 3 else mp - 9)
      in (if m \<le> 2 then y + 1 else y, m, d))"

definition wall_clock :: "instant \<Rightarrow> DateTimeParts" where
  "wall_clock t =
     (let (y, m, d) = civil_from_days (t div 86400000);
          r = t mod 86400000
      in \<lparr>p_year = y, p_month = m, p_day = d,
          p_hour = r div 3600000, p_minute = (r mod 3600000) div 60000,
          p_second = (r mod 60000) div 1000\<rparr>)"

definition london_2030 :: formatter where
  "london_2030 timeZone t =
     wall_clock (t + (if 1901149200000 \<le> t \<and> t < 1919293200000 then 3600000 else 0))"

text \<open>
  Two wall-clock times in London: 01:30 on 2030-03-31, which the clocks skip (they go from
  01:00 to 02:00), and midnight on 2030-07-01.
\<close>

definition gap_local :: LocalDateTime where
  "gap_local =
     \<lparr>l_year = 2030, l_month = 3, l_day = 31, l_hour = Some 1, l_minute = Some 30,
      l_second = Some 0, l_millisecond = None\<rparr>"

definition summer_local :: LocalDateTime where
  "summer_local =
     \<lparr>l_year = 2030, l_month = 7, l_day = 1, l_hour = Some 0, l_minute = Some 0,
      l_second = Some 0, l_millisecond = None\<rparr>"

section \<open>The session-completion job\<close>

record CompleteEndedSessionsOptions =
  o_now :: "instant option"
  o_batchSize :: "nat option"

text \<open>
  The unit of work for one selected session, run in a transaction of its own: re-read the
  session, skip it when it is gone, ends after \<open>now\<close> or is CANCELLED; otherwise
  \<open>updateMany\<close> sets it COMPLETED if it is still SCHEDULED, and \<open>upsert\<close> on the unique
  \<open>sessionId\<close> of the ledger inserts the consumption entry unless an entry for the session
  exists already (\<open>update: {}\<close> changes nothing).
\<close>

definition complete_one :: "instant \<Rightarrow> ident \<Rightarrow> Store \<Rightarrow> Store" where
  "complete_one now sessId tx =
     (case find (\<lambda>s. sid s = sessId) (sessions tx) of
        None \<Rightarrow> tx
      | Some current \<Rightarrow>
          if endAtUtc current > now then tx
          else if status current = CANCELLED then tx
          else
            let tx1 = tx\<lparr>sessions :=
                          map (\<lambda>s. if sid s = sid current \<and> status s = SCHEDULED
                                    then s\<lparr>status := COMPLETED\<rparr> else s) (sessions tx)\<rparr>
            in (case find (\<lambda>e. le_sessionId e = Some (sid current)) (ledger tx1) of
                  Some existing \<Rightarrow> tx1
                | None \<Rightarrow>
                    tx1\<lparr>ledger := ledger tx1 @
                          [\<lparr>le_studentId = studentId current,
                            le_teacherId = Some (teacherId current),
                            deltaUnits = - consumesUnits current,
                            reason = SESSION_CONSUME,
                            le_sessionId = Some (sid current)\<rparr>]\<rparr>))"

text \<open>
  The query of the job: the SCHEDULED sessions with \<open>endAtUtc <= now\<close>, ordered by
  \<open>endAtUtc\<close> ascending (rows with equal ends in table order) and cut to the batch size.
\<close>

definition findMany_ended :: "instant \<Rightarrow> nat \<Rightarrow> Store \<Rightarrow> Session list" where
  "findMany_ended now batchSize prisma =
     take batchSize
       (sort_key endAtUtc
          (filter (\<lambda>s. status s = SCHEDULED \<and> endAtUtc s \<le> now) (sessions prisma)))"

text \<open>
  \<open>completeEndedSessions(prisma, options)\<close>; \<open>clock\<close> is the value of \<open>new Date()\<close>. The
  result is the number of sessions selected and the store after the loop.
\<close>

definition completeEndedSessions ::
  "instant \<Rightarrow> CompleteEndedSessionsOptions \<Rightarrow> Store \<Rightarrow> nat \<times> Store" where
  "completeEndedSessions clock options prisma =
     (let now = nullish (o_now options) clock;
          batchSize = nullish (o_batchSize options) 100;
          selected = findMany_ended now batchSize prisma
      in (length selected,
          fold (\<lambda>session. complete_one now (sid session)) selected prisma))"

text \<open>\<open>GET /hours\<close> of the student routes: the sum of the student's ledger entries.\<close>

definition remainingUnits :: "Store \<Rightarrow> ident \<Rightarrow> int" where
  "remainingUnits db userId =
     sum_list (map deltaUnits (filter (\<lambda>e. le_studentId e = userId) (ledger db)))"

text \<open>
  The student has bought ten units and has had two lessons on 2030-01-02, from 00:00 to
  01:00 and from 02:00 to 03:00 UTC; the job has not run yet.
\<close>

definition demo_session2 :: Session where
  "demo_session2 =
     demo_session\<lparr>sid := ''sess2'', startAtUtc := 1893549600000, endAtUtc := 1893553200000\<rparr>"

definition demo_db_backlog :: Store where
  "demo_db_backlog =
     demo_db\<lparr>sessions := [demo_session, demo_session2],
             ledger := [\<lparr>le_studentId = ''student1'', le_teacherId = None, deltaUnits = 10,
                         reason = PURCHASE, le_sessionId = None\<rparr>]\<rparr>"

text \<open>
  The job one day later, on 2030-01-03T00:00Z, with the default batch size and with a batch
  size of one.
\<close>

definition demo_options :: CompleteEndedSessionsOptions where
  "demo_options = \<lparr>o_now = Some 1893628800000, o_batchSize = None\<rparr>"

definition demo_options_batch1 :: CompleteEndedSessionsOptions where
  "demo_options_batch1 = \<lparr>o_now = Some 1893628800000, o_batchSize = Some 1\<rparr>"

section \<open>Payroll: the aggregation\<close>

text \<open>
  Hours are fractions, and JavaScript rounds every quotient and every sum of Numbers to a
  double. A double is a rational; \<open>to_double x\<close> is the double nearest to the rational
  \<open>x\<close>, ties to even, with 53 significant bits (subnormal and overflowing magnitudes do
  not occur with hours and are not modelled). \<open>ilog2 a\<close> is the exponent of the leading
  bit of a positive rational.
\<close>

definition pow2 :: "int \<Rightarrow> rat" where
  "pow2 e = (if 0 \<le> e then 2 ^ nat e else 1 / 2 ^ nat (- e))"

definition ilog2 :: "rat \<Rightarrow> int" where
  "ilog2 a =
     (let (n, d) = quotient_of a;
          k = int (bit_length n) - int (bit_length d)
      in if pow2 k \<le> a then k else k - 1)"

definition to_double :: "rat \<Rightarrow> rat" where
  "to_double x =
     (if x = 0 then 0
      else
        let a = \<bar>x\<bar>;
            e = ilog2 a - 52;
            m = a / pow2 e;
            q = \<lfloor>m\<rfloor>;
            r = m - of_int q;
            q' = (if r > 1 / 2 \<or> (r = 1 / 2 \<and> odd q) then q + 1 else q)
        in sgn x * of_int q' * pow2 e)"

definition js_add :: "rat \<Rightarrow> rat \<Rightarrow> rat" where
  "js_add a b = to_double (a + b)"

definition js_div :: "rat \<Rightarrow> rat \<Rightarrow> rat" where
  "js_div a b = to_double (a / b)"

record CurrencyTotal =
  ct_currency :: Currency
  totalCents :: int
  totalHours :: rat
  sessionsCount :: nat

text \<open>
  A JavaScript \<open>Map\<close> is an association list in insertion order: \<open>get\<close> is \<open>map_of\<close>,
  \<open>set\<close> replaces the value of a key in place or appends a new key (\<open>Map_set\<close>), and
  \<open>values()\<close> lists the values in insertion order.
\<close>

fun Map_set :: "'k \<Rightarrow> 'v \<Rightarrow> ('k \<times> 'v) list \<Rightarrow> ('k \<times> 'v) list" where
  "Map_set k v [] = [(k, v)]"
| "Map_set k v (p # ps) = (if fst p = k then (k, v) # ps else p # Map_set k v ps)"

text \<open>
  The update of one currency bucket. The loop of the route performs it twice per session
  with the same statements, on the map of the teacher's totals and on the map of the
  session's student: fetch the bucket of the currency or start one at zero, add the cents,
  the hours and one session, and store the bucket. All three fields are Numbers and \<open>+=\<close>
  rounds: the cents are integers that may pass \<open>2^53\<close> (\<open>Number_add\<close>), the hours are
  fractions (\<open>js_add\<close>); the count is at most the length of an array, which is below
  \<open>2^32\<close>, so adding one to it is exact.
\<close>

definition add_to_bucket ::
  "Currency \<Rightarrow> int \<Rightarrow> int \<Rightarrow> (Currency \<times> CurrencyTotal) list \<Rightarrow> (Currency \<times> CurrencyTotal) list" where
  "add_to_bucket currency sessionCents durationMs totalsByCurrency =
     (let existing = (case map_of totalsByCurrency currency of
                        Some t \<Rightarrow> t
                      | None \<Rightarrow> \<lparr>ct_currency = currency, totalCents = 0, totalHours = 0,
                                 sessionsCount = 0\<rparr>);
          existing' = existing
            \<lparr>totalCents := Number_add (totalCents existing) sessionCents,
             totalHours := js_add (totalHours existing)
                             (js_div (of_int durationMs) (of_int MS_PER_HOUR)),
             sessionsCount := sessionsCount existing + 1\<rparr>
      in Map_set currency existing' totalsByCurrency)"

record StudentTotals =
  st_studentId :: ident
  st_studentName :: "string option"
  st_totalsByCurrency :: "(Currency \<times> CurrencyTotal) list"

text \<open>
  One round of the loop over the selected sessions. \<open>displayNameOf\<close> is the display name in
  the student's profile, if there is one.
\<close>

definition payroll_step ::
  "(ident \<Rightarrow> string option) \<Rightarrow> Session
     \<Rightarrow> (Currency \<times> CurrencyTotal) list \<times> (ident \<times> StudentTotals) list
     \<Rightarrow> (Currency \<times> CurrencyTotal) list \<times> (ident \<times> StudentTotals) list" where
  "payroll_step displayNameOf session acc =
     (let totalsByCurrency = fst acc;
          totalsByStudent = snd acc;
          durationMs = Number_sub (endAtUtc session) (startAtUtc session)
      in if durationMs \<le> 0 then acc
         else
           let currency = currencySnapshot session;
               sessionCents = prorateCents durationMs (teacherHourlyWageCentsSnapshot session);
               totalsByCurrency' = add_to_bucket currency sessionCents durationMs totalsByCurrency;
               studentEntry = (case map_of totalsByStudent (studentId session) of
                                 Some e \<Rightarrow> e
                               | None \<Rightarrow> \<lparr>st_studentId = studentId session,
                                          st_studentName = displayNameOf (studentId session),
                                          st_totalsByCurrency = []\<rparr>);
               studentEntry' = studentEntry
                 \<lparr>st_totalsByCurrency :=
                    add_to_bucket currency sessionCents durationMs
                      (st_totalsByCurrency studentEntry)\<rparr>
           in (totalsByCurrency', Map_set (studentId session) studentEntry' totalsByStudent))"

text \<open>
  \<open>Array.prototype.sort(compare)\<close>: a stable sort; with a comparator that is a total
  preorder its result is that of the stable insertion sort below.
\<close>

fun insert_sorted :: "('a \<Rightarrow> 'a \<Rightarrow> int) \<Rightarrow> 'a \<Rightarrow> 'a list \<Rightarrow> 'a list" where
  "insert_sorted compare x [] = [x]"
| "insert_sorted compare x (y # ys) =
     (if compare x y \<le> 0 then x # y # ys else y # insert_sorted compare x ys)"

definition Array_sort :: "('a \<Rightarrow> 'a \<Rightarrow> int) \<Rightarrow> 'a list \<Rightarrow> 'a list" where
  "Array_sort compare xs = foldr (insert_sorted compare) xs []"

fun currency_code :: "Currency \<Rightarrow> string" where
  "currency_code AUD = ''AUD''"
| "currency_code CNY = ''CNY''"
| "currency_code USD = ''USD''"

record StudentPayroll =
  sp_studentId :: ident
  sp_studentName :: "string option"
  sp_totals :: "CurrencyTotal list"

record Payroll =
  totals :: "CurrencyTotal list"
  byStudent :: "StudentPayroll list"

text \<open>
  \<open>GET /payroll\<close> from the query on: the COMPLETED sessions of the teacher that end in
  \<open>[rangeStartUtc, rangeEndUtcExclusive)\<close>, the loop, and the two sorted lists of the reply.
  \<open>localeCompare\<close> is the string comparison of the platform.
\<close>

definition payroll_sessions :: "ident \<Rightarrow> instant \<Rightarrow> instant \<Rightarrow> Store \<Rightarrow> Session list" where
  "payroll_sessions userId rangeStartUtc rangeEndUtcExclusive db =
     filter (\<lambda>s. teacherId s = userId \<and> status s = COMPLETED
                 \<and> rangeStartUtc \<le> endAtUtc s \<and> endAtUtc s < rangeEndUtcExclusive)
       (sessions db)"

definition get_payroll ::
  "(ident \<Rightarrow> string option) \<Rightarrow> (string \<Rightarrow> string \<Rightarrow> int) \<Rightarrow> ident \<Rightarrow> instant \<Rightarrow> instant \<Rightarrow> Store
     \<Rightarrow> Payroll" where
  "get_payroll displayNameOf localeCompare userId rangeStartUtc rangeEndUtcExclusive db =
     (let selected = payroll_sessions userId rangeStartUtc rangeEndUtcExclusive db;
          acc = fold (payroll_step displayNameOf) selected ([], []);
          totalsByCurrency = fst acc;
          totalsByStudent = snd acc;
          byCurrency = (\<lambda>a b. localeCompare (currency_code (ct_currency a))
                                           (currency_code (ct_currency b)))
      in \<lparr>totals = Array_sort byCurrency (map snd totalsByCurrency),
          byStudent =
            Array_sort
              (\<lambda>a b. localeCompare (nullish (sp_studentName a) (sp_studentId a))
                                    (nullish (sp_studentName b) (sp_studentId b)))
              (map (\<lambda>entry. \<lparr>sp_studentId = st_studentId entry,
                               sp_studentName = st_studentName entry,
                               sp_totals = Array_sort byCurrency
                                             (map snd (st_totalsByCurrency entry))\<rparr>)
                 (map snd totalsByStudent))\<rparr>)"

section \<open>Reference values for the payroll properties\<close>

text \<open>
  What the properties of the aggregation are stated against: the duration, the cents and the
  hours of one session as the loop computes them, the bucket that a list of contributing
  sessions of one currency should produce (cents and hours added up in the order of the
  list, with the rounding of each addition), and the statement that a currency map holds
  exactly these buckets.
\<close>

definition session_durationMs :: "Session \<Rightarrow> int" where
  "session_durationMs s = Number_sub (endAtUtc s) (startAtUtc s)"

definition contributes :: "Session \<Rightarrow> bool" where
  "contributes s = (0 < session_durationMs s)"

definition session_cents :: "Session \<Rightarrow> int" where
  "session_cents s = prorateCents (session_durationMs s) (teacherHourlyWageCentsSnapshot s)"

definition session_hours :: "Session \<Rightarrow> rat" where
  "session_hours s = js_div (of_int (session_durationMs s)) (of_int MS_PER_HOUR)"

definition expected_bucket :: "Currency \<Rightarrow> Session list \<Rightarrow> CurrencyTotal" where
  "expected_bucket c ss =
     \<lparr>ct_currency = c, totalCents = foldl Number_add 0 (map session_cents ss),
      totalHours = foldl js_add 0 (map session_hours ss), sessionsCount = length ss\<rparr>"

definition bucket_invariant :: "Session list \<Rightarrow> (Currency \<times> CurrencyTotal) list \<Rightarrow> bool" where
  "bucket_invariant ps T =
     (distinct (map fst T)
      \<and> (\<forall>c. map_of T c =
             (if filter (\<lambda>s. currencySnapshot s = c) ps = [] then None
              else Some (expected_bucket c (filter (\<lambda>s. currencySnapshot s = c) ps)))))"

definition student_invariant ::
  "(ident \<Rightarrow> string option) \<Rightarrow> Session list \<Rightarrow> (ident \<times> StudentTotals) list \<Rightarrow> bool" where
  "student_invariant displayNameOf ps S =
     (distinct (map fst S)
      \<and> (\<forall>st. case map_of S st of
                 None \<Rightarrow> filter (\<lambda>s. studentId s = st) ps = []
               | Some e \<Rightarrow>
                   filter (\<lambda>s. studentId s = st) ps \<noteq> []
                   \<and> st_studentId e = st \<and> st_studentName e = displayNameOf st
                   \<and> bucket_invariant (filter (\<lambda>s. studentId s = st) ps)
                        (st_totalsByCurrency e)))"

section \<open>A payroll week\<close>

text \<open>
  The week of Monday 2030-01-07 in Sydney, from 2030-01-06T13:00Z to 2030-01-13T13:00Z.
  On 2030-01-10 the teacher has held three lessons at 10000 cents an hour: 15 minutes with
  the first student, 20 minutes with a second student, and 105 minutes with the first
  student again. Strings are compared by their character codes.
\<close>

definition demo_lesson_a :: Session where
  "demo_lesson_a =
     demo_session\<lparr>sid := ''pay1'', startAtUtc := 1894269600000, endAtUtc := 1894270500000,
                   status := COMPLETED\<rparr>"

definition demo_lesson_b :: Session where
  "demo_lesson_b =
     demo_session\<lparr>sid := ''pay2'', studentId := ''student2'',
                   startAtUtc := 1894273200000, endAtUtc := 1894274400000,
                   status := COMPLETED\<rparr>"

definition demo_lesson_c :: Session where
  "demo_lesson_c =
     demo_session\<lparr>sid := ''pay3'', startAtUtc := 1894276800000, endAtUtc := 1894283100000,
                   status := COMPLETED\<rparr>"

definition demo_db_payroll :: Store where
  "demo_db_payroll = demo_db\<lparr>sessions := [demo_lesson_a, demo_lesson_b, demo_lesson_c]\<rparr>"

definition demo_displayNameOf :: "ident \<Rightarrow> string option" where
  "demo_displayNameOf i =
     (if i = ''student1'' then Some ''Ann'' else if i = ''student2'' then Some ''Bob'' else None)"

definition code_unit_compare :: "string \<Rightarrow> string \<Rightarrow> int" where
  "code_unit_compare a b = (if a = b then 0 else if a < b then - 1 else 1)"

definition demo_payroll :: Payroll where
  "demo_payroll =
     get_payroll demo_displayNameOf code_unit_compare ''teacher1'' 1893934800000 1894539600000
       demo_db_payroll"

text \<open>
  The same week with amounts at the edge of the exact integers: a lesson with the first
  student that started 30198988800000 ms (about 957 years) before it ended, at
  \<open>2^30\<close> cents an hour, which comes to \<open>2^53\<close> cents, and then two lessons of one hour at
  one cent an hour with the second student.
\<close>

definition demo_lesson_long :: Session where
  "demo_lesson_long =
     demo_session\<lparr>sid := ''pay4'', startAtUtc := - 28304718300000, endAtUtc := 1894270500000,
                   status := COMPLETED, teacherHourlyWageCentsSnapshot := 1073741824\<rparr>"

definition demo_lesson_cent1 :: Session where
  "demo_lesson_cent1 =
     demo_session\<lparr>sid := ''pay5'', studentId := ''student2'',
                   startAtUtc := 1894273200000, endAtUtc := 1894276800000,
                   status := COMPLETED, teacherHourlyWageCentsSnapshot := 1\<rparr>"

definition demo_lesson_cent2 :: Session where
  "demo_lesson_cent2 =
     demo_session\<lparr>sid := ''pay6'', studentId := ''student2'',
                   startAtUtc := 1894276800000, endAtUtc := 1894280400000,
                   status := COMPLETED, teacherHourlyWageCentsSnapshot := 1\<rparr>"

definition demo_db_payroll_long :: Store where
  "demo_db_payroll_long =
     demo_db\<lparr>sessions := [demo_lesson_long, demo_lesson_cent1, demo_lesson_cent2]\<rparr>"

definition demo_payroll_long :: Payroll where
  "demo_payroll_long =
     get_payroll demo_displayNameOf code_unit_compare ''teacher1'' 1893934800000 1894539600000
       demo_db_payroll_long"

section \<open>Properties of the payroll arithmetic\<close>

lemma BigInt_div_nonneg: "0 \<le> a \<Longrightarrow> 0 < b \<Longrightarrow> BigInt_div a b = a div b"
  by (cases "a = 0") (simp_all add: BigInt_div_def)

lemma Number_of_BigInt_safe: "\<bar>n\<bar> < 2 ^ 53 \<Longrightarrow> Number_of_BigInt n = n"
  by (simp add: Number_of_BigInt_def Let_def)

lemma prorateCents_div:
  assumes "0 < d" and "0 \<le> w" and "(d * w + 1800000) div 3600000 < 2 ^ 53"
  shows "prorateCents d w = (d * w + 1800000) div 3600000"
proof -
  have nn: "0 \<le> d * w + 1800000" using assms(1,2) by simp
  have half: "BigInt_div MS_PER_HOUR 2 = 1800000"
    by (simp add: MS_PER_HOUR_def BigInt_div_def)
  have q: "BigInt_div (d * w + 1800000) MS_PER_HOUR = (d * w + 1800000) div 3600000"
    using BigInt_div_nonneg [OF nn, of MS_PER_HOUR] by (simp add: MS_PER_HOUR_def)
  have "0 \<le> (d * w + 1800000) div 3600000" using nn by (simp add: pos_imp_zdiv_nonneg_iff)
  then have "\<bar>(d * w + 1800000) div 3600000\<bar> < 2 ^ 53" using assms(3) by simp
  then show ?thesis
    using assms(1) by (simp add: prorateCents_def Let_def half q Number_of_BigInt_safe)
qed

lemma round_half_up_div:
  "\<lfloor>(of_int n :: rat) / 3600000 + 1 / 2\<rfloor> = (n + 1800000) div 3600000"
proof -
  have "(of_int n :: rat) / 3600000 + 1 / 2 = of_int (n + 1800000) / of_int 3600000"
    by (simp add: field_simps)
  then show ?thesis
    by (simp only: floor_divide_of_int_eq)
qed

text \<open>
  Claim C7. For a session that the payroll loop accumulates (positive duration), with a
  non-negative hourly wage and a result that fits the 53 bits of a Number, the prorated wage
  is \<open>floor((durationMs * wageCents + halfHourMs) / hourMs)\<close> with \<open>hourMs = 3600000\<close> and
  \<open>halfHourMs = hourMs / 2\<close>, which is the exact rational \<open>durationMs * wageCents / hourMs\<close>
  rounded half up.
\<close>

theorem prorateCents_round_half_up:
  assumes "0 < durationMs" and "0 \<le> wageCents"
    and "(durationMs * wageCents + MS_PER_HOUR div 2) div MS_PER_HOUR < 2 ^ 53"
  shows "prorateCents durationMs wageCents
           = (durationMs * wageCents + MS_PER_HOUR div 2) div MS_PER_HOUR
       \<and> prorateCents durationMs wageCents
           = \<lfloor>(of_int (durationMs * wageCents) :: rat) / of_int MS_PER_HOUR + 1 / 2\<rfloor>
       \<and> MS_PER_HOUR = 3600000"
proof -
  have b: "(durationMs * wageCents + 1800000) div 3600000 < 2 ^ 53"
    using assms(3) by (simp add: MS_PER_HOUR_def)
  have e: "prorateCents durationMs wageCents = (durationMs * wageCents + 1800000) div 3600000"
    by (rule prorateCents_div [OF assms(1,2) b])
  have r: "\<lfloor>(of_int (durationMs * wageCents) :: rat) / 3600000 + 1 / 2\<rfloor>
             = (durationMs * wageCents + 1800000) div 3600000"
    by (rule round_half_up_div)
  have m: "MS_PER_HOUR = 3600000" by (simp add: MS_PER_HOUR_def)
  show ?thesis
    unfolding m using e r by simp
qed

text \<open>A session of one and a half hours at 10000 cents an hour earns 15000 cents.\<close>

theorem prorateCents_round_half_up_witness:
  "prorateCents 5400000 10000 = 15000
   \<and> prorateCents 5400000 10000 = \<lfloor>(of_int (5400000 * 10000) :: rat) / of_int MS_PER_HOUR + 1 / 2\<rfloor>"
proof -
  have h1: "(0::int) < 5400000" by simp
  have h2: "(0::int) \<le> 10000" by simp
  have h3: "((5400000::int) * 10000 + MS_PER_HOUR div 2) div MS_PER_HOUR < 2 ^ 53"
    by (simp add: MS_PER_HOUR_def)
  have v: "((5400000::int) * 10000 + MS_PER_HOUR div 2) div MS_PER_HOUR = 15000"
    by (simp add: MS_PER_HOUR_def)
  from prorateCents_round_half_up [OF h1 h2 h3] show ?thesis
    by (simp only: v) simp
qed

section \<open>Properties of change-request creation\<close>

lemma post_change_requests_at:
  assumes "paramId \<noteq> []" and "createChangeRequestBodySchema body"
    and "user_findUnique db userId = Some actor"
    and "find (\<lambda>s. sid s = paramId \<and> studentId s = userId) (sessions db) = Some session"
    and "status session = SCHEDULED"
  shows "post_change_requests userId newId nowUtc paramId body db =
     (if nowUtc > startAtUtc session - 86400000 then (Forbidden, db)
      else case find (\<lambda>c. sessionId c = sid session \<and> crStatus c = PENDING) (changeRequests db) of
          Some existingPending \<Rightarrow> (Conflict ''Pending change request already exists'', db)
        | None \<Rightarrow>
           (Created newId,
            db\<lparr>changeRequests :=
                 changeRequests db @ [changeRequest_of_body newId (sid session) userId body],
               auditLogs := auditLogs db @
                 [\<lparr>orgId = user_orgId actor, actorUserId = user_id actor,
                   action = ''STUDENT_CREATE_CHANGE_REQUEST'',
                   entityType = ''ChangeRequest'', entityId = newId\<rparr>]\<rparr>))"
  using assms
  by (cases body)
     (simp_all add: post_change_requests_def Let_def auditLog_create_def split: option.splits)


lemma demo_actor:
  "user_findUnique demo_db ''student1''
     = Some \<lparr>user_id = ''student1'', user_orgId = ''org1'', user_role = STUDENT\<rparr>"
  by (simp add: user_findUnique_def demo_db_def demo_users_def)

lemma demo_own_session:
  "find (\<lambda>s. sid s = ''sess1'' \<and> studentId s = ''student1'') (sessions demo_db) = Some demo_session"
  by (simp add: demo_db_def demo_session_def)

lemma demo_session_fields:
  "status demo_session = SCHEDULED" "startAtUtc demo_session = 1893542400000"
  "sid demo_session = ''sess1''"
  by (simp_all add: demo_session_def)

text \<open>
  Claim C6. A student asks for a change to one of their own SCHEDULED sessions, with a
  well-formed request. With \<open>cutoff = startAtUtc - 24h\<close>, the answer is Forbidden (403, not a
  Conflict) exactly when \<open>now > cutoff\<close>, and then nothing is written. At \<open>now = cutoff\<close> the
  request is not Forbidden, and it is created when no request is pending; one millisecond
  later it is Forbidden.
\<close>

theorem change_request_cutoff:
  assumes "paramId \<noteq> []" and "createChangeRequestBodySchema body"
    and "user_findUnique db userId = Some actor"
    and "find (\<lambda>s. sid s = paramId \<and> studentId s = userId) (sessions db) = Some session"
    and "status session = SCHEDULED"
  shows "(fst (post_change_requests userId newId nowUtc paramId body db) = Forbidden
            \<longleftrightarrow> nowUtc > startAtUtc session - 24 * 60 * 60 * 1000)
       \<and> (nowUtc > startAtUtc session - 24 * 60 * 60 * 1000 \<longrightarrow>
            snd (post_change_requests userId newId nowUtc paramId body db) = db)
       \<and> (nowUtc = startAtUtc session - 24 * 60 * 60 * 1000
            \<and> find (\<lambda>c. sessionId c = sid session \<and> crStatus c = PENDING) (changeRequests db) = None
          \<longrightarrow>
            fst (post_change_requests userId newId nowUtc paramId body db) = Created newId
            \<and> changeRequests (snd (post_change_requests userId newId nowUtc paramId body db))
                = changeRequests db @ [changeRequest_of_body newId (sid session) userId body])
       \<and> (nowUtc = startAtUtc session - 24 * 60 * 60 * 1000 + 1 \<longrightarrow>
            fst (post_change_requests userId newId nowUtc paramId body db) = Forbidden)
       \<and> statusCode Forbidden = 403"
  unfolding post_change_requests_at [OF assms]
  by (simp split: option.splits)

text \<open>
  The lesson starts at 2030-01-02T00:00:00.000Z. A request at 2030-01-01T00:00:00.000Z is
  created, a request at 2030-01-01T00:00:00.001Z is Forbidden.
\<close>

theorem change_request_cutoff_witness:
  "fst (post_change_requests ''student1'' ''cr1'' 1893456000000 ''sess1'' CancelBody demo_db)
     = Created ''cr1''
   \<and> fst (post_change_requests ''student1'' ''cr1'' 1893456000001 ''sess1'' CancelBody demo_db)
     = Forbidden
   \<and> snd (post_change_requests ''student1'' ''cr1'' 1893456000001 ''sess1'' CancelBody demo_db)
     = demo_db"
proof -
  have p: "''sess1'' \<noteq> []" by simp
  have b: "createChangeRequestBodySchema CancelBody" by simp
  have np: "find (\<lambda>c. sessionId c = ''sess1'' \<and> crStatus c = PENDING) (changeRequests demo_db) = None"
    by (simp add: demo_db_def)
  from change_request_cutoff
         [OF p b demo_actor demo_own_session demo_session_fields(1), of "''cr1''" 1893456000000]
  have a: "fst (post_change_requests ''student1'' ''cr1'' 1893456000000 ''sess1'' CancelBody demo_db)
             = Created ''cr1''"
    using np by (simp add: demo_session_fields)
  from change_request_cutoff
         [OF p b demo_actor demo_own_session demo_session_fields(1), of "''cr1''" 1893456000001]
  have c: "fst (post_change_requests ''student1'' ''cr1'' 1893456000001 ''sess1'' CancelBody demo_db)
             = Forbidden
     \<and> snd (post_change_requests ''student1'' ''cr1'' 1893456000001 ''sess1'' CancelBody demo_db)
             = demo_db"
    by (simp add: demo_session_fields)
  from a c show ?thesis by simp
qed






section \<open>Properties of the admin session routes\<close>

lemma user_findUnique_id: "user_findUnique db i = Some u \<Longrightarrow> user_id u = i"
  by (auto simp: user_findUnique_def find_Some_iff)

lemma post_sessions_at:
  assumes "createSessionBodySchema data"
    and "user_findUnique db userId = Some actor"
    and "user_findUnique db (b_teacherId data) = Some teacher"
    and "user_orgId teacher = user_orgId actor" and "user_role teacher = TEACHER"
    and "user_findUnique db (b_studentId data) = Some student"
    and "user_orgId student = user_orgId actor" and "user_role student = STUDENT"
    and "rate_findUnique db (b_teacherId data) (b_studentId data) (b_subject data) = Some rate"
  shows "post_sessions userId newId data db =
     (case find (\<lambda>s. teacherId s = b_teacherId data \<and> status s = SCHEDULED
                     \<and> startAtUtc s < b_endAtUtc data \<and> endAtUtc s > b_startAtUtc data)
                (sessions db) of
        Some conflict \<Rightarrow> (TimeConflict (sid conflict), db)
      | None \<Rightarrow>
         (Created newId,
          db\<lparr>sessions := sessions db @
                [\<lparr>sid = newId, teacherId = b_teacherId data, studentId = b_studentId data,
                  subject = b_subject data, startAtUtc = b_startAtUtc data,
                  endAtUtc = b_endAtUtc data, classTimeZone = b_classTimeZone data,
                  status = SCHEDULED, consumesUnits = b_consumesUnits data,
                  teacherHourlyWageCentsSnapshot = rate_hourlyRateCents rate,
                  currencySnapshot = rate_currency rate, createdByAdminId = userId\<rparr>],
             auditLogs := auditLogs db @
                [\<lparr>orgId = user_orgId actor, actorUserId = userId,
                  action = ''ADMIN_CREATE_SESSION'', entityType = ''Session'',
                  entityId = newId\<rparr>]\<rparr>))"
proof -
  have t: "user_id teacher = b_teacherId data" and s: "user_id student = b_studentId data"
    and a: "user_id actor = userId"
    using assms by (auto dest: user_findUnique_id)
  show ?thesis
    using assms
    by (simp add: post_sessions_def t s a Let_def auditLog_create_def split: option.splits)
qed

text \<open>
  Claim C1, amended. For a Create call that passes validation, the lookups of actor, teacher
  and student, and rate resolution: the call fails with the time Conflict exactly when some
  existing session of the same teacher with status SCHEDULED overlaps the new half-open
  interval (\<open>existing.start < new.end\<close> and \<open>existing.end > new.start\<close>); the Conflict names
  such a session and nothing is written. When every SCHEDULED session of the teacher ends at
  or before the new start, or starts at or after the new end (back-to-back included), the
  session is created with status SCHEDULED.
\<close>

theorem create_session_conflict:
  assumes "createSessionBodySchema data"
    and "user_findUnique db userId = Some actor"
    and "user_findUnique db (b_teacherId data) = Some teacher"
    and "user_orgId teacher = user_orgId actor" and "user_role teacher = TEACHER"
    and "user_findUnique db (b_studentId data) = Some student"
    and "user_orgId student = user_orgId actor" and "user_role student = STUDENT"
    and "rate_findUnique db (b_teacherId data) (b_studentId data) (b_subject data) = Some rate"
  shows "((\<exists>c. fst (post_sessions userId newId data db) = TimeConflict c)
            \<longleftrightarrow> (\<exists>e \<in> set (sessions db). teacherId e = b_teacherId data \<and> status e = SCHEDULED
                    \<and> startAtUtc e < b_endAtUtc data \<and> endAtUtc e > b_startAtUtc data))
       \<and> (\<forall>c. fst (post_sessions userId newId data db) = TimeConflict c \<longrightarrow>
              snd (post_sessions userId newId data db) = db
              \<and> (\<exists>e \<in> set (sessions db). sid e = c \<and> teacherId e = b_teacherId data
                    \<and> status e = SCHEDULED
                    \<and> startAtUtc e < b_endAtUtc data \<and> endAtUtc e > b_startAtUtc data))
       \<and> ((\<forall>e \<in> set (sessions db). teacherId e = b_teacherId data \<and> status e = SCHEDULED
              \<longrightarrow> endAtUtc e \<le> b_startAtUtc data \<or> b_endAtUtc data \<le> startAtUtc e) \<longrightarrow>
            fst (post_sessions userId newId data db) = Created newId
            \<and> sessions (snd (post_sessions userId newId data db)) = sessions db @
                [\<lparr>sid = newId, teacherId = b_teacherId data, studentId = b_studentId data,
                  subject = b_subject data, startAtUtc = b_startAtUtc data,
                  endAtUtc = b_endAtUtc data, classTimeZone = b_classTimeZone data,
                  status = SCHEDULED, consumesUnits = b_consumesUnits data,
                  teacherHourlyWageCentsSnapshot = rate_hourlyRateCents rate,
                  currencySnapshot = rate_currency rate, createdByAdminId = userId\<rparr>])"
proof -
  let ?P = "\<lambda>s. teacherId s = b_teacherId data \<and> status s = SCHEDULED
                     \<and> startAtUtc s < b_endAtUtc data \<and> endAtUtc s > b_startAtUtc data"
  show ?thesis
  proof (cases "find ?P (sessions db)")
    case None
    then have n: "\<forall>e \<in> set (sessions db). \<not> ?P e" by (simp add: find_None_iff)
    show ?thesis
      unfolding post_sessions_at [OF assms] None using n by auto
  next
    case (Some c)
    then have c: "c \<in> set (sessions db)" "?P c"
      by (auto simp: find_Some_iff)
    show ?thesis
      unfolding post_sessions_at [OF assms] Some using c by force
  qed
qed


lemma demo_admin:
  "user_findUnique demo_db ''admin1''
     = Some \<lparr>user_id = ''admin1'', user_orgId = ''org1'', user_role = ADMIN\<rparr>"
  "user_findUnique demo_db ''teacher1''
     = Some \<lparr>user_id = ''teacher1'', user_orgId = ''org1'', user_role = TEACHER\<rparr>"
  by (simp_all add: user_findUnique_def demo_db_def demo_users_def)

lemma demo_rate:
  "rate_findUnique demo_db ''teacher1'' ''student1'' GENERAL
     = Some \<lparr>rate_teacherId = ''teacher1'', rate_studentId = ''student1'', rate_subject = GENERAL,
             rate_hourlyRateCents = 10000, rate_currency = AUD\<rparr>"
  by (simp add: rate_findUnique_def demo_db_def demo_rates_def)

lemma demo_completed_lookups:
  "user_findUnique demo_db_completed = user_findUnique demo_db"
  "rate_findUnique demo_db_completed = rate_findUnique demo_db"
  by (auto simp: fun_eq_iff user_findUnique_def rate_findUnique_def demo_db_completed_def)

text \<open>
  The teacher's lesson runs 00:00 to 01:00. A lesson 01:00 to 02:00 is created; a lesson
  00:30 to 01:30 is refused, names the first lesson, and changes nothing.
\<close>

theorem create_session_conflict_witness:
  "fst (post_sessions ''admin1'' ''sess2'' demo_adjacent_body demo_db) = Created ''sess2''
   \<and> fst (post_sessions ''admin1'' ''sess2'' demo_overlap_body demo_db) = TimeConflict ''sess1''
   \<and> snd (post_sessions ''admin1'' ''sess2'' demo_overlap_body demo_db) = demo_db"
proof -
  let ?admin = "\<lparr>user_id = ''admin1'', user_orgId = ''org1'', user_role = ADMIN\<rparr>"
  let ?teacher = "\<lparr>user_id = ''teacher1'', user_orgId = ''org1'', user_role = TEACHER\<rparr>"
  let ?student = "\<lparr>user_id = ''student1'', user_orgId = ''org1'', user_role = STUDENT\<rparr>"
  let ?rate = "\<lparr>rate_teacherId = ''teacher1'', rate_studentId = ''student1'',
                rate_subject = GENERAL, rate_hourlyRateCents = 10000, rate_currency = AUD\<rparr>"
  have adj: "b_teacherId demo_adjacent_body = ''teacher1''"
    "b_studentId demo_adjacent_body = ''student1''" "b_subject demo_adjacent_body = GENERAL"
    "b_startAtUtc demo_adjacent_body = 1893546000000" "b_endAtUtc demo_adjacent_body = 1893549600000"
    by (simp_all add: demo_adjacent_body_def)
  have ovl: "b_teacherId demo_overlap_body = ''teacher1''"
    "b_studentId demo_overlap_body = ''student1''" "b_subject demo_overlap_body = GENERAL"
    "b_startAtUtc demo_overlap_body = 1893544200000" "b_endAtUtc demo_overlap_body = 1893547800000"
    by (simp_all add: demo_overlap_body_def)
  have ss: "sessions demo_db = [demo_session]" by (simp add: demo_db_def)
  have f: "teacherId demo_session = ''teacher1''" "endAtUtc demo_session = 1893546000000"
    by (simp_all add: demo_session_def)
  have a1: "createSessionBodySchema demo_adjacent_body"
    by (simp add: createSessionBodySchema_def demo_adjacent_body_def)
  have a2: "user_findUnique demo_db ''admin1'' = Some ?admin" by (rule demo_admin)
  have a3: "user_findUnique demo_db (b_teacherId demo_adjacent_body) = Some ?teacher"
    by (simp add: adj demo_admin)
  have a4: "user_orgId ?teacher = user_orgId ?admin" by simp
  have a5: "user_role ?teacher = TEACHER" by simp
  have a6: "user_findUnique demo_db (b_studentId demo_adjacent_body) = Some ?student"
    by (simp add: adj demo_actor)
  have a7: "user_orgId ?student = user_orgId ?admin" by simp
  have a8: "user_role ?student = STUDENT" by simp
  have a9: "rate_findUnique demo_db (b_teacherId demo_adjacent_body)
              (b_studentId demo_adjacent_body) (b_subject demo_adjacent_body) = Some ?rate"
    by (simp add: adj demo_rate)
  have o1: "createSessionBodySchema demo_overlap_body"
    by (simp add: createSessionBodySchema_def demo_overlap_body_def)
  have o3: "user_findUnique demo_db (b_teacherId demo_overlap_body) = Some ?teacher"
    by (simp add: ovl demo_admin)
  have o6: "user_findUnique demo_db (b_studentId demo_overlap_body) = Some ?student"
    by (simp add: ovl demo_actor)
  have o9: "rate_findUnique demo_db (b_teacherId demo_overlap_body)
              (b_studentId demo_overlap_body) (b_subject demo_overlap_body) = Some ?rate"
    by (simp add: ovl demo_rate)
  from create_session_conflict [OF a1 a2 a3 a4 a5 a6 a7 a8 a9, of "''sess2''"]
  have a: "fst (post_sessions ''admin1'' ''sess2'' demo_adjacent_body demo_db) = Created ''sess2''"
    by (simp add: ss f adj demo_session_fields)
  from create_session_conflict [OF o1 a2 o3 a4 a5 o6 a7 a8 o9, of "''sess2''"]
  have b: "fst (post_sessions ''admin1'' ''sess2'' demo_overlap_body demo_db) = TimeConflict ''sess1''
     \<and> snd (post_sessions ''admin1'' ''sess2'' demo_overlap_body demo_db) = demo_db"
    by (simp add: ss f ovl demo_session_fields) blast
  from a b show ?thesis by simp
qed

text \<open>
  Claim C1, as stated, fails: the conflict query asks for status SCHEDULED, so a COMPLETED
  session (status other than CANCELLED) that overlaps the new interval does not stop the
  creation. Here the completed lesson 00:00 to 01:00 overlaps the new lesson 00:30 to 01:30
  of the same teacher, and the new lesson is created.
\<close>

theorem create_over_completed_session_counterexample:
  "createSessionBodySchema demo_overlap_body
   \<and> rate_findUnique demo_db_completed ''teacher1'' ''student1'' (b_subject demo_overlap_body)
       \<noteq> None
   \<and> demo_session\<lparr>status := COMPLETED\<rparr> \<in> set (sessions demo_db_completed)
   \<and> teacherId (demo_session\<lparr>status := COMPLETED\<rparr>) = b_teacherId demo_overlap_body
   \<and> status (demo_session\<lparr>status := COMPLETED\<rparr>) \<noteq> CANCELLED
   \<and> startAtUtc (demo_session\<lparr>status := COMPLETED\<rparr>) < b_endAtUtc demo_overlap_body
   \<and> endAtUtc (demo_session\<lparr>status := COMPLETED\<rparr>) > b_startAtUtc demo_overlap_body
   \<and> fst (post_sessions ''admin1'' ''sess2'' demo_overlap_body demo_db_completed) = Created ''sess2''
   \<and> length (sessions (snd (post_sessions ''admin1'' ''sess2'' demo_overlap_body demo_db_completed)))
       = 2"
  by (simp add: post_sessions_def createSessionBodySchema_def demo_overlap_body_def
        demo_db_completed_def demo_db_def demo_users_def demo_rates_def demo_session_def
        user_findUnique_def rate_findUnique_def auditLog_create_def Let_def)

text \<open>
  Claim C3 on the code: an edit that carries only \<open>endAtUtc\<close> passes the schema (its
  interval check runs only when both ends are in the payload), the handler combines the new
  end with the stored start without checking them, and the session is persisted with
  \<open>endAtUtc\<close> before \<open>startAtUtc\<close>. The lesson 00:00 to 01:00 gets the end 23:00 of the
  day before.
\<close>

theorem patch_end_only_breaks_interval:
  "updateSessionBodySchema demo_end_only_body
   \<and> fst (patch_sessions ''admin1'' ''sess1'' demo_end_only_body demo_db) = Ok
   \<and> sessions (snd (patch_sessions ''admin1'' ''sess1'' demo_end_only_body demo_db))
       = [demo_session\<lparr>endAtUtc := 1893538800000\<rparr>]
   \<and> endAtUtc (demo_session\<lparr>endAtUtc := 1893538800000\<rparr>)
       < startAtUtc (demo_session\<lparr>endAtUtc := 1893538800000\<rparr>)"
  by (simp add: patch_sessions_def updateSessionBodySchema_def demo_end_only_body_def
        user_findUnique_def user_orgId_of_def demo_db_def demo_users_def demo_session_def
        nullish_def session_update_def auditLog_create_def Let_def rate_findUnique_def)

section \<open>Properties of the approval\<close>

lemma find_map_sid:
  assumes "find (\<lambda>s. sid s = i) xs = Some s" and "\<And>s. sid (f s) = sid s"
  shows "find (\<lambda>s. sid s = i) (map (\<lambda>s. if sid s = i then f s else s) xs) = Some (f s)"
  using assms by (induction xs) (auto split: if_splits)

lemma find_map_cr_id:
  assumes "find (\<lambda>c. cr_id c = i) xs = Some c" and "\<And>c. cr_id (f c) = cr_id c"
  shows "find (\<lambda>c. cr_id c = i) (map (\<lambda>c. if cr_id c = i then f c else c) xs) = Some (f c)"
  using assms by (induction xs) (auto split: if_splits)

lemma cr_find_id: "find (\<lambda>c. cr_id c = i) xs = Some c \<Longrightarrow> cr_id c = i"
  by (auto simp: find_Some_iff)

text \<open>What the callback has done when it returns.\<close>

lemma approve_callback_Some:
  assumes "approve_callback fault actor cr db = Some (r, db')"
    and "find (\<lambda>c. cr_id c = cr_id cr) (changeRequests db) = Some cr"
    and "find (\<lambda>s. sid s = sessionId cr) (sessions db) = Some session"
  shows "changeRequests db' =
           map (\<lambda>c. if cr_id c = cr_id cr
                     then c\<lparr>crStatus := APPROVED, decidedByAdminId := Some (user_id actor)\<rparr>
                     else c) (changeRequests db)
       \<and> (crType cr = CANCEL \<longrightarrow>
            sessions db' = map (\<lambda>s. if sid s = sessionId cr then s\<lparr>status := CANCELLED\<rparr> else s)
                             (sessions db))
       \<and> (crType cr = RESCHEDULE \<longrightarrow>
            (\<exists>ps pe ptz. proposedStartAtUtc cr = Some ps \<and> proposedEndAtUtc cr = Some pe
               \<and> proposedTimeZone cr = Some ptz
               \<and> sessions db' =
                   map (\<lambda>s. if sid s = sessionId cr
                             then s\<lparr>startAtUtc := ps, endAtUtc := pe, classTimeZone := ptz\<rparr>
                             else s) (sessions db)))
       \<and> users db' = users db \<and> rates db' = rates db \<and> ledger db' = ledger db"
  using assms
  by (cases "crType cr")
     (auto simp: approve_callback_def changeRequest_update_def session_update_def
                 auditLog_create_def Let_def
           split: if_splits option.splits)

lemma approve_callback_None_fault:
  assumes "find (\<lambda>c. cr_id c = cr_id cr) (changeRequests db) = Some cr"
    and "find (\<lambda>s. sid s = sessionId cr) (sessions db) = Some session"
    and "crType cr = RESCHEDULE \<longrightarrow>
           proposedStartAtUtc cr \<noteq> None \<and> proposedEndAtUtc cr \<noteq> None \<and> proposedTimeZone cr \<noteq> None"
  shows "approve_callback None actor cr db \<noteq> None"
  using assms
  by (cases "crType cr")
     (auto simp: approve_callback_def changeRequest_update_def session_update_def
                 auditLog_create_def Let_def
           split: if_splits option.splits)

lemma approve_dichotomy:
  "(fst (post_approve fault userId paramId db) \<noteq> Ok \<and> snd (post_approve fault userId paramId db) = db)
   \<or> (fst (post_approve fault userId paramId db) = Ok
       \<and> (\<exists>cr session.
             find (\<lambda>c. cr_id c = paramId) (changeRequests db) = Some cr \<and> crStatus cr = PENDING
           \<and> find (\<lambda>s. sid s = sessionId cr) (sessions db) = Some session
           \<and> status session = SCHEDULED
           \<and> find (\<lambda>c. cr_id c = paramId) (changeRequests (snd (post_approve fault userId paramId db)))
               = Some (cr\<lparr>crStatus := APPROVED, decidedByAdminId := Some userId\<rparr>)
           \<and> (crType cr = CANCEL \<longrightarrow>
                find (\<lambda>s. sid s = sessionId cr) (sessions (snd (post_approve fault userId paramId db)))
                  = Some (session\<lparr>status := CANCELLED\<rparr>))
           \<and> (crType cr = RESCHEDULE \<longrightarrow>
                (\<exists>ps pe ptz. proposedStartAtUtc cr = Some ps \<and> proposedEndAtUtc cr = Some pe
                   \<and> proposedTimeZone cr = Some ptz
                   \<and> find (\<lambda>s. sid s = sessionId cr)
                        (sessions (snd (post_approve fault userId paramId db)))
                      = Some (session\<lparr>startAtUtc := ps, endAtUtc := pe, classTimeZone := ptz\<rparr>)))))"
proof (cases "fst (post_approve fault userId paramId db) = Ok")
  case False
  then have "snd (post_approve fault userId paramId db) = db"
    by (auto simp: post_approve_def transaction_def split: option.splits if_splits prod.splits)
  with False show ?thesis by simp
next
  case True
  then obtain actor cr session student r db' where
    a: "user_findUnique db userId = Some actor"
    and c: "find (\<lambda>c. cr_id c = paramId) (changeRequests db) = Some cr"
    and s: "find (\<lambda>s. sid s = sessionId cr) (sessions db) = Some session"
    and p: "crStatus cr = PENDING" and sc: "status session = SCHEDULED"
    and cb: "approve_callback fault actor cr db = Some (r, db')"
    and res: "post_approve fault userId paramId db = (Ok, db')"
    by (auto simp: post_approve_def transaction_def split: option.splits if_splits prod.splits)
  have ua: "user_id actor = userId" using a by (auto simp: user_findUnique_def find_Some_iff)
  have ci: "cr_id cr = paramId" using c by (rule cr_find_id)
  have c': "find (\<lambda>c. cr_id c = cr_id cr) (changeRequests db) = Some cr" using c ci by simp
  note e = approve_callback_Some [OF cb c' s, unfolded ua ci]
  have f1: "find (\<lambda>c. cr_id c = paramId) (changeRequests db')
               = Some (cr\<lparr>crStatus := APPROVED, decidedByAdminId := Some userId\<rparr>)"
    using find_map_cr_id [OF c, of "\<lambda>c. c\<lparr>crStatus := APPROVED, decidedByAdminId := Some userId\<rparr>"]
    by (simp add: conjunct1 [OF e])
  have f2: "crType cr = CANCEL \<Longrightarrow>
       find (\<lambda>s. sid s = sessionId cr) (sessions db') = Some (session\<lparr>status := CANCELLED\<rparr>)"
    using e find_map_sid [OF s, of "\<lambda>s. s\<lparr>status := CANCELLED\<rparr>"] by simp
  have f3: "crType cr = RESCHEDULE \<Longrightarrow>
       (\<exists>ps pe ptz. proposedStartAtUtc cr = Some ps \<and> proposedEndAtUtc cr = Some pe
                   \<and> proposedTimeZone cr = Some ptz
                   \<and> find (\<lambda>s. sid s = sessionId cr) (sessions db')
                      = Some (session\<lparr>startAtUtc := ps, endAtUtc := pe, classTimeZone := ptz\<rparr>))"
  proof -
    assume t: "crType cr = RESCHEDULE"
    with e obtain ps pe ptz where q: "proposedStartAtUtc cr = Some ps" "proposedEndAtUtc cr = Some pe"
       "proposedTimeZone cr = Some ptz"
       "sessions db' = map (\<lambda>s. if sid s = sessionId cr
                             then s\<lparr>startAtUtc := ps, endAtUtc := pe, classTimeZone := ptz\<rparr>
                             else s) (sessions db)" by blast
    show ?thesis
      using q find_map_sid [OF s, of "\<lambda>s. s\<lparr>startAtUtc := ps, endAtUtc := pe, classTimeZone := ptz\<rparr>"]
      by simp
  qed
  show ?thesis
    unfolding res using c p s sc f1 f2 f3 by auto
qed


text \<open>
  Claim C5. Whatever the outcome of Approve, and whichever statement of the transaction
  fails in the persistence layer: either the reply is not a success and the store is exactly
  as before (the request still PENDING, the session untouched), or the reply is a success,
  the request was PENDING on a SCHEDULED session, it is now APPROVED with the decider
  recorded, and the session carries the mutation (CANCELLED, or the proposed start, end and
  zone). In particular NotFound, Conflict and InvalidArgument leave request and session
  unchanged.
\<close>

theorem approve_atomic:
  "((fst (post_approve fault userId paramId db) \<noteq> Ok \<and> snd (post_approve fault userId paramId db) = db)
   \<or> (fst (post_approve fault userId paramId db) = Ok
       \<and> (\<exists>cr session.
             find (\<lambda>c. cr_id c = paramId) (changeRequests db) = Some cr \<and> crStatus cr = PENDING
           \<and> find (\<lambda>s. sid s = sessionId cr) (sessions db) = Some session
           \<and> status session = SCHEDULED
           \<and> find (\<lambda>c. cr_id c = paramId) (changeRequests (snd (post_approve fault userId paramId db)))
               = Some (cr\<lparr>crStatus := APPROVED, decidedByAdminId := Some userId\<rparr>)
           \<and> (crType cr = CANCEL \<longrightarrow>
                find (\<lambda>s. sid s = sessionId cr) (sessions (snd (post_approve fault userId paramId db)))
                  = Some (session\<lparr>status := CANCELLED\<rparr>))
           \<and> (crType cr = RESCHEDULE \<longrightarrow>
                (\<exists>ps pe ptz. proposedStartAtUtc cr = Some ps \<and> proposedEndAtUtc cr = Some pe
                   \<and> proposedTimeZone cr = Some ptz
                   \<and> find (\<lambda>s. sid s = sessionId cr)
                        (sessions (snd (post_approve fault userId paramId db)))
                      = Some (session\<lparr>startAtUtc := ps, endAtUtc := pe, classTimeZone := ptz\<rparr>))))))
   \<and> (\<forall>m. fst (post_approve fault userId paramId db) = NotFound m
          \<or> fst (post_approve fault userId paramId db) = Conflict m
          \<or> fst (post_approve fault userId paramId db) = InvalidArgument m
          \<or> fst (post_approve fault userId paramId db) = InternalError
        \<longrightarrow> snd (post_approve fault userId paramId db) = db)"
proof (rule conjI [OF approve_dichotomy], intro allI impI)
  fix m
  assume "fst (post_approve fault userId paramId db) = NotFound m
          \<or> fst (post_approve fault userId paramId db) = Conflict m
          \<or> fst (post_approve fault userId paramId db) = InvalidArgument m
          \<or> fst (post_approve fault userId paramId db) = InternalError"
  then have "fst (post_approve fault userId paramId db) \<noteq> Ok" by auto
  with approve_dichotomy [of fault userId paramId db]
  show "snd (post_approve fault userId paramId db) = db" by blast
qed

lemma post_approve_ok:
  assumes "paramId \<noteq> []" and a: "user_findUnique db userId = Some actor"
    and c: "find (\<lambda>c. cr_id c = paramId) (changeRequests db) = Some cr"
    and s: "find (\<lambda>s. sid s = sessionId cr) (sessions db) = Some session"
    and st: "user_findUnique db (studentId session) = Some student"
    and "user_orgId student = user_orgId actor"
    and "crStatus cr = PENDING" and "status session = SCHEDULED"
    and pr: "crType cr = RESCHEDULE \<longrightarrow>
           proposedStartAtUtc cr \<noteq> None \<and> proposedEndAtUtc cr \<noteq> None
           \<and> proposedTimeZone cr \<noteq> None \<and> proposedTimeZone cr \<noteq> Some []"
  shows "\<exists>r db'. approve_callback None actor cr db = Some (r, db')
           \<and> post_approve None userId paramId db = (Ok, db')"
proof -
  have ci: "cr_id cr = paramId" using c by (rule cr_find_id)
  have c': "find (\<lambda>c. cr_id c = cr_id cr) (changeRequests db) = Some cr" using c ci by simp
  have "approve_callback None actor cr db \<noteq> None"
    using pr by (intro approve_callback_None_fault [OF c' s]) simp
  then obtain r db' where cb: "approve_callback None actor cr db = Some (r, db')" by auto
  have "post_approve None userId paramId db = (Ok, db')"
    using assms cb by (cases "crType cr") (auto simp: post_approve_def transaction_def)
  with cb show ?thesis by blast
qed

text \<open>
  Claim C4. An admin approves a PENDING change request against a SCHEDULED session of the
  admin's organisation. For a RESCHEDULE carrying its proposed start, end and zone, the
  session gets exactly these three values and stays SCHEDULED, every other session is
  untouched. For a CANCEL the session becomes CANCELLED and keeps its start, end and zone.
  In both cases the request becomes APPROVED with the admin recorded as decider.
\<close>

theorem approve_effects:
  assumes "paramId \<noteq> []" and a: "user_findUnique db userId = Some actor"
    and c: "find (\<lambda>c. cr_id c = paramId) (changeRequests db) = Some cr"
    and s: "find (\<lambda>s. sid s = sessionId cr) (sessions db) = Some session"
    and st: "user_findUnique db (studentId session) = Some student"
    and "user_orgId student = user_orgId actor"
    and "crStatus cr = PENDING" and "status session = SCHEDULED"
  shows "(crType cr = RESCHEDULE \<and> proposedStartAtUtc cr = Some ps \<and> proposedEndAtUtc cr = Some pe
            \<and> proposedTimeZone cr = Some ptz \<and> ptz \<noteq> [] \<longrightarrow>
           fst (approve userId paramId db) = Ok
         \<and> sessions (snd (approve userId paramId db))
             = map (\<lambda>s. if sid s = sessionId cr
                        then s\<lparr>startAtUtc := ps, endAtUtc := pe, classTimeZone := ptz\<rparr> else s)
                 (sessions db)
         \<and> find (\<lambda>s. sid s = sessionId cr) (sessions (snd (approve userId paramId db)))
             = Some (session\<lparr>startAtUtc := ps, endAtUtc := pe, classTimeZone := ptz\<rparr>)
         \<and> status (session\<lparr>startAtUtc := ps, endAtUtc := pe, classTimeZone := ptz\<rparr>) = SCHEDULED
         \<and> find (\<lambda>c. cr_id c = paramId) (changeRequests (snd (approve userId paramId db)))
             = Some (cr\<lparr>crStatus := APPROVED, decidedByAdminId := Some userId\<rparr>))
       \<and> (crType cr = CANCEL \<longrightarrow>
           fst (approve userId paramId db) = Ok
         \<and> sessions (snd (approve userId paramId db))
             = map (\<lambda>s. if sid s = sessionId cr then s\<lparr>status := CANCELLED\<rparr> else s) (sessions db)
         \<and> find (\<lambda>s. sid s = sessionId cr) (sessions (snd (approve userId paramId db)))
             = Some (session\<lparr>status := CANCELLED\<rparr>)
         \<and> startAtUtc (session\<lparr>status := CANCELLED\<rparr>) = startAtUtc session
         \<and> endAtUtc (session\<lparr>status := CANCELLED\<rparr>) = endAtUtc session
         \<and> classTimeZone (session\<lparr>status := CANCELLED\<rparr>) = classTimeZone session
         \<and> find (\<lambda>c. cr_id c = paramId) (changeRequests (snd (approve userId paramId db)))
             = Some (cr\<lparr>crStatus := APPROVED, decidedByAdminId := Some userId\<rparr>))"
proof -
  have ua: "user_id actor = userId" using a by (auto simp: user_findUnique_def find_Some_iff)
  have ci: "cr_id cr = paramId" using c by (rule cr_find_id)
  have c': "find (\<lambda>c. cr_id c = cr_id cr) (changeRequests db) = Some cr" using c ci by simp
  have crf: "\<And>db'. changeRequests db' =
           map (\<lambda>c. if cr_id c = paramId
                     then c\<lparr>crStatus := APPROVED, decidedByAdminId := Some userId\<rparr>
                     else c) (changeRequests db) \<Longrightarrow>
        find (\<lambda>c. cr_id c = paramId) (changeRequests db')
             = Some (cr\<lparr>crStatus := APPROVED, decidedByAdminId := Some userId\<rparr>)"
    using find_map_cr_id [OF c, of "\<lambda>c. c\<lparr>crStatus := APPROVED, decidedByAdminId := Some userId\<rparr>"]
    by simp
  show ?thesis
  proof (intro conjI impI)
    assume h: "crType cr = RESCHEDULE \<and> proposedStartAtUtc cr = Some ps \<and> proposedEndAtUtc cr = Some pe
            \<and> proposedTimeZone cr = Some ptz \<and> ptz \<noteq> []"
    then have pr: "crType cr = RESCHEDULE \<longrightarrow>
           proposedStartAtUtc cr \<noteq> None \<and> proposedEndAtUtc cr \<noteq> None
           \<and> proposedTimeZone cr \<noteq> None \<and> proposedTimeZone cr \<noteq> Some []" by simp
    from post_approve_ok [OF assms pr] obtain r db' where
      cb: "approve_callback None actor cr db = Some (r, db')"
      and res: "post_approve None userId paramId db = (Ok, db')" by blast
    note e = approve_callback_Some [OF cb c' s, unfolded ua ci]
    have ss: "sessions db' = map (\<lambda>s. if sid s = sessionId cr
                        then s\<lparr>startAtUtc := ps, endAtUtc := pe, classTimeZone := ptz\<rparr> else s)
                 (sessions db)"
      using e h by auto
    show "fst (approve userId paramId db) = Ok" by (simp add: res)
    show "sessions (snd (approve userId paramId db))
             = map (\<lambda>s. if sid s = sessionId cr
                        then s\<lparr>startAtUtc := ps, endAtUtc := pe, classTimeZone := ptz\<rparr> else s)
                 (sessions db)" by (simp add: res ss)
    show "find (\<lambda>s. sid s = sessionId cr) (sessions (snd (approve userId paramId db)))
             = Some (session\<lparr>startAtUtc := ps, endAtUtc := pe, classTimeZone := ptz\<rparr>)"
      using find_map_sid [OF s, of "\<lambda>s. s\<lparr>startAtUtc := ps, endAtUtc := pe, classTimeZone := ptz\<rparr>"]
      by (simp add: res ss)
    show "status (session\<lparr>startAtUtc := ps, endAtUtc := pe, classTimeZone := ptz\<rparr>) = SCHEDULED"
      using assms(8) by simp
    show "find (\<lambda>c. cr_id c = paramId) (changeRequests (snd (approve userId paramId db)))
             = Some (cr\<lparr>crStatus := APPROVED, decidedByAdminId := Some userId\<rparr>)"
      using crf [OF conjunct1 [OF e]] by (simp add: res)
  next
    assume h: "crType cr = CANCEL"
    then have pr: "crType cr = RESCHEDULE \<longrightarrow>
           proposedStartAtUtc cr \<noteq> None \<and> proposedEndAtUtc cr \<noteq> None
           \<and> proposedTimeZone cr \<noteq> None \<and> proposedTimeZone cr \<noteq> Some []" by simp
    from post_approve_ok [OF assms pr] obtain r db' where
      cb: "approve_callback None actor cr db = Some (r, db')"
      and res: "post_approve None userId paramId db = (Ok, db')" by blast
    note e = approve_callback_Some [OF cb c' s, unfolded ua ci]
    have ss: "sessions db' = map (\<lambda>s. if sid s = sessionId cr then s\<lparr>status := CANCELLED\<rparr> else s)
                 (sessions db)"
      using e h by auto
    show "fst (approve userId paramId db) = Ok" by (simp add: res)
    show "sessions (snd (approve userId paramId db))
             = map (\<lambda>s. if sid s = sessionId cr then s\<lparr>status := CANCELLED\<rparr> else s) (sessions db)"
      by (simp add: res ss)
    show "find (\<lambda>s. sid s = sessionId cr) (sessions (snd (approve userId paramId db)))
             = Some (session\<lparr>status := CANCELLED\<rparr>)"
      using find_map_sid [OF s, of "\<lambda>s. s\<lparr>status := CANCELLED\<rparr>"] by (simp add: res ss)
    show "find (\<lambda>c. cr_id c = paramId) (changeRequests (snd (approve userId paramId db)))
             = Some (cr\<lparr>crStatus := APPROVED, decidedByAdminId := Some userId\<rparr>)"
      using crf [OF conjunct1 [OF e]] by (simp add: res)
  qed simp_all
qed


lemma demo_approve_lookups:
  "user_findUnique demo_db_pending ''admin1''
     = Some \<lparr>user_id = ''admin1'', user_orgId = ''org1'', user_role = ADMIN\<rparr>"
  "user_findUnique demo_db_reschedule ''admin1''
     = Some \<lparr>user_id = ''admin1'', user_orgId = ''org1'', user_role = ADMIN\<rparr>"
  "user_findUnique demo_db_pending ''student1''
     = Some \<lparr>user_id = ''student1'', user_orgId = ''org1'', user_role = STUDENT\<rparr>"
  "user_findUnique demo_db_reschedule ''student1''
     = Some \<lparr>user_id = ''student1'', user_orgId = ''org1'', user_role = STUDENT\<rparr>"
  "find (\<lambda>c. cr_id c = ''cr1'') (changeRequests demo_db_pending) = Some demo_pending"
  "find (\<lambda>c. cr_id c = ''cr1'') (changeRequests demo_db_reschedule) = Some demo_reschedule"
  "find (\<lambda>s. sid s = ''sess1'') (sessions demo_db_pending) = Some demo_session"
  "find (\<lambda>s. sid s = ''sess1'') (sessions demo_db_reschedule) = Some demo_session"
  by (simp_all add: user_findUnique_def demo_db_pending_def demo_db_reschedule_def demo_db_def
        demo_users_def demo_pending_def demo_reschedule_def demo_session_def)

lemma demo_request_fields:
  "sessionId demo_pending = ''sess1''" "crType demo_pending = CANCEL"
  "crStatus demo_pending = PENDING"
  "sessionId demo_reschedule = ''sess1''" "crType demo_reschedule = RESCHEDULE"
  "crStatus demo_reschedule = PENDING"
  "proposedStartAtUtc demo_reschedule = Some 1894356000000"
  "proposedEndAtUtc demo_reschedule = Some 1894359600000"
  "proposedTimeZone demo_reschedule = Some ''Asia/Shanghai''"
  "studentId demo_session = ''student1''"
  "cr_id demo_pending = ''cr1''" "cr_id demo_reschedule = ''cr1''"
  by (simp_all add: demo_pending_def demo_reschedule_def demo_session_def)

text \<open>
  Approving the request to move the lesson to 2030-01-11, and approving the request to
  cancel it.
\<close>

theorem approve_effects_witness:
  "fst (approve ''admin1'' ''cr1'' demo_db_reschedule) = Ok
   \<and> sessions (snd (approve ''admin1'' ''cr1'' demo_db_reschedule))
       = [demo_session\<lparr>startAtUtc := 1894356000000, endAtUtc := 1894359600000,
                       classTimeZone := ''Asia/Shanghai''\<rparr>]
   \<and> find (\<lambda>c. cr_id c = ''cr1'') (changeRequests (snd (approve ''admin1'' ''cr1'' demo_db_reschedule)))
       = Some (demo_reschedule\<lparr>crStatus := APPROVED, decidedByAdminId := Some ''admin1''\<rparr>)
   \<and> fst (approve ''admin1'' ''cr1'' demo_db_pending) = Ok
   \<and> sessions (snd (approve ''admin1'' ''cr1'' demo_db_pending))
       = [demo_session\<lparr>status := CANCELLED\<rparr>]
   \<and> find (\<lambda>c. cr_id c = ''cr1'') (changeRequests (snd (approve ''admin1'' ''cr1'' demo_db_pending)))
       = Some (demo_pending\<lparr>crStatus := APPROVED, decidedByAdminId := Some ''admin1''\<rparr>)"
proof -
  let ?admin = "\<lparr>user_id = ''admin1'', user_orgId = ''org1'', user_role = ADMIN\<rparr>"
  let ?student = "\<lparr>user_id = ''student1'', user_orgId = ''org1'', user_role = STUDENT\<rparr>"
  have p: "''cr1'' \<noteq> []" by simp
  have o: "user_orgId ?student = user_orgId ?admin" by simp
  have r3: "find (\<lambda>s. sid s = sessionId demo_reschedule) (sessions demo_db_reschedule)
              = Some demo_session"
    by (simp add: demo_request_fields demo_approve_lookups)
  have r4: "user_findUnique demo_db_reschedule (studentId demo_session) = Some ?student"
    by (simp add: demo_request_fields demo_approve_lookups)
  have c3: "find (\<lambda>s. sid s = sessionId demo_pending) (sessions demo_db_pending)
              = Some demo_session"
    by (simp add: demo_request_fields demo_approve_lookups)
  have c4: "user_findUnique demo_db_pending (studentId demo_session) = Some ?student"
    by (simp add: demo_request_fields demo_approve_lookups)
  have sr: "sessions demo_db_reschedule = [demo_session]"
    and sp: "sessions demo_db_pending = [demo_session]"
    by (simp_all add: demo_db_reschedule_def demo_db_pending_def demo_db_def)
  from approve_effects [OF p demo_approve_lookups(2) demo_approve_lookups(6) r3 r4 o
         demo_request_fields(6) demo_session_fields(1),
         of 1894356000000 1894359600000 "''Asia/Shanghai''"]
  have a: "fst (approve ''admin1'' ''cr1'' demo_db_reschedule) = Ok
   \<and> sessions (snd (approve ''admin1'' ''cr1'' demo_db_reschedule))
       = [demo_session\<lparr>startAtUtc := 1894356000000, endAtUtc := 1894359600000,
                       classTimeZone := ''Asia/Shanghai''\<rparr>]
   \<and> find (\<lambda>c. cr_id c = ''cr1'') (changeRequests (snd (approve ''admin1'' ''cr1'' demo_db_reschedule)))
       = Some (demo_reschedule\<lparr>crStatus := APPROVED, decidedByAdminId := Some ''admin1''\<rparr>)"
    by (simp add: demo_request_fields sr demo_session_fields)
  from approve_effects [OF p demo_approve_lookups(1) demo_approve_lookups(5) c3 c4 o
         demo_request_fields(3) demo_session_fields(1)]
  have b: "fst (approve ''admin1'' ''cr1'' demo_db_pending) = Ok
   \<and> sessions (snd (approve ''admin1'' ''cr1'' demo_db_pending))
       = [demo_session\<lparr>status := CANCELLED\<rparr>]
   \<and> find (\<lambda>c. cr_id c = ''cr1'') (changeRequests (snd (approve ''admin1'' ''cr1'' demo_db_pending)))
       = Some (demo_pending\<lparr>crStatus := APPROVED, decidedByAdminId := Some ''admin1''\<rparr>)"
    by (simp add: demo_request_fields sp demo_session_fields)
  from a b show ?thesis by simp
qed

lemma demo_approve_fault:
  "post_approve (Some 1) ''admin1'' ''cr1'' demo_db_pending = (InternalError, demo_db_pending)"
  by (simp add: post_approve_def demo_approve_lookups demo_request_fields demo_session_fields
        transaction_def approve_callback_def changeRequest_update_def)

lemma demo_approve_ok: "fst (post_approve None ''admin1'' ''cr1'' demo_db_pending) = Ok"
  by (simp add: post_approve_def demo_approve_lookups demo_request_fields demo_session_fields
        transaction_def approve_callback_def changeRequest_update_def session_update_def
        auditLog_create_def Let_def)

text \<open>
  When the session update of the transaction fails, the store is as before; when nothing
  fails, request and session have both changed.
\<close>

theorem approve_atomic_witness:
  "snd (post_approve (Some 1) ''admin1'' ''cr1'' demo_db_pending) = demo_db_pending
   \<and> find (\<lambda>c. cr_id c = ''cr1'')
        (changeRequests (snd (post_approve None ''admin1'' ''cr1'' demo_db_pending)))
       = Some (demo_pending\<lparr>crStatus := APPROVED, decidedByAdminId := Some ''admin1''\<rparr>)
   \<and> find (\<lambda>s. sid s = ''sess1'')
        (sessions (snd (post_approve None ''admin1'' ''cr1'' demo_db_pending)))
       = Some (demo_session\<lparr>status := CANCELLED\<rparr>)"
proof -
  have e: "fst (post_approve (Some 1) ''admin1'' ''cr1'' demo_db_pending) \<noteq> Ok"
    unfolding demo_approve_fault by simp
  from approve_atomic [THEN conjunct1, of "Some 1" "''admin1''" "''cr1''" demo_db_pending] e
  have a: "snd (post_approve (Some 1) ''admin1'' ''cr1'' demo_db_pending) = demo_db_pending"
    by blast
  from approve_atomic [THEN conjunct1, of None "''admin1''" "''cr1''" demo_db_pending]
       demo_approve_ok
  have b: "find (\<lambda>c. cr_id c = ''cr1'')
        (changeRequests (snd (post_approve None ''admin1'' ''cr1'' demo_db_pending)))
       = Some (demo_pending\<lparr>crStatus := APPROVED, decidedByAdminId := Some ''admin1''\<rparr>)
   \<and> find (\<lambda>s. sid s = ''sess1'')
        (sessions (snd (post_approve None ''admin1'' ''cr1'' demo_db_pending)))
       = Some (demo_session\<lparr>status := CANCELLED\<rparr>)"
    by (auto simp: demo_approve_lookups demo_request_fields)
  from a b show ?thesis by simp
qed

section \<open>Properties of the zone conversion\<close>

lemma gap_guess:
  "Date_UTC (l_year gap_local) (l_month gap_local - 1) (l_day gap_local)
     (nullish (l_hour gap_local) 0) (nullish (l_minute gap_local) 0)
     (nullish (l_second gap_local) 0) (nullish (l_millisecond gap_local) 0) = 1901151000000"
  by code_simp

lemma gap_offset1: "getTimeZoneOffsetMs london_2030 1901151000000 ''Europe/London'' = 3600000"
  by code_simp

lemma gap_offset2: "getTimeZoneOffsetMs london_2030 1901147400000 ''Europe/London'' = 0"
  by code_simp

lemma summer_guess:
  "Date_UTC (l_year summer_local) (l_month summer_local - 1) (l_day summer_local)
     (nullish (l_hour summer_local) 0) (nullish (l_minute summer_local) 0)
     (nullish (l_second summer_local) 0) (nullish (l_millisecond summer_local) 0) = 1909094400000"
  by code_simp

lemma summer_offset1: "getTimeZoneOffsetMs london_2030 1909094400000 ''Europe/London'' = 3600000"
  by code_simp

lemma summer_offset2: "getTimeZoneOffsetMs london_2030 1909090800000 ''Europe/London'' = 3600000"
  by code_simp

text \<open>
  Claim C8, as stated, fails where the offset is unstable. For 01:30 on 2030-03-31 in
  London the guess is 01:30Z, the offset read there is one hour, the corrected instant is
  00:30Z, and the offset read at 00:30Z is zero. The function does not return the corrected
  instant 00:30Z: it returns the guess minus the second offset, 01:30Z.
\<close>

theorem zonedTimeToUtc_gap_counterexample:
  "getTimeZoneOffsetMs london_2030 1901151000000 ''Europe/London'' = 3600000
   \<and> getTimeZoneOffsetMs london_2030 (1901151000000 - 3600000) ''Europe/London'' = 0
   \<and> zonedTimeToUtc london_2030 gap_local ''Europe/London'' = 1901151000000
   \<and> zonedTimeToUtc london_2030 gap_local ''Europe/London'' \<noteq> 1901151000000 - 3600000"
  by (simp add: zonedTimeToUtc_def gap_guess gap_offset1 gap_offset2 Let_def)

text \<open>
  Claim C8, amended. For every wall-clock tuple and every zone, \<open>zonedTimeToUtc\<close> computes
  the UTC guess from the tuple, reads the offset at the guess, reads the offset again at the
  corrected instant (guess minus first offset), and returns the guess minus the second
  offset, without a further check. When the two offsets agree this is the corrected
  instant; when they differ it is a second correction, not the corrected instant.
\<close>

theorem zonedTimeToUtc_second_offset:
  "zonedTimeToUtc formatToParts local timeZone =
     (let utcGuess = Date_UTC (l_year local) (l_month local - 1) (l_day local)
                       (nullish (l_hour local) 0) (nullish (l_minute local) 0)
                       (nullish (l_second local) 0) (nullish (l_millisecond local) 0);
          offset1 = getTimeZoneOffsetMs formatToParts utcGuess timeZone;
          offset2 = getTimeZoneOffsetMs formatToParts (utcGuess - offset1) timeZone
      in utcGuess - offset2)
   \<and> (let utcGuess = Date_UTC (l_year local) (l_month local - 1) (l_day local)
                       (nullish (l_hour local) 0) (nullish (l_minute local) 0)
                       (nullish (l_second local) 0) (nullish (l_millisecond local) 0);
          offset1 = getTimeZoneOffsetMs formatToParts utcGuess timeZone;
          offset2 = getTimeZoneOffsetMs formatToParts (utcGuess - offset1) timeZone
      in (offset2 = offset1 \<longrightarrow> zonedTimeToUtc formatToParts local timeZone = utcGuess - offset1)
       \<and> (offset2 \<noteq> offset1 \<longrightarrow> zonedTimeToUtc formatToParts local timeZone = utcGuess - offset2
             \<and> zonedTimeToUtc formatToParts local timeZone \<noteq> utcGuess - offset1))"
  by (simp add: zonedTimeToUtc_def Let_def)

text \<open>Midnight on 2030-07-01 in London is 23:00Z on 2030-06-30; both offsets are one hour.\<close>

theorem zonedTimeToUtc_second_offset_witness:
  "zonedTimeToUtc london_2030 summer_local ''Europe/London'' = 1909090800000"
  using zonedTimeToUtc_second_offset [of london_2030 summer_local "''Europe/London''"]
  by (simp add: Let_def summer_guess summer_offset1 summer_offset2)

section \<open>Properties of the completion job\<close>

lemma find_sid_unique:
  assumes "distinct (map sid xs)" and "find (\<lambda>s. sid s = i) xs = Some c"
    and "s \<in> set xs" and "sid s = i"
  shows "s = c"
proof -
  have "c \<in> set xs" "sid c = i" using assms(2) by (auto simp: find_Some_iff)
  with assms(1,3,4) show ?thesis by (metis distinct_map inj_onD)
qed

lemma find_sid_member:
  assumes "distinct (map sid xs)" and "s \<in> set xs"
  shows "find (\<lambda>x. sid x = sid s) xs = Some s"
proof (cases "find (\<lambda>x. sid x = sid s) xs")
  case None
  then show ?thesis using assms(2) by (auto simp: find_None_iff)
next
  case (Some c)
  then show ?thesis using find_sid_unique [OF assms(1) Some assms(2)] by simp
qed

text \<open>The sessions after one unit of work.\<close>

lemma complete_one_sessions:
  assumes "distinct (map sid (sessions db))"
  shows "sessions (complete_one now i db) =
           map (\<lambda>s. if sid s = i \<and> status s = SCHEDULED \<and> endAtUtc s \<le> now
                     then s\<lparr>status := COMPLETED\<rparr> else s) (sessions db)"
proof (cases "find (\<lambda>s. sid s = i) (sessions db)")
  case None
  then have "\<forall>s \<in> set (sessions db). sid s \<noteq> i" by (auto simp: find_None_iff)
  then have "map (\<lambda>s. if sid s = i \<and> status s = SCHEDULED \<and> endAtUtc s \<le> now
                     then s\<lparr>status := COMPLETED\<rparr> else s) (sessions db) = sessions db"
    by (intro map_idI) auto
  with None show ?thesis by (simp add: complete_one_def)
next
  case (Some c)
  have ci: "sid c = i" using Some by (auto simp: find_Some_iff)
  have u: "\<And>s. s \<in> set (sessions db) \<Longrightarrow> sid s = i \<Longrightarrow> s = c"
    using find_sid_unique [OF assms Some] by blast
  show ?thesis
  proof (cases "endAtUtc c > now \<or> status c = CANCELLED")
    case True
    have "map (\<lambda>s. if sid s = i \<and> status s = SCHEDULED \<and> endAtUtc s \<le> now
                     then s\<lparr>status := COMPLETED\<rparr> else s) (sessions db) = sessions db"
    proof (intro map_idI)
      fix s assume m: "s \<in> set (sessions db)"
      show "(if sid s = i \<and> status s = SCHEDULED \<and> endAtUtc s \<le> now
             then s\<lparr>status := COMPLETED\<rparr> else s) = s"
      proof (cases "sid s = i")
        case True
        then have "s = c" using u m by blast
        then show ?thesis using \<open>endAtUtc c > now \<or> status c = CANCELLED\<close> by auto
      next
        case False
        then show ?thesis by simp
      qed
    qed
    with True Some show ?thesis by (auto simp: complete_one_def)
  next
    case False
    have "map (\<lambda>s. if sid s = i \<and> status s = SCHEDULED \<and> endAtUtc s \<le> now
                     then s\<lparr>status := COMPLETED\<rparr> else s) (sessions db)
          = map (\<lambda>s. if sid s = sid c \<and> status s = SCHEDULED
                      then s\<lparr>status := COMPLETED\<rparr> else s) (sessions db)"
    proof (intro map_cong refl)
      fix s assume m: "s \<in> set (sessions db)"
      show "(if sid s = i \<and> status s = SCHEDULED \<and> endAtUtc s \<le> now
             then s\<lparr>status := COMPLETED\<rparr> else s)
          = (if sid s = sid c \<and> status s = SCHEDULED then s\<lparr>status := COMPLETED\<rparr> else s)"
      proof (cases "sid s = i")
        case True
        then have "s = c" using u m by blast
        then show ?thesis using False ci by auto
      next
        case False
        then show ?thesis using ci by simp
      qed
    qed
    with False Some show ?thesis
      by (auto simp: complete_one_def Let_def split: option.splits)
  qed
qed

lemma complete_one_sids: "map sid (sessions (complete_one now i db)) = map sid (sessions db)"
  by (auto simp: complete_one_def Let_def comp_def split: option.splits intro!: map_cong)

text \<open>The ledger after one unit of work.\<close>

lemma complete_one_ledger:
  "ledger (complete_one now i db) =
     (case find (\<lambda>s. sid s = i) (sessions db) of
        None \<Rightarrow> ledger db
      | Some c \<Rightarrow>
          if endAtUtc c \<le> now \<and> status c \<noteq> CANCELLED
             \<and> find (\<lambda>e. le_sessionId e = Some i) (ledger db) = None
          then ledger db @ [\<lparr>le_studentId = studentId c, le_teacherId = Some (teacherId c),
                              deltaUnits = - consumesUnits c, reason = SESSION_CONSUME,
                              le_sessionId = Some i\<rparr>]
          else ledger db)"
proof (cases "find (\<lambda>s. sid s = i) (sessions db)")
  case None
  then show ?thesis by (simp add: complete_one_def)
next
  case (Some c)
  have ci: "sid c = i" using Some by (auto simp: find_Some_iff)
  show ?thesis using Some
    by (auto simp: complete_one_def Let_def ci split: option.splits)
qed

lemma complete_one_frame:
  "users (complete_one now i db) = users db" "rates (complete_one now i db) = rates db"
  "changeRequests (complete_one now i db) = changeRequests db"
  "auditLogs (complete_one now i db) = auditLogs db"
  by (auto simp: complete_one_def Let_def split: option.splits)


text \<open>The sessions after the loop over a list of selected sessions.\<close>

lemma loop_sessions:
  assumes "distinct (map sid (sessions db))"
  shows "sessions (fold (\<lambda>session. complete_one now (sid session)) xs db) =
           map (\<lambda>s. if sid s \<in> sid ` set xs \<and> status s = SCHEDULED \<and> endAtUtc s \<le> now
                     then s\<lparr>status := COMPLETED\<rparr> else s) (sessions db)"
  using assms
proof (induction xs arbitrary: db)
  case Nil
  then show ?case by (simp add: map_idI)
next
  case (Cons x xs)
  let ?db1 = "complete_one now (sid x) db"
  have d1: "distinct (map sid (sessions ?db1))"
    using Cons.prems by (simp add: complete_one_sids)
  show ?case
    unfolding fold_simps Cons.IH [OF d1] complete_one_sessions [OF Cons.prems] map_map
    by (intro map_cong refl) auto
qed

lemma loop_frame:
  "users (fold (\<lambda>session. complete_one now (sid session)) xs db) = users db
   \<and> rates (fold (\<lambda>session. complete_one now (sid session)) xs db) = rates db
   \<and> changeRequests (fold (\<lambda>session. complete_one now (sid session)) xs db) = changeRequests db
   \<and> auditLogs (fold (\<lambda>session. complete_one now (sid session)) xs db) = auditLogs db"
  by (induction xs arbitrary: db) (simp_all add: complete_one_frame)

text \<open>The ledger after the loop: one new entry for each selected session without one.\<close>

lemma ledger_step:
  assumes "distinct (map sid (sessions db))" and "x \<in> set (sessions db)"
    and "status x = SCHEDULED" and "endAtUtc x \<le> now"
  shows "ledger (complete_one now (sid x) db) =
      (if find (\<lambda>e. le_sessionId e = Some (sid x)) (ledger db) = None
       then ledger db @ [\<lparr>le_studentId = studentId x, le_teacherId = Some (teacherId x),
                      deltaUnits = - consumesUnits x, reason = SESSION_CONSUME,
                      le_sessionId = Some (sid x)\<rparr>] else ledger db)"
proof -
  have fx: "find (\<lambda>s. sid s = sid x) (sessions db) = Some x"
    by (rule find_sid_member [OF assms(1,2)])
  show ?thesis using assms(3,4) by (simp add: complete_one_ledger fx)
qed

lemma member_step:
  assumes "distinct (map sid (sessions db))" and "s \<in> set (sessions db)" and "sid s \<noteq> sid x"
  shows "s \<in> set (sessions (complete_one now (sid x) db))"
proof -
  have "(if sid s = sid x \<and> status s = SCHEDULED \<and> endAtUtc s \<le> now
         then s\<lparr>status := COMPLETED\<rparr> else s) = s" using assms(3) by simp
  then show ?thesis
    using assms(2) unfolding complete_one_sessions [OF assms(1)] by force
qed

lemma noentry_step:
  assumes "distinct (map sid (sessions db))" and "x \<in> set (sessions db)"
    and "status x = SCHEDULED" and "endAtUtc x \<le> now" and "sid s \<noteq> sid x"
  shows "(find (\<lambda>e. le_sessionId e = Some (sid s)) (ledger (complete_one now (sid x) db)) = None)
       = (find (\<lambda>e. le_sessionId e = Some (sid s)) (ledger db) = None)"
proof (cases "find (\<lambda>e. le_sessionId e = Some (sid x)) (ledger db) = None")
  case True
  let ?e = "\<lparr>le_studentId = studentId x, le_teacherId = Some (teacherId x),
                      deltaUnits = - consumesUnits x, reason = SESSION_CONSUME,
                      le_sessionId = Some (sid x)\<rparr>"
  have "ledger (complete_one now (sid x) db) = ledger db @ [?e]"
    using True by (simp add: ledger_step [OF assms(1-4)])
  then have "set (ledger (complete_one now (sid x) db)) = insert ?e (set (ledger db))" by simp
  moreover have "le_sessionId ?e \<noteq> Some (sid s)" using assms(5) by simp
  ultimately show ?thesis by (auto simp: find_None_iff)
next
  case False
  then have "ledger (complete_one now (sid x) db) = ledger db"
    by (simp add: ledger_step [OF assms(1-4)])
  then show ?thesis by simp
qed

lemma loop_ledger:
  assumes "distinct (map sid (sessions db))" and "set xs \<subseteq> set (sessions db)"
    and "\<forall>s \<in> set xs. status s = SCHEDULED \<and> endAtUtc s \<le> now"
    and "distinct (map sid xs)"
  shows "ledger (fold (\<lambda>session. complete_one now (sid session)) xs db) =
           ledger db @
           map (\<lambda>s. \<lparr>le_studentId = studentId s, le_teacherId = Some (teacherId s),
                      deltaUnits = - consumesUnits s, reason = SESSION_CONSUME,
                      le_sessionId = Some (sid s)\<rparr>)
             (filter (\<lambda>s. find (\<lambda>e. le_sessionId e = Some (sid s)) (ledger db) = None) xs)"
  using assms
proof (induction xs arbitrary: db)
  case Nil
  then show ?case by simp
next
  case (Cons x xs)
  let ?db1 = "complete_one now (sid x) db"
  have xin: "x \<in> set (sessions db)" and xe: "status x = SCHEDULED" "endAtUtc x \<le> now"
    using Cons.prems(2,3) by auto
  note l1 = ledger_step [OF Cons.prems(1) xin xe]
  have d1: "distinct (map sid (sessions ?db1))"
    using Cons.prems(1) by (simp add: complete_one_sids)
  have nx: "sid x \<notin> sid ` set xs" using Cons.prems(4) by simp
  have ne: "\<And>s. s \<in> set xs \<Longrightarrow> sid s \<noteq> sid x"
  proof
    fix s assume "s \<in> set xs" and "sid s = sid x"
    then have "sid x \<in> sid ` set xs" by (metis imageI)
    with nx show False by simp
  qed
  have s1: "set xs \<subseteq> set (sessions ?db1)"
  proof
    fix s assume m: "s \<in> set xs"
    then have "s \<in> set (sessions db)" using Cons.prems(2) by auto
    then show "s \<in> set (sessions ?db1)"
      by (rule member_step [OF Cons.prems(1) _ ne [OF m]])
  qed
  have e1: "\<forall>s \<in> set xs. status s = SCHEDULED \<and> endAtUtc s \<le> now" using Cons.prems(3) by simp
  have dx: "distinct (map sid xs)" using Cons.prems(4) by simp
  have same: "filter (\<lambda>s. find (\<lambda>e. le_sessionId e = Some (sid s)) (ledger ?db1) = None) xs
            = filter (\<lambda>s. find (\<lambda>e. le_sessionId e = Some (sid s)) (ledger db) = None) xs"
  proof (rule filter_cong [OF refl])
    fix s assume "s \<in> set xs"
    then have "sid s \<noteq> sid x" by (rule ne)
    then show "(find (\<lambda>e. le_sessionId e = Some (sid s)) (ledger ?db1) = None)
             = (find (\<lambda>e. le_sessionId e = Some (sid s)) (ledger db) = None)"
      by (rule noentry_step [OF Cons.prems(1) xin xe])
  qed
  have ih: "ledger (fold (\<lambda>session. complete_one now (sid session)) xs ?db1) =
           ledger ?db1 @
           map (\<lambda>s. \<lparr>le_studentId = studentId s, le_teacherId = Some (teacherId s),
                      deltaUnits = - consumesUnits s, reason = SESSION_CONSUME,
                      le_sessionId = Some (sid s)\<rparr>)
             (filter (\<lambda>s. find (\<lambda>e. le_sessionId e = Some (sid s)) (ledger db) = None) xs)"
    using Cons.IH [OF d1 s1 e1 dx] unfolding same .
  show ?case
    unfolding fold_simps ih by (simp add: l1)
qed

lemma filter_sid_single:
  assumes "distinct (map sid ys)" and "s \<in> set ys"
  shows "filter (\<lambda>t. sid t = sid s) ys = [s]"
  using assms
proof (induction ys)
  case Nil
  then show ?case by simp
next
  case (Cons y ys)
  have ny: "sid y \<notin> sid ` set ys" and dy: "distinct (map sid ys)"
    using Cons.prems(1) by simp_all
  show ?case
  proof (cases "y = s")
    case True
    have "\<And>t. t \<in> set ys \<Longrightarrow> sid t \<noteq> sid s"
    proof
      fix t assume "t \<in> set ys" and "sid t = sid s"
      then have "sid y \<in> sid ` set ys" using True by (metis imageI)
      with ny show False by simp
    qed
    then have "filter (\<lambda>t. sid t = sid s) ys = []"
      by (simp add: filter_empty_conv)
    with True show ?thesis by simp
  next
    case False
    then have m: "s \<in> set ys" using Cons.prems(2) by simp
    have "sid y \<noteq> sid s"
    proof
      assume "sid y = sid s"
      then have "sid y \<in> sid ` set ys" using m by (metis imageI)
      with ny show False by simp
    qed
    then show ?thesis using Cons.IH [OF dy m] by simp
  qed
qed

text \<open>The selection: a part of the backlog, without repeated ids, oldest ends first.\<close>

lemma filter_find_None: "(find P xs = None) = (filter P xs = [])"
  by (auto simp: find_None_iff filter_empty_conv)

lemma job_result:
  "completeEndedSessions clock options db =
     (length (findMany_ended (nullish (o_now options) clock)
                (nullish (o_batchSize options) 100) db),
      fold (\<lambda>session. complete_one (nullish (o_now options) clock) (sid session))
        (findMany_ended (nullish (o_now options) clock) (nullish (o_batchSize options) 100) db)
        db)"
  by (simp add: completeEndedSessions_def Let_def)

lemma selection:
  assumes "distinct (map sid (sessions db))"
  shows "set (findMany_ended now bs db)
           \<subseteq> {s \<in> set (sessions db). status s = SCHEDULED \<and> endAtUtc s \<le> now}"
    and "distinct (map sid (findMany_ended now bs db))"
    and "length (findMany_ended now bs db)
           = min bs (length (filter (\<lambda>s. status s = SCHEDULED \<and> endAtUtc s \<le> now) (sessions db)))"
proof -
  let ?E = "filter (\<lambda>s. status s = SCHEDULED \<and> endAtUtc s \<le> now) (sessions db)"
  have "set (take bs (sort_key endAtUtc ?E)) \<subseteq> set (sort_key endAtUtc ?E)"
    by (rule set_take_subset)
  then show "set (findMany_ended now bs db)
           \<subseteq> {s \<in> set (sessions db). status s = SCHEDULED \<and> endAtUtc s \<le> now}"
    unfolding findMany_ended_def by auto
  have "distinct (map sid ?E)" using assms by (rule distinct_map_filter)
  moreover have "distinct (map sid (sort_key endAtUtc ?E)) = distinct (map sid ?E)"
    by (rule mset_eq_imp_distinct_iff) simp
  ultimately have "distinct (map sid (sort_key endAtUtc ?E))" by simp
  then have "distinct (take bs (map sid (sort_key endAtUtc ?E)))" by (rule distinct_take)
  then show "distinct (map sid (findMany_ended now bs db))"
    unfolding findMany_ended_def by (simp only: take_map)
  show "length (findMany_ended now bs db) = min bs (length ?E)"
    unfolding findMany_ended_def by (simp add: min.commute)
qed

lemma selection_all:
  assumes "length (filter (\<lambda>s. status s = SCHEDULED \<and> endAtUtc s \<le> now) (sessions db)) \<le> bs"
  shows "set (findMany_ended now bs db)
          = {s \<in> set (sessions db). status s = SCHEDULED \<and> endAtUtc s \<le> now}"
proof -
  let ?E = "filter (\<lambda>s. status s = SCHEDULED \<and> endAtUtc s \<le> now) (sessions db)"
  have t: "take bs (sort_key endAtUtc ?E) = sort_key endAtUtc ?E"
    using assms by simp
  show ?thesis unfolding findMany_ended_def t by auto
qed

lemma selection_oldest:
  assumes "s \<in> set (findMany_ended now bs db)"
    and "t \<in> set (sessions db)" and "status t = SCHEDULED" and "endAtUtc t \<le> now"
    and "t \<notin> set (findMany_ended now bs db)"
  shows "endAtUtc s \<le> endAtUtc t"
proof -
  let ?S = "sort_key endAtUtc
              (filter (\<lambda>s. status s = SCHEDULED \<and> endAtUtc s \<le> now) (sessions db))"
  have "t \<in> set ?S" using assms(2-4) by simp
  then have "t \<in> set (take bs ?S @ drop bs ?S)" by (simp only: append_take_drop_id)
  then have "t \<in> set (take bs ?S) \<or> t \<in> set (drop bs ?S)" by (simp only: set_append Un_iff)
  moreover have "t \<notin> set (take bs ?S)" using assms(5) unfolding findMany_ended_def .
  ultimately have td: "t \<in> set (drop bs ?S)" by blast
  have "sorted (map endAtUtc ?S)" by (rule sorted_sort_key)
  then have "sorted (map endAtUtc (take bs ?S) @ map endAtUtc (drop bs ?S))"
    by (simp only: map_append [symmetric] append_take_drop_id)
  then have "\<forall>x \<in> set (map endAtUtc (take bs ?S)). \<forall>y \<in> set (map endAtUtc (drop bs ?S)). x \<le> y"
    by (simp only: sorted_append) simp
  moreover have "endAtUtc s \<in> set (map endAtUtc (take bs ?S))"
    using assms(1) unfolding findMany_ended_def by simp
  moreover have "endAtUtc t \<in> set (map endAtUtc (drop bs ?S))" using td by simp
  ultimately show ?thesis by blast
qed

text \<open>The sessions after the loop, by membership in the selection.\<close>

lemma selected_member:
  assumes "distinct (map sid xs)" and "set sel \<subseteq> set xs" and "s \<in> set xs"
  shows "(sid s \<in> sid ` set sel) = (s \<in> set sel)"
proof
  assume "sid s \<in> sid ` set sel"
  then obtain t where t: "t \<in> set sel" and st: "sid s = sid t" by (rule imageE)
  have "t \<in> set xs" using t assms(2) by (rule subsetD [rotated])
  moreover have "inj_on sid (set xs)" using assms(1) by (simp add: distinct_map)
  ultimately have "s = t" using assms(3) st by (simp add: inj_on_def)
  with t show "s \<in> set sel" by simp
next
  assume "s \<in> set sel"
  then show "sid s \<in> sid ` set sel" by (rule imageI)
qed

lemma job_sessions:
  assumes d: "distinct (map sid (sessions db))"
    and sub: "set sel \<subseteq> {s \<in> set (sessions db). status s = SCHEDULED \<and> endAtUtc s \<le> now}"
  shows "sessions (fold (\<lambda>session. complete_one now (sid session)) sel db)
           = map (\<lambda>s. if s \<in> set sel then s\<lparr>status := COMPLETED\<rparr> else s) (sessions db)"
  unfolding loop_sessions [OF d]
proof (rule map_cong [OF refl])
  fix s assume m: "s \<in> set (sessions db)"
  have ss: "set sel \<subseteq> set (sessions db)" using sub by blast
  have e: "(sid s \<in> sid ` set sel) = (s \<in> set sel)"
    by (rule selected_member [OF d ss m])
  show "(if sid s \<in> sid ` set sel \<and> status s = SCHEDULED \<and> endAtUtc s \<le> now
         then s\<lparr>status := COMPLETED\<rparr> else s)
      = (if s \<in> set sel then s\<lparr>status := COMPLETED\<rparr> else s)"
  proof (cases "s \<in> set sel")
    case True
    then have "status s = SCHEDULED \<and> endAtUtc s \<le> now" using sub by blast
    then show ?thesis using True by (simp only: e) simp
  next
    case False
    then show ?thesis by (simp only: e) simp
  qed
qed

text \<open>The unique index of the ledger survives the loop.\<close>

lemma filter_sid_le1:
  assumes "distinct (map sid xs)"
  shows "length (filter (\<lambda>t. sid t = j) xs) \<le> 1"
proof (cases "\<exists>s \<in> set xs. sid s = j")
  case True
  then obtain s where m: "s \<in> set xs" and j: "sid s = j" by blast
  have "filter (\<lambda>t. sid t = sid s) xs = [s]" by (rule filter_sid_single [OF assms m])
  then show ?thesis by (simp add: j)
next
  case False
  then have "filter (\<lambda>t. sid t = j) xs = []" by (simp add: filter_empty_conv)
  then show ?thesis by simp
qed

lemma ledger_index_kept:
  assumes u: "length (filter (\<lambda>e. le_sessionId e = Some j) L) \<le> 1"
    and ds: "distinct (map sid sel)"
  shows "length (filter (\<lambda>e. le_sessionId e = Some j)
           (L @ map (\<lambda>s. \<lparr>le_studentId = studentId s, le_teacherId = Some (teacherId s),
                      deltaUnits = - consumesUnits s, reason = SESSION_CONSUME,
                      le_sessionId = Some (sid s)\<rparr>)
                  (filter (\<lambda>s. find (\<lambda>e. le_sessionId e = Some (sid s)) L = None) sel))) \<le> 1"
proof -
  let ?consume = "\<lambda>s. \<lparr>le_studentId = studentId s, le_teacherId = Some (teacherId s),
                      deltaUnits = - consumesUnits s, reason = SESSION_CONSUME,
                      le_sessionId = Some (sid s)\<rparr>"
  let ?P = "\<lambda>e. le_sessionId e = Some j"
  let ?N = "\<lambda>s. find (\<lambda>e. le_sessionId e = Some (sid s)) L = None"
  have "filter ?P (map ?consume (filter ?N sel))
          = map ?consume (filter (\<lambda>t. sid t = j) (filter ?N sel))"
    by (simp add: filter_map comp_def)
  also have "filter (\<lambda>t. sid t = j) (filter ?N sel)
          = filter (\<lambda>t. sid t = j \<and> filter ?P L = []) sel"
    unfolding filter_filter
    by (rule filter_cong [OF refl]) (auto simp: filter_find_None)
  finally have new: "filter ?P (map ?consume (filter ?N sel))
          = map ?consume (filter (\<lambda>t. sid t = j \<and> filter ?P L = []) sel)" .
  show ?thesis
  proof (cases "filter ?P L = []")
    case True
    have "filter (\<lambda>t. sid t = j \<and> filter ?P L = []) sel = filter (\<lambda>t. sid t = j) sel"
      by (rule filter_cong [OF refl]) (simp add: True)
    then have "length (filter ?P (map ?consume (filter ?N sel))) \<le> 1"
      unfolding new using filter_sid_le1 [OF ds, of j] by simp
    then show ?thesis unfolding filter_append using True by simp
  next
    case False
    have "filter (\<lambda>t. sid t = j \<and> filter ?P L = []) sel = []"
      using False by (simp add: filter_empty_conv)
    then have "filter ?P (map ?consume (filter ?N sel)) = []" unfolding new by simp
    then show ?thesis unfolding filter_append using u by simp
  qed
qed

text \<open>The backlog after the loop.\<close>

lemma backlog_after:
  fixes xs :: "Session list"
  assumes d: "distinct (map sid xs)"
    and sub: "set sel \<subseteq> {s \<in> set xs. status s = SCHEDULED \<and> endAtUtc s \<le> now}"
    and ds: "distinct (map sid sel)"
  shows "length (filter (\<lambda>s. status s = SCHEDULED \<and> endAtUtc s \<le> now)
           (map (\<lambda>s. if s \<in> set sel then s\<lparr>status := COMPLETED\<rparr> else s) xs))
       = length (filter (\<lambda>s. status s = SCHEDULED \<and> endAtUtc s \<le> now) xs) - length sel"
proof -
  let ?el = "\<lambda>s::Session. status s = SCHEDULED \<and> endAtUtc s \<le> now"
  let ?G = "\<lambda>s::Session. if s \<in> set sel then s\<lparr>status := COMPLETED\<rparr> else s"
  let ?E = "filter ?el xs"
  have a: "length (filter ?el (map ?G xs)) = length (filter (\<lambda>s. ?el (?G s)) xs)"
    by (simp add: filter_map comp_def)
  have "filter (\<lambda>s. ?el (?G s)) xs = filter (\<lambda>s. ?el s \<and> s \<notin> set sel) xs"
    by (rule filter_cong [OF refl]) auto
  also have "\<dots> = filter (\<lambda>s. s \<notin> set sel) ?E"
    by (simp add: conj_commute)
  finally have b: "filter (\<lambda>s. ?el (?G s)) xs = filter (\<lambda>s. s \<notin> set sel) ?E" .
  have dE: "distinct ?E"
  proof -
    have "distinct (map sid ?E)" using d by (rule distinct_map_filter)
    then show ?thesis by (simp add: distinct_map)
  qed
  have "length (filter (\<lambda>s. s \<in> set sel) ?E) = card ({s. s \<in> set sel} \<inter> set ?E)"
    by (rule distinct_length_filter [OF dE])
  also have "{s. s \<in> set sel} \<inter> set ?E = set sel" using sub by auto
  also have "card (set sel) = length sel"
  proof (rule distinct_card)
    show "distinct sel" using ds by (simp add: distinct_map)
  qed
  finally have c: "length (filter (\<lambda>s. s \<in> set sel) ?E) = length sel" .
  have "length (filter (\<lambda>s. s \<in> set sel) ?E) + length (filter (\<lambda>s. s \<notin> set sel) ?E) = length ?E"
    by (rule sum_length_filter_compl)
  then have "length (filter (\<lambda>s. s \<notin> set sel) ?E) = length ?E - length sel"
    unfolding c by simp
  then show ?thesis unfolding a b .
qed

text \<open>One run, and any sequence of runs, keep the ids unique and the index of the ledger.\<close>

lemma complete_loop_sids:
  "map sid (sessions (fold (\<lambda>session. complete_one now (sid session)) xs db))
     = map sid (sessions db)"
  by (induction xs arbitrary: db) (simp_all add: complete_one_sids)

lemma job_ledger:
  assumes d: "distinct (map sid (sessions db))"
  shows "ledger (snd (completeEndedSessions clock options db))
     = ledger db @
       map (\<lambda>s. \<lparr>le_studentId = studentId s, le_teacherId = Some (teacherId s),
                  deltaUnits = - consumesUnits s, reason = SESSION_CONSUME,
                  le_sessionId = Some (sid s)\<rparr>)
         (filter (\<lambda>s. find (\<lambda>e. le_sessionId e = Some (sid s)) (ledger db) = None)
            (findMany_ended (nullish (o_now options) clock)
               (nullish (o_batchSize options) 100) db))"
proof -
  let ?now = "nullish (o_now options) clock"
  let ?sel = "findMany_ended ?now (nullish (o_batchSize options) 100) db"
  have sub: "set ?sel \<subseteq> set (sessions db)"
    and el: "\<forall>s \<in> set ?sel. status s = SCHEDULED \<and> endAtUtc s \<le> ?now"
    using selection(1) [OF d, of ?now "nullish (o_batchSize options) 100"] by blast+
  show ?thesis
    unfolding job_result snd_conv
    by (rule loop_ledger [OF d sub el selection(2) [OF d]])
qed

lemma run_invariant:
  assumes d: "distinct (map sid (sessions db))"
    and u: "\<forall>j. length (filter (\<lambda>e. le_sessionId e = Some j) (ledger db)) \<le> 1"
  shows "distinct (map sid (sessions (snd (completeEndedSessions clock options db))))
       \<and> (\<forall>j. length (filter (\<lambda>e. le_sessionId e = Some j)
                 (ledger (snd (completeEndedSessions clock options db)))) \<le> 1)"
proof (intro conjI allI)
  show "distinct (map sid (sessions (snd (completeEndedSessions clock options db))))"
    unfolding job_result snd_conv complete_loop_sids by (rule d)
next
  fix j
  have uj: "length (filter (\<lambda>e. le_sessionId e = Some j) (ledger db)) \<le> 1" using u by blast
  show "length (filter (\<lambda>e. le_sessionId e = Some j)
                 (ledger (snd (completeEndedSessions clock options db)))) \<le> 1"
    unfolding job_ledger [OF d]
    by (rule ledger_index_kept [OF uj selection(2) [OF d]])
qed

lemma runs_invariant:
  assumes d: "distinct (map sid (sessions db))"
    and u: "\<forall>j. length (filter (\<lambda>e. le_sessionId e = Some j) (ledger db)) \<le> 1"
  shows "distinct (map sid (sessions
            (fold (\<lambda>run x. snd (completeEndedSessions (fst run) (snd run) x)) runs db)))
       \<and> (\<forall>j. length (filter (\<lambda>e. le_sessionId e = Some j)
                 (ledger (fold (\<lambda>run x. snd (completeEndedSessions (fst run) (snd run) x))
                            runs db))) \<le> 1)"
  using d u
proof (induction runs arbitrary: db)
  case Nil
  then show ?case by simp
next
  case (Cons run runs)
  note i = run_invariant [OF Cons.prems, of "fst run" "snd run"]
  show ?case
    unfolding fold_simps by (rule Cons.IH [OF conjunct1 [OF i] conjunct2 [OF i]])
qed

text \<open>A selected session after the run.\<close>

lemma selected_after:
  assumes d: "distinct (map sid (sessions db))"
    and u: "\<forall>j. length (filter (\<lambda>e. le_sessionId e = Some j) (ledger db)) \<le> 1"
    and ms: "s \<in> set (findMany_ended (nullish (o_now options) clock)
                          (nullish (o_batchSize options) 100) db)"
  shows "find (\<lambda>x. sid x = sid s) (sessions (snd (completeEndedSessions clock options db)))
           = Some (s\<lparr>status := COMPLETED\<rparr>)
       \<and> length (filter (\<lambda>e. le_sessionId e = Some (sid s))
                  (ledger (snd (completeEndedSessions clock options db)))) = 1
       \<and> (filter (\<lambda>e. le_sessionId e = Some (sid s)) (ledger db) = [] \<longrightarrow>
            filter (\<lambda>e. le_sessionId e = Some (sid s))
                   (ledger (snd (completeEndedSessions clock options db)))
              = [\<lparr>le_studentId = studentId s, le_teacherId = Some (teacherId s),
                  deltaUnits = - consumesUnits s, reason = SESSION_CONSUME,
                  le_sessionId = Some (sid s)\<rparr>])"
proof -
  define now where "now = nullish (o_now options) clock"
  define sel where "sel = findMany_ended now (nullish (o_batchSize options) 100) db"
  define db' where "db' = snd (completeEndedSessions clock options db)"
  define G where "G = (\<lambda>s::Session. if s \<in> set sel then s\<lparr>status := COMPLETED\<rparr> else s)"
  define consume where "consume = (\<lambda>s::Session. \<lparr>le_studentId = studentId s,
                      le_teacherId = Some (teacherId s),
                      deltaUnits = - consumesUnits s, reason = SESSION_CONSUME,
                      le_sessionId = Some (sid s)\<rparr>)"
  have ms': "s \<in> set sel" using ms by (simp add: sel_def now_def)
  have sub: "set sel \<subseteq> {s \<in> set (sessions db). status s = SCHEDULED \<and> endAtUtc s \<le> now}"
    unfolding sel_def by (rule selection(1) [OF d])
  have sel_dist: "distinct (map sid sel)" unfolding sel_def by (rule selection(2) [OF d])
  have m: "s \<in> set (sessions db)" using ms' sub by blast
  have ss: "sessions db' = map G (sessions db)"
    unfolding db'_def job_result snd_conv G_def sel_def now_def
    by (rule job_sessions [OF d sub [unfolded sel_def now_def]])
  have d': "distinct (map sid (sessions db'))"
    unfolding db'_def using run_invariant [OF d u] by blast
  have g: "G s = s\<lparr>status := COMPLETED\<rparr>" using ms' by (simp add: G_def)
  have "G s \<in> set (sessions db')" unfolding ss using m by simp
  then have "find (\<lambda>x. sid x = sid (G s)) (sessions db') = Some (G s)"
    by (rule find_sid_member [OF d'])
  then have f: "find (\<lambda>x. sid x = sid s) (sessions db') = Some (s\<lparr>status := COMPLETED\<rparr>)"
    by (simp add: g)
  have led: "ledger db' = ledger db @ map consume
               (filter (\<lambda>s. find (\<lambda>e. le_sessionId e = Some (sid s)) (ledger db) = None) sel)"
    unfolding db'_def consume_def sel_def now_def by (rule job_ledger [OF d])
  have single: "filter (\<lambda>t. sid t = sid s) sel = [s]"
    by (rule filter_sid_single [OF sel_dist ms'])
  let ?P = "\<lambda>e. le_sessionId e = Some (sid s)"
  let ?N = "\<lambda>s. find (\<lambda>e. le_sessionId e = Some (sid s)) (ledger db) = None"
  have "filter ?P (map consume (filter ?N sel))
          = map consume (filter (\<lambda>t. sid t = sid s) (filter ?N sel))"
    by (simp add: filter_map comp_def consume_def)
  also have "filter (\<lambda>t. sid t = sid s) (filter ?N sel) = filter ?N (filter (\<lambda>t. sid t = sid s) sel)"
    by (simp add: conj_commute)
  also have "\<dots> = (if ?N s then [s] else [])" by (simp add: single)
  finally have new: "filter ?P (map consume (filter ?N sel)) = (if ?N s then [consume s] else [])"
    by simp
  have all: "filter ?P (ledger db') = filter ?P (ledger db) @ (if ?N s then [consume s] else [])"
    unfolding led filter_append new ..
  have n: "?N s = (filter ?P (ledger db) = [])" by (rule filter_find_None)
  have len: "length (filter ?P (ledger db')) = 1"
  proof (cases "filter ?P (ledger db) = []")
    case True
    then show ?thesis unfolding all n by simp
  next
    case False
    then have "length (filter ?P (ledger db)) \<noteq> 0" by simp
    moreover have "length (filter ?P (ledger db)) \<le> 1" using u by blast
    ultimately have "length (filter ?P (ledger db)) = 1" by linarith
    then show ?thesis unfolding all n using False by simp
  qed
  have cont: "filter ?P (ledger db) = [] \<longrightarrow> filter ?P (ledger db') = [consume s]"
    unfolding all n by simp
  from f len cont show ?thesis unfolding db'_def consume_def by blast
qed

text \<open>When the backlog fits the batch, the second run finds nothing to do.\<close>

lemma second_run:
  assumes d: "distinct (map sid (sessions db))"
    and b: "length (filter (\<lambda>s. status s = SCHEDULED \<and> endAtUtc s \<le> nullish (o_now options) clock)
                 (sessions db)) \<le> nullish (o_batchSize options) 100"
  shows "completeEndedSessions clock options (snd (completeEndedSessions clock options db))
           = (0, snd (completeEndedSessions clock options db))"
proof -
  define now where "now = nullish (o_now options) clock"
  define bs where "bs = nullish (o_batchSize options) 100"
  define sel where "sel = findMany_ended now bs db"
  define db' where "db' = snd (completeEndedSessions clock options db)"
  have sub: "set sel \<subseteq> {s \<in> set (sessions db). status s = SCHEDULED \<and> endAtUtc s \<le> now}"
    unfolding sel_def by (rule selection(1) [OF d])
  have ds: "distinct (map sid sel)" unfolding sel_def by (rule selection(2) [OF d])
  have ls: "length sel = min bs (length (filter (\<lambda>s. status s = SCHEDULED \<and> endAtUtc s \<le> now)
                                    (sessions db)))"
    unfolding sel_def by (rule selection(3) [OF d])
  have ss: "sessions db' = map (\<lambda>s. if s \<in> set sel then s\<lparr>status := COMPLETED\<rparr> else s)
                             (sessions db)"
    unfolding db'_def job_result snd_conv sel_def now_def bs_def
    by (rule job_sessions [OF d sub [unfolded sel_def now_def bs_def]])
  have "length (filter (\<lambda>s. status s = SCHEDULED \<and> endAtUtc s \<le> now) (sessions db'))
          = length (filter (\<lambda>s. status s = SCHEDULED \<and> endAtUtc s \<le> now) (sessions db))
            - length sel"
    unfolding ss by (rule backlog_after [OF d sub ds])
  also have "\<dots> = 0" using b unfolding ls by (simp add: now_def bs_def)
  finally have none_left:
    "filter (\<lambda>s. status s = SCHEDULED \<and> endAtUtc s \<le> now) (sessions db') = []" by simp
  have "findMany_ended now bs db' = []"
    unfolding findMany_ended_def none_left by simp
  then have "completeEndedSessions clock options db' = (0, db')"
    unfolding job_result by (simp add: now_def bs_def)
  then show ?thesis unfolding db'_def .
qed

text \<open>
  Claim C2, amended. The store has unique session ids and at most one ledger entry per
  session id (the unique index). One run with reference instant \<open>now\<close> selects the first
  \<open>batchSize\<close> (100 unless given) of the sessions that are SCHEDULED with \<open>endAtUtc <= now\<close>,
  those that ended first, and returns their number. It sets exactly the selected sessions
  to COMPLETED and leaves every other session as it was; it appends to the ledger one
  SESSION_CONSUME entry with \<open>deltaUnits = - consumesUnits\<close> for each selected session that
  had no entry, and nothing else. After the run every selected session has exactly one
  ledger entry, and after any sequence of runs, with whatever instants and batch sizes, no
  session id has more than one. The backlog shrinks by the batch size. When the backlog
  fits the batch, every ended session is selected, and a second run with the same \<open>now\<close>
  selects nothing and returns the store of the first run unchanged: same statuses, same
  ledger, same remaining units for every student.
\<close>

theorem completion_job_idempotent:
  assumes d: "distinct (map sid (sessions db))"
    and u: "\<forall>j. length (filter (\<lambda>e. le_sessionId e = Some j) (ledger db)) \<le> 1"
    and n: "now = nullish (o_now options) clock"
    and b: "batchSize = nullish (o_batchSize options) 100"
    and s: "selected = findMany_ended now batchSize db"
    and r: "db' = snd (completeEndedSessions clock options db)"
  shows "set selected \<subseteq> {s \<in> set (sessions db). status s = SCHEDULED \<and> endAtUtc s \<le> now}
       \<and> length selected
           = min batchSize
               (length (filter (\<lambda>s. status s = SCHEDULED \<and> endAtUtc s \<le> now) (sessions db)))
       \<and> (\<forall>s \<in> set selected. \<forall>t \<in> set (sessions db).
             status t = SCHEDULED \<and> endAtUtc t \<le> now \<and> t \<notin> set selected
               \<longrightarrow> endAtUtc s \<le> endAtUtc t)
       \<and> fst (completeEndedSessions clock options db) = length selected
       \<and> sessions db'
           = map (\<lambda>s. if s \<in> set selected then s\<lparr>status := COMPLETED\<rparr> else s) (sessions db)
       \<and> ledger db'
           = ledger db @
             map (\<lambda>s. \<lparr>le_studentId = studentId s, le_teacherId = Some (teacherId s),
                        deltaUnits = - consumesUnits s, reason = SESSION_CONSUME,
                        le_sessionId = Some (sid s)\<rparr>)
               (filter (\<lambda>s. filter (\<lambda>e. le_sessionId e = Some (sid s)) (ledger db) = [])
                  selected)
       \<and> (\<forall>s \<in> set selected.
             find (\<lambda>x. sid x = sid s) (sessions db') = Some (s\<lparr>status := COMPLETED\<rparr>)
             \<and> length (filter (\<lambda>e. le_sessionId e = Some (sid s)) (ledger db')) = 1
             \<and> (filter (\<lambda>e. le_sessionId e = Some (sid s)) (ledger db) = [] \<longrightarrow>
                  filter (\<lambda>e. le_sessionId e = Some (sid s)) (ledger db')
                    = [\<lparr>le_studentId = studentId s, le_teacherId = Some (teacherId s),
                        deltaUnits = - consumesUnits s, reason = SESSION_CONSUME,
                        le_sessionId = Some (sid s)\<rparr>]))
       \<and> (\<forall>runs j. length (filter (\<lambda>e. le_sessionId e = Some j)
                    (ledger (fold (\<lambda>run x. snd (completeEndedSessions (fst run) (snd run) x))
                               runs db)))
                 \<le> 1)
       \<and> length (filter (\<lambda>s. status s = SCHEDULED \<and> endAtUtc s \<le> now) (sessions db'))
           = length (filter (\<lambda>s. status s = SCHEDULED \<and> endAtUtc s \<le> now) (sessions db))
             - batchSize
       \<and> (length (filter (\<lambda>s. status s = SCHEDULED \<and> endAtUtc s \<le> now) (sessions db))
            \<le> batchSize
          \<longrightarrow> set selected
                = {s \<in> set (sessions db). status s = SCHEDULED \<and> endAtUtc s \<le> now}
            \<and> completeEndedSessions clock options db' = (0, db')
            \<and> (\<forall>student. remainingUnits (snd (completeEndedSessions clock options db')) student
                           = remainingUnits db' student))"
proof -
  let ?el = "\<lambda>s::Session. status s = SCHEDULED \<and> endAtUtc s \<le> now"
  have sub: "set selected \<subseteq> {s \<in> set (sessions db). ?el s}"
    unfolding s by (rule selection(1) [OF d])
  have ds: "distinct (map sid selected)" unfolding s by (rule selection(2) [OF d])
  have ls: "length selected = min batchSize (length (filter ?el (sessions db)))"
    unfolding s by (rule selection(3) [OF d])
  have old: "\<forall>s \<in> set selected. \<forall>t \<in> set (sessions db).
             status t = SCHEDULED \<and> endAtUtc t \<le> now \<and> t \<notin> set selected
               \<longrightarrow> endAtUtc s \<le> endAtUtc t"
    unfolding s using selection_oldest by blast
  have cnt: "fst (completeEndedSessions clock options db) = length selected"
    unfolding job_result fst_conv s n b ..
  have ss: "sessions db'
           = map (\<lambda>s. if s \<in> set selected then s\<lparr>status := COMPLETED\<rparr> else s) (sessions db)"
    unfolding r job_result snd_conv s n b
    by (rule job_sessions [OF d sub [unfolded s n b]])
  have led: "ledger db'
           = ledger db @
             map (\<lambda>s. \<lparr>le_studentId = studentId s, le_teacherId = Some (teacherId s),
                        deltaUnits = - consumesUnits s, reason = SESSION_CONSUME,
                        le_sessionId = Some (sid s)\<rparr>)
               (filter (\<lambda>s. filter (\<lambda>e. le_sessionId e = Some (sid s)) (ledger db) = [])
                  selected)"
    unfolding r s n b job_ledger [OF d] filter_find_None ..
  have each: "\<forall>s \<in> set selected.
             find (\<lambda>x. sid x = sid s) (sessions db') = Some (s\<lparr>status := COMPLETED\<rparr>)
             \<and> length (filter (\<lambda>e. le_sessionId e = Some (sid s)) (ledger db')) = 1
             \<and> (filter (\<lambda>e. le_sessionId e = Some (sid s)) (ledger db) = [] \<longrightarrow>
                  filter (\<lambda>e. le_sessionId e = Some (sid s)) (ledger db')
                    = [\<lparr>le_studentId = studentId s, le_teacherId = Some (teacherId s),
                        deltaUnits = - consumesUnits s, reason = SESSION_CONSUME,
                        le_sessionId = Some (sid s)\<rparr>])"
    unfolding r s n b using selected_after [OF d u] by blast
  have runs: "\<forall>runs j. length (filter (\<lambda>e. le_sessionId e = Some j)
                    (ledger (fold (\<lambda>run x. snd (completeEndedSessions (fst run) (snd run) x))
                               runs db)))
                 \<le> 1"
    using runs_invariant [OF d u] by blast
  have bk: "length (filter ?el (sessions db')) = length (filter ?el (sessions db)) - batchSize"
  proof -
    have "length (filter ?el (sessions db')) = length (filter ?el (sessions db)) - length selected"
      unfolding ss by (rule backlog_after [OF d sub ds])
    then show ?thesis unfolding ls by simp
  qed
  have fits: "length (filter ?el (sessions db)) \<le> batchSize
          \<longrightarrow> set selected = {s \<in> set (sessions db). ?el s}
            \<and> completeEndedSessions clock options db' = (0, db')
            \<and> (\<forall>student. remainingUnits (snd (completeEndedSessions clock options db')) student
                           = remainingUnits db' student)"
  proof
    assume f: "length (filter ?el (sessions db)) \<le> batchSize"
    have a: "set selected = {s \<in> set (sessions db). ?el s}"
      unfolding s by (rule selection_all [OF f])
    have c: "completeEndedSessions clock options db' = (0, db')"
      unfolding r by (rule second_run [OF d f [unfolded n b]])
    show "set selected = {s \<in> set (sessions db). ?el s}
            \<and> completeEndedSessions clock options db' = (0, db')
            \<and> (\<forall>student. remainingUnits (snd (completeEndedSessions clock options db')) student
                           = remainingUnits db' student)"
      using a by (simp add: c)
  qed
  from sub ls old cnt ss led each runs bk fits show ?thesis by (intro conjI)
qed

text \<open>
  Claim C2, as stated, fails when the backlog is larger than the batch: with two ended
  lessons and a batch size of one, the first run completes the lesson that ended first and
  the second run with the same \<open>now\<close> completes the other one. The statuses after two runs
  differ from those after one, the second run adds a ledger entry, and the student's
  remaining units go from 9 to 8.
\<close>

theorem completion_job_batch_counterexample:
  "map status (sessions (snd (completeEndedSessions 0 demo_options_batch1 demo_db_backlog)))
     = [COMPLETED, SCHEDULED]
   \<and> map status (sessions (snd (completeEndedSessions 0 demo_options_batch1
                       (snd (completeEndedSessions 0 demo_options_batch1 demo_db_backlog)))))
     = [COMPLETED, COMPLETED]
   \<and> length (ledger (snd (completeEndedSessions 0 demo_options_batch1 demo_db_backlog))) = 2
   \<and> length (ledger (snd (completeEndedSessions 0 demo_options_batch1
                       (snd (completeEndedSessions 0 demo_options_batch1 demo_db_backlog))))) = 3
   \<and> remainingUnits (snd (completeEndedSessions 0 demo_options_batch1 demo_db_backlog))
        ''student1'' = 9
   \<and> remainingUnits (snd (completeEndedSessions 0 demo_options_batch1
                       (snd (completeEndedSessions 0 demo_options_batch1 demo_db_backlog))))
        ''student1'' = 8"
  by code_simp

text \<open>The store with the two ended lessons, and the first batch of size one.\<close>

lemma demo_backlog_store:
  "sessions demo_db_backlog = [demo_session, demo_session2]"
  "ledger demo_db_backlog = [\<lparr>le_studentId = ''student1'', le_teacherId = None,
                deltaUnits = 10, reason = PURCHASE, le_sessionId = None\<rparr>]"
  by (simp_all add: demo_db_backlog_def demo_db_def)

lemma demo_backlog_ids: "distinct (map sid (sessions demo_db_backlog))"
  by (simp add: demo_backlog_store demo_session_def demo_session2_def)

lemma demo_backlog_index:
  "\<forall>j. length (filter (\<lambda>e. le_sessionId e = Some j) (ledger demo_db_backlog)) \<le> 1"
  by (simp add: demo_backlog_store)

lemma demo_backlog_ended:
  "filter (\<lambda>s. status s = SCHEDULED \<and> endAtUtc s \<le> 1893628800000) (sessions demo_db_backlog)
     = [demo_session, demo_session2]"
  by (simp add: demo_backlog_store demo_session_def demo_session2_def)

lemma demo_backlog_first: "findMany_ended 1893628800000 1 demo_db_backlog = [demo_session]"
  unfolding findMany_ended_def demo_backlog_ended
  by (simp add: demo_session_def demo_session2_def)

text \<open>
  With a batch size of one the first run completes the first lesson and writes its one
  consumption entry, one lesson stays in the backlog, and the first lesson still has one
  entry after the second run. With the default batch size both lessons are completed by
  the first run and the second run processes nothing.
\<close>

theorem completion_job_idempotent_witness:
  "filter (\<lambda>e. le_sessionId e = Some ''sess1'')
        (ledger (snd (completeEndedSessions 0 demo_options_batch1 demo_db_backlog)))
     = [\<lparr>le_studentId = ''student1'', le_teacherId = Some ''teacher1'', deltaUnits = - 1,
         reason = SESSION_CONSUME, le_sessionId = Some ''sess1''\<rparr>]
   \<and> length (filter (\<lambda>s. status s = SCHEDULED \<and> endAtUtc s \<le> 1893628800000)
        (sessions (snd (completeEndedSessions 0 demo_options_batch1 demo_db_backlog)))) = 1
   \<and> length (filter (\<lambda>e. le_sessionId e = Some ''sess1'')
        (ledger (snd (completeEndedSessions 0 demo_options_batch1
                   (snd (completeEndedSessions 0 demo_options_batch1 demo_db_backlog)))))) \<le> 1
   \<and> completeEndedSessions 0 demo_options
        (snd (completeEndedSessions 0 demo_options demo_db_backlog))
     = (0, snd (completeEndedSessions 0 demo_options demo_db_backlog))"
proof -
  have n1: "(1893628800000::int) = nullish (o_now demo_options_batch1) 0"
    and b1: "(1::nat) = nullish (o_batchSize demo_options_batch1) 100"
    by (simp_all add: demo_options_batch1_def nullish_def)
  have n2: "(1893628800000::int) = nullish (o_now demo_options) 0"
    and b2: "(100::nat) = nullish (o_batchSize demo_options) 100"
    by (simp_all add: demo_options_def nullish_def)
  have f: "sid demo_session = ''sess1''" "studentId demo_session = ''student1''"
    "teacherId demo_session = ''teacher1''" "consumesUnits demo_session = 1"
    by (simp_all add: demo_session_def)
  have none: "filter (\<lambda>e. le_sessionId e = Some (sid demo_session)) (ledger demo_db_backlog) = []"
    by (simp add: demo_backlog_store)
  note t1 = completion_job_idempotent
              [OF demo_backlog_ids demo_backlog_index n1 b1 demo_backlog_first [symmetric] refl]
  note t2 = completion_job_idempotent
              [OF demo_backlog_ids demo_backlog_index n2 b2 refl refl]
  have m: "demo_session \<in> set [demo_session]" by simp
  from t1 m none
  have a: "filter (\<lambda>e. le_sessionId e = Some (sid demo_session))
              (ledger (snd (completeEndedSessions 0 demo_options_batch1 demo_db_backlog)))
     = [\<lparr>le_studentId = studentId demo_session, le_teacherId = Some (teacherId demo_session),
         deltaUnits = - consumesUnits demo_session, reason = SESSION_CONSUME,
         le_sessionId = Some (sid demo_session)\<rparr>]"
    by blast
  from t1
  have "length (filter (\<lambda>s. status s = SCHEDULED \<and> endAtUtc s \<le> 1893628800000)
        (sessions (snd (completeEndedSessions 0 demo_options_batch1 demo_db_backlog))))
      = length (filter (\<lambda>s. status s = SCHEDULED \<and> endAtUtc s \<le> 1893628800000)
          (sessions demo_db_backlog)) - 1"
    by blast
  then have c: "length (filter (\<lambda>s. status s = SCHEDULED \<and> endAtUtc s \<le> 1893628800000)
        (sessions (snd (completeEndedSessions 0 demo_options_batch1 demo_db_backlog)))) = 1"
    unfolding demo_backlog_ended by simp
  from t1
  have "length (filter (\<lambda>e. le_sessionId e = Some ''sess1'')
          (ledger (fold (\<lambda>run x. snd (completeEndedSessions (fst run) (snd run) x))
                     [(0, demo_options_batch1), (0, demo_options_batch1)] demo_db_backlog))) \<le> 1"
    by blast
  then have e: "length (filter (\<lambda>e. le_sessionId e = Some ''sess1'')
        (ledger (snd (completeEndedSessions 0 demo_options_batch1
                   (snd (completeEndedSessions 0 demo_options_batch1 demo_db_backlog)))))) \<le> 1"
    by simp
  have "length (filter (\<lambda>s. status s = SCHEDULED \<and> endAtUtc s \<le> 1893628800000)
           (sessions demo_db_backlog)) \<le> 100"
    unfolding demo_backlog_ended by simp
  with t2
  have g: "completeEndedSessions 0 demo_options
        (snd (completeEndedSessions 0 demo_options demo_db_backlog))
     = (0, snd (completeEndedSessions 0 demo_options demo_db_backlog))"
    by blast
  from a c e g show ?thesis by (simp add: f)
qed

section \<open>Properties of the payroll aggregation\<close>




lemma map_of_Map_set: "map_of (Map_set k v m) = (map_of m)(k \<mapsto> v)"
  by (induction m) (auto simp: fun_eq_iff)

lemma keys_Map_set: "set (map fst (Map_set k v m)) = insert k (set (map fst m))"
  by (induction m) auto

lemma distinct_Map_set: "distinct (map fst m) \<Longrightarrow> distinct (map fst (Map_set k v m))"
proof (induction m)
  case Nil
  then show ?case by simp
next
  case (Cons p m)
  have "fst p \<notin> set (map fst m)" "distinct (map fst m)" using Cons.prems by simp_all
  then show ?case using Cons.IH keys_Map_set [of k v m] by auto
qed

lemma bucket_invariant_empty: "bucket_invariant [] []"
  by (simp add: bucket_invariant_def)

lemma expected_bucket_snoc:
  "(expected_bucket c ss)
     \<lparr>totalCents := Number_add (totalCents (expected_bucket c ss)) (session_cents x),
      totalHours := js_add (totalHours (expected_bucket c ss)) (session_hours x),
      sessionsCount := sessionsCount (expected_bucket c ss) + 1\<rparr>
   = expected_bucket c (ss @ [x])"
  by (simp add: expected_bucket_def)

lemma bucket_invariant_step:
  assumes "bucket_invariant ps T"
  shows "bucket_invariant (ps @ [x])
           (add_to_bucket (currencySnapshot x) (session_cents x) (session_durationMs x) T)"
proof -
  let ?c = "currencySnapshot x"
  let ?ss = "filter (\<lambda>s. currencySnapshot s = ?c) ps"
  have d: "distinct (map fst T)"
    and m: "\<And>c. map_of T c =
             (if filter (\<lambda>s. currencySnapshot s = c) ps = [] then None
              else Some (expected_bucket c (filter (\<lambda>s. currencySnapshot s = c) ps)))"
    using assms by (simp_all add: bucket_invariant_def)
  have ex: "(case map_of T ?c of Some t \<Rightarrow> t
             | None \<Rightarrow> \<lparr>ct_currency = ?c, totalCents = 0, totalHours = 0, sessionsCount = 0\<rparr>)
            = expected_bucket ?c ?ss"
    by (simp add: m expected_bucket_def)
  have a: "add_to_bucket ?c (session_cents x) (session_durationMs x) T
             = Map_set ?c (expected_bucket ?c (?ss @ [x])) T"
    unfolding add_to_bucket_def Let_def ex
    using expected_bucket_snoc [of ?c ?ss x] by (simp add: session_hours_def)
  show ?thesis
    unfolding a bucket_invariant_def
    by (simp add: distinct_Map_set [OF d] map_of_Map_set m)
qed


lemma student_invariant_empty: "student_invariant dn [] []"
  by (simp add: student_invariant_def)

lemma student_invariant_step:
  assumes "student_invariant dn ps S"
  shows "student_invariant dn (ps @ [x])
           (Map_set (studentId x)
              ((case map_of S (studentId x) of
                  Some e \<Rightarrow> e
                | None \<Rightarrow> \<lparr>st_studentId = studentId x, st_studentName = dn (studentId x),
                           st_totalsByCurrency = []\<rparr>)
               \<lparr>st_totalsByCurrency :=
                  add_to_bucket (currencySnapshot x) (session_cents x) (session_durationMs x)
                    (st_totalsByCurrency
                       (case map_of S (studentId x) of
                          Some e \<Rightarrow> e
                        | None \<Rightarrow> \<lparr>st_studentId = studentId x, st_studentName = dn (studentId x),
                                   st_totalsByCurrency = []\<rparr>))\<rparr>) S)"
proof -
  let ?k = "studentId x"
  let ?own = "filter (\<lambda>s. studentId s = ?k) ps"
  let ?entry = "(case map_of S ?k of Some e \<Rightarrow> e
                | None \<Rightarrow> \<lparr>st_studentId = ?k, st_studentName = dn ?k, st_totalsByCurrency = []\<rparr>)"
  have d: "distinct (map fst S)"
    and m: "\<And>st. case map_of S st of
                 None \<Rightarrow> filter (\<lambda>s. studentId s = st) ps = []
               | Some e \<Rightarrow>
                   filter (\<lambda>s. studentId s = st) ps \<noteq> []
                   \<and> st_studentId e = st \<and> st_studentName e = dn st
                   \<and> bucket_invariant (filter (\<lambda>s. studentId s = st) ps) (st_totalsByCurrency e)"
    using assms by (simp_all add: student_invariant_def)
  have e1: "st_studentId ?entry = ?k" "st_studentName ?entry = dn ?k"
    and e2: "bucket_invariant ?own (st_totalsByCurrency ?entry)"
    using m [of ?k] by (auto simp: bucket_invariant_empty split: option.splits)
  have e3: "bucket_invariant (?own @ [x])
              (add_to_bucket (currencySnapshot x) (session_cents x) (session_durationMs x)
                 (st_totalsByCurrency ?entry))"
    by (rule bucket_invariant_step [OF e2])
  show ?thesis
    unfolding student_invariant_def
  proof (intro conjI allI)
    show "distinct (map fst (Map_set ?k (?entry\<lparr>st_totalsByCurrency :=
                  add_to_bucket (currencySnapshot x) (session_cents x) (session_durationMs x)
                    (st_totalsByCurrency ?entry)\<rparr>) S))"
      by (rule distinct_Map_set [OF d])
  next
    fix st
    show "case map_of (Map_set ?k (?entry\<lparr>st_totalsByCurrency :=
                  add_to_bucket (currencySnapshot x) (session_cents x) (session_durationMs x)
                    (st_totalsByCurrency ?entry)\<rparr>) S) st of
            None \<Rightarrow> filter (\<lambda>s. studentId s = st) (ps @ [x]) = []
          | Some e \<Rightarrow>
              filter (\<lambda>s. studentId s = st) (ps @ [x]) \<noteq> []
              \<and> st_studentId e = st \<and> st_studentName e = dn st
              \<and> bucket_invariant (filter (\<lambda>s. studentId s = st) (ps @ [x])) (st_totalsByCurrency e)"
    proof (cases "st = ?k")
      case True
      have "map_of (Map_set ?k (?entry\<lparr>st_totalsByCurrency :=
                  add_to_bucket (currencySnapshot x) (session_cents x) (session_durationMs x)
                    (st_totalsByCurrency ?entry)\<rparr>) S) st
            = Some (?entry\<lparr>st_totalsByCurrency :=
                  add_to_bucket (currencySnapshot x) (session_cents x) (session_durationMs x)
                    (st_totalsByCurrency ?entry)\<rparr>)"
        using True by (simp add: map_of_Map_set)
      then show ?thesis using e1 e3 True by simp
    next
      case False
      then have "studentId x \<noteq> st" by auto
      then have fe: "filter (\<lambda>s. studentId s = st) (ps @ [x]) = filter (\<lambda>s. studentId s = st) ps"
        by simp
      have "map_of (Map_set ?k (?entry\<lparr>st_totalsByCurrency :=
                  add_to_bucket (currencySnapshot x) (session_cents x) (session_durationMs x)
                    (st_totalsByCurrency ?entry)\<rparr>) S) st = map_of S st"
        using False by (simp add: map_of_Map_set)
      then show ?thesis using m [of st] unfolding fe by simp
    qed
  qed
qed

lemma payroll_step_skip:
  "\<not> contributes x \<Longrightarrow> payroll_step dn x acc = acc"
  by (simp add: payroll_step_def contributes_def session_durationMs_def Let_def)

lemma payroll_step_contributes:
  assumes "contributes x"
  shows "payroll_step dn x (T, S) =
     (add_to_bucket (currencySnapshot x) (session_cents x) (session_durationMs x) T,
      Map_set (studentId x)
              ((case map_of S (studentId x) of
                  Some e \<Rightarrow> e
                | None \<Rightarrow> \<lparr>st_studentId = studentId x, st_studentName = dn (studentId x),
                           st_totalsByCurrency = []\<rparr>)
               \<lparr>st_totalsByCurrency :=
                  add_to_bucket (currencySnapshot x) (session_cents x) (session_durationMs x)
                    (st_totalsByCurrency
                       (case map_of S (studentId x) of
                          Some e \<Rightarrow> e
                        | None \<Rightarrow> \<lparr>st_studentId = studentId x, st_studentName = dn (studentId x),
                                   st_totalsByCurrency = []\<rparr>))\<rparr>) S)"
  using assms
  by (simp add: payroll_step_def contributes_def Let_def session_cents_def
                session_durationMs_def)

text \<open>The two maps after the loop.\<close>

lemma payroll_loop_invariant:
  assumes "bucket_invariant (filter contributes ps) (fst acc)"
    and "student_invariant dn (filter contributes ps) (snd acc)"
  shows "bucket_invariant (filter contributes (ps @ xs)) (fst (fold (payroll_step dn) xs acc))
       \<and> student_invariant dn (filter contributes (ps @ xs)) (snd (fold (payroll_step dn) xs acc))"
  using assms
proof (induction xs arbitrary: ps acc)
  case Nil
  then show ?case by simp
next
  case (Cons x xs)
  obtain T S where acc: "acc = (T, S)" by (cases acc)
  have step: "bucket_invariant (filter contributes (ps @ [x])) (fst (payroll_step dn x acc))
        \<and> student_invariant dn (filter contributes (ps @ [x])) (snd (payroll_step dn x acc))"
  proof (cases "contributes x")
    case True
    have "bucket_invariant (filter contributes ps @ [x]) (fst (payroll_step dn x acc))"
      unfolding acc payroll_step_contributes [OF True] fst_conv
      using Cons.prems(1) unfolding acc fst_conv by (rule bucket_invariant_step)
    moreover have "student_invariant dn (filter contributes ps @ [x]) (snd (payroll_step dn x acc))"
      unfolding acc payroll_step_contributes [OF True] snd_conv
      using Cons.prems(2) unfolding acc snd_conv by (rule student_invariant_step)
    ultimately show ?thesis using True by simp
  next
    case False
    then show ?thesis using Cons.prems by (simp add: payroll_step_skip)
  qed
  have "bucket_invariant (filter contributes ((ps @ [x]) @ xs))
          (fst (fold (payroll_step dn) xs (payroll_step dn x acc)))
       \<and> student_invariant dn (filter contributes ((ps @ [x]) @ xs))
          (snd (fold (payroll_step dn) xs (payroll_step dn x acc)))"
    by (rule Cons.IH [OF conjunct1 [OF step] conjunct2 [OF step]])
  then show ?case by simp
qed

lemma payroll_loop:
  "bucket_invariant (filter contributes xs) (fst (fold (payroll_step dn) xs ([], [])))
   \<and> student_invariant dn (filter contributes xs) (snd (fold (payroll_step dn) xs ([], [])))"
  using payroll_loop_invariant [of "[]" "([], [])" dn xs]
  by (simp add: bucket_invariant_empty student_invariant_empty)


text \<open>Sums over the values of a map and over the groups of a list.\<close>

lemma indicator_sum:
  fixes v :: "'a::comm_monoid_add"
  assumes "distinct ks" and "a \<in> set ks"
  shows "sum_list (map (\<lambda>k. if a = k then v else 0) ks) = v"
  using assms
proof (induction ks)
  case Nil
  then show ?case by simp
next
  case (Cons k ks)
  show ?case
  proof (cases "a = k")
    case True
    then have "a \<notin> set ks" using Cons.prems(1) by simp
    then have "map (\<lambda>k. if a = k then v else 0) ks = map (\<lambda>k. 0) ks"
      by (intro map_cong refl) auto
    then have "sum_list (map (\<lambda>k. if a = k then v else 0) ks) = sum_list (map (\<lambda>k. 0::'a) ks)"
      by (rule arg_cong)
    also have "\<dots> = 0" by simp
    finally have z: "sum_list (map (\<lambda>k. if a = k then v else 0) ks) = 0" .
    have "sum_list (map (\<lambda>k. if a = k then v else 0) (k # ks))
            = v + sum_list (map (\<lambda>k. if a = k then v else 0) ks)"
      using True by simp
    then show ?thesis unfolding z by simp
  next
    case False
    then have "a \<in> set ks" using Cons.prems(2) by simp
    then show ?thesis using Cons.IH Cons.prems(1) False by simp
  qed
qed

lemma regroup:
  fixes f :: "'s \<Rightarrow> 'a::comm_monoid_add"
  assumes "distinct ks" and "\<forall>s \<in> set ps. key s \<in> set ks"
  shows "sum_list (map (\<lambda>k. sum_list (map f (filter (\<lambda>s. key s = k) ps))) ks) = sum_list (map f ps)"
  using assms(2)
proof (induction ps)
  case Nil
  then show ?case by simp
next
  case (Cons x ps)
  have in_ks: "key x \<in> set ks" using Cons.prems by simp
  have A: "map (\<lambda>k. sum_list (map f (filter (\<lambda>s. key s = k) (x # ps)))) ks
          = map (\<lambda>k. (if key x = k then f x else 0)
                       + sum_list (map f (filter (\<lambda>s. key s = k) ps))) ks"
    by (intro map_cong refl) simp
  have ih: "sum_list (map (\<lambda>k. sum_list (map f (filter (\<lambda>s. key s = k) ps))) ks)
              = sum_list (map f ps)"
    using Cons.IH Cons.prems by simp
  have "sum_list (map (\<lambda>k. sum_list (map f (filter (\<lambda>s. key s = k) (x # ps)))) ks)
          = sum_list (map (\<lambda>k. (if key x = k then f x else 0)
                       + sum_list (map f (filter (\<lambda>s. key s = k) ps))) ks)"
    by (simp only: A)
  also have "\<dots> = sum_list (map (\<lambda>k. if key x = k then f x else 0) ks)
            + sum_list (map (\<lambda>k. sum_list (map f (filter (\<lambda>s. key s = k) ps))) ks)"
    by (rule sum_list_addf)
  also have "\<dots> = f x + sum_list (map f ps)"
    by (simp only: indicator_sum [OF assms(1) in_ks] ih)
  finally show ?case by simp
qed

lemma sum_ones: "sum_list (map (\<lambda>_. 1::nat) zs) = length zs"
  by (induction zs) simp_all

lemma regroup_length:
  assumes "distinct ks" and "\<forall>s \<in> set ps. key s \<in> set ks"
  shows "sum_list (map (\<lambda>k. length (filter (\<lambda>s. key s = k) ps)) ks) = length ps"
  using regroup [OF assms, of "\<lambda>_. 1::nat"] by (simp only: sum_ones)

lemma keyed_sum:
  fixes f :: "'v \<Rightarrow> 'a::comm_monoid_add"
  assumes "distinct (map fst T)" and "\<forall>(k, u) \<in> set T. key u = k"
  shows "sum_list (map f (filter (\<lambda>u. key u = c) (map snd T)))
           = (case map_of T c of None \<Rightarrow> 0 | Some u \<Rightarrow> f u)"
  using assms
proof (induction T)
  case Nil
  then show ?case by simp
next
  case (Cons p T)
  obtain k u where p: "p = (k, u)" by (cases p)
  have ku: "key u = k" and d: "distinct (map fst T)" and nk: "k \<notin> fst ` set T"
    and rest: "\<forall>(k, u) \<in> set T. key u = k"
    using Cons.prems by (auto simp: p)
  show ?case
  proof (cases "k = c")
    case True
    then have "map_of T c = None" using nk by (simp add: map_of_eq_None_iff)
    then have "sum_list (map f (filter (\<lambda>u. key u = c) (map snd T))) = 0"
      using Cons.IH [OF d rest] by simp
    then show ?thesis using True ku by (simp add: p)
  next
    case False
    then show ?thesis using Cons.IH [OF d rest] ku by (simp add: p)
  qed
qed

lemma bucket_entries:
  assumes "bucket_invariant ps T" and "(k, u) \<in> set T"
  shows "u = expected_bucket k (filter (\<lambda>s. currencySnapshot s = k) ps)"
    and "filter (\<lambda>s. currencySnapshot s = k) ps \<noteq> []"
proof -
  have d: "distinct (map fst T)" using assms(1) by (simp add: bucket_invariant_def)
  have "map_of T k = Some u" using d assms(2) by simp
  moreover have "map_of T k =
             (if filter (\<lambda>s. currencySnapshot s = k) ps = [] then None
              else Some (expected_bucket k (filter (\<lambda>s. currencySnapshot s = k) ps)))"
    using assms(1) by (simp add: bucket_invariant_def)
  ultimately show "u = expected_bucket k (filter (\<lambda>s. currencySnapshot s = k) ps)"
    and "filter (\<lambda>s. currencySnapshot s = k) ps \<noteq> []"
    by (auto split: if_splits)
qed

lemma bucket_keyed:
  assumes "bucket_invariant ps T"
  shows "\<forall>(k, u) \<in> set T. ct_currency u = k"
proof (clarify)
  fix k u assume "(k, u) \<in> set T"
  from bucket_entries(1) [OF assms this] show "ct_currency u = k"
    by (simp add: expected_bucket_def)
qed

text \<open>
  Additions of integers are exact as long as the magnitudes involved add up to less than
  \<open>2^53\<close>.
\<close>

lemma foldl_Number_add_exact:
  "\<bar>a\<bar> + sum_list (map abs cs) < 2 ^ 53 \<Longrightarrow> foldl Number_add a cs = a + sum_list cs"
proof (induction cs arbitrary: a)
  case Nil
  then show ?case by simp
next
  case (Cons c cs)
  have "\<bar>a + c\<bar> \<le> \<bar>a\<bar> + \<bar>c\<bar>" by (rule abs_triangle_ineq)
  moreover have "0 \<le> sum_list (map abs cs)" by (rule sum_list_nonneg) auto
  ultimately have s: "\<bar>a + c\<bar> < 2 ^ 53"
    and r: "\<bar>a + c\<bar> + sum_list (map abs cs) < 2 ^ 53"
    using Cons.prems by simp_all
  have "Number_add a c = a + c"
    unfolding Number_add_def by (rule Number_of_BigInt_safe [OF s])
  then show ?case using Cons.IH [OF r] by simp
qed

lemma sum_abs_filter_le:
  fixes f :: "'s \<Rightarrow> int"
  shows "sum_list (map (\<lambda>s. \<bar>f s\<bar>) (filter P xs)) \<le> sum_list (map (\<lambda>s. \<bar>f s\<bar>) xs)"
  by (induction xs) auto

lemma cents_exact:
  assumes "sum_list (map (\<lambda>s. \<bar>session_cents s\<bar>) ps) < 2 ^ 53"
  shows "foldl Number_add 0 (map session_cents (filter P ps))
           = sum_list (map session_cents (filter P ps))"
proof -
  have "sum_list (map abs (map session_cents (filter P ps)))
          = sum_list (map (\<lambda>s. \<bar>session_cents s\<bar>) (filter P ps))"
    by (simp add: comp_def)
  also have "\<dots> \<le> sum_list (map (\<lambda>s. \<bar>session_cents s\<bar>) ps)" by (rule sum_abs_filter_le)
  finally have "\<bar>0::int\<bar> + sum_list (map abs (map session_cents (filter P ps))) < 2 ^ 53"
    using assms by simp
  from foldl_Number_add_exact [OF this] show ?thesis by simp
qed

lemma bucket_cents:
  assumes "bucket_invariant ps T"
    and "sum_list (map (\<lambda>s. \<bar>session_cents s\<bar>) ps) < 2 ^ 53"
  shows "sum_list (map totalCents (filter (\<lambda>u. ct_currency u = c) (map snd T)))
           = sum_list (map session_cents (filter (\<lambda>s. currencySnapshot s = c) ps))"
proof -
  have d: "distinct (map fst T)"
    and m: "map_of T c =
             (if filter (\<lambda>s. currencySnapshot s = c) ps = [] then None
              else Some (expected_bucket c (filter (\<lambda>s. currencySnapshot s = c) ps)))"
    using assms(1) by (simp_all add: bucket_invariant_def)
  show ?thesis
    unfolding keyed_sum [OF d bucket_keyed [OF assms(1)]] m
    by (simp add: expected_bucket_def cents_exact [OF assms(2)])
qed

lemma bucket_count:
  assumes "bucket_invariant ps T"
  shows "sum_list (map sessionsCount (filter (\<lambda>u. ct_currency u = c) (map snd T)))
           = length (filter (\<lambda>s. currencySnapshot s = c) ps)"
proof -
  have d: "distinct (map fst T)"
    and m: "map_of T c =
             (if filter (\<lambda>s. currencySnapshot s = c) ps = [] then None
              else Some (expected_bucket c (filter (\<lambda>s. currencySnapshot s = c) ps)))"
    using assms by (simp_all add: bucket_invariant_def)
  show ?thesis
    unfolding keyed_sum [OF d bucket_keyed [OF assms]] m
    by (simp add: expected_bucket_def)
qed

lemma bucket_count_all:
  assumes "bucket_invariant ps T"
  shows "sum_list (map sessionsCount (map snd T)) = length ps"
proof -
  have d: "distinct (map fst T)" using assms by (simp add: bucket_invariant_def)
  have cover: "\<forall>s \<in> set ps. currencySnapshot s \<in> set (map fst T)"
  proof
    fix s assume "s \<in> set ps"
    then have "filter (\<lambda>t. currencySnapshot t = currencySnapshot s) ps \<noteq> []"
      by (auto simp: filter_empty_conv)
    then have "map_of T (currencySnapshot s) \<noteq> None"
      using assms by (simp add: bucket_invariant_def)
    then show "currencySnapshot s \<in> set (map fst T)"
      by (simp add: map_of_eq_None_iff)
  qed
  have e: "map sessionsCount (map snd T)
          = map (\<lambda>k. length (filter (\<lambda>s. currencySnapshot s = k) ps)) (map fst T)"
    unfolding map_map
  proof (rule map_cong [OF refl])
    fix p assume "p \<in> set T"
    then have "snd p = expected_bucket (fst p) (filter (\<lambda>s. currencySnapshot s = fst p) ps)"
      using bucket_entries(1) [OF assms, of "fst p" "snd p"] by simp
    then show "(sessionsCount \<circ> snd) p
                 = ((\<lambda>k. length (filter (\<lambda>s. currencySnapshot s = k) ps)) \<circ> fst) p"
      by (simp add: expected_bucket_def)
  qed
  show ?thesis
    unfolding e by (rule regroup_length [OF d cover])
qed

text \<open>Sorting permutes.\<close>

lemma mset_insert_sorted: "mset (insert_sorted cmp x ys) = add_mset x (mset ys)"
  by (induction ys) simp_all

lemma mset_Array_sort: "mset (Array_sort cmp xs) = mset xs"
  unfolding Array_sort_def by (induction xs) (simp_all add: mset_insert_sorted)

lemma set_Array_sort: "set (Array_sort cmp xs) = set xs"
  using mset_Array_sort [of cmp xs] by (metis set_mset_mset)

lemma sum_list_perm:
  fixes f :: "'v \<Rightarrow> 'a::comm_monoid_add"
  assumes "mset xs = mset ys"
  shows "sum_list (map f xs) = sum_list (map f ys)"
proof -
  have "sum_list (map f xs) = sum_mset (image_mset f (mset xs))"
    by (simp add: sum_mset_sum_list [symmetric])
  also have "\<dots> = sum_mset (image_mset f (mset ys))" using assms by simp
  also have "\<dots> = sum_list (map f ys)" by (simp add: sum_mset_sum_list [symmetric])
  finally show ?thesis .
qed

lemma sum_list_Array_sort:
  fixes f :: "'v \<Rightarrow> 'a::comm_monoid_add"
  shows "sum_list (map f (filter P (Array_sort cmp xs))) = sum_list (map f (filter P xs))"
  by (rule sum_list_perm) (simp add: mset_Array_sort)


lemma sum_concat_filter:
  fixes f :: "'v \<Rightarrow> 'a::comm_monoid_add"
  shows "sum_list (map f (filter P (concat (map g B))))
           = sum_list (map (\<lambda>e. sum_list (map f (filter P (g e)))) B)"
  by (induction B) simp_all

lemma student_entries:
  assumes "student_invariant dn ps S" and "(st, e) \<in> set S"
  shows "st_studentId e = st" and "st_studentName e = dn st"
    and "bucket_invariant (filter (\<lambda>s. studentId s = st) ps) (st_totalsByCurrency e)"
proof -
  have d: "distinct (map fst S)" using assms(1) by (simp add: student_invariant_def)
  have "map_of S st = Some e" using d assms(2) by simp
  moreover have "case map_of S st of
                 None \<Rightarrow> filter (\<lambda>s. studentId s = st) ps = []
               | Some e \<Rightarrow>
                   filter (\<lambda>s. studentId s = st) ps \<noteq> []
                   \<and> st_studentId e = st \<and> st_studentName e = dn st
                   \<and> bucket_invariant (filter (\<lambda>s. studentId s = st) ps) (st_totalsByCurrency e)"
    using assms(1) by (simp add: student_invariant_def)
  ultimately show "st_studentId e = st" and "st_studentName e = dn st"
    and "bucket_invariant (filter (\<lambda>s. studentId s = st) ps) (st_totalsByCurrency e)"
    by simp_all
qed

lemma student_cover:
  assumes "student_invariant dn ps S" and "s \<in> set ps"
  shows "studentId s \<in> set (map fst S)"
proof -
  have "filter (\<lambda>t. studentId t = studentId s) ps \<noteq> []"
    using assms(2) by (auto simp: filter_empty_conv)
  moreover have "case map_of S (studentId s) of
                 None \<Rightarrow> filter (\<lambda>t. studentId t = studentId s) ps = []
               | Some e \<Rightarrow> True"
    using assms(1) [unfolded student_invariant_def, THEN conjunct2, rule_format, of "studentId s"]
    by (auto split: option.splits)
  ultimately have "map_of S (studentId s) \<noteq> None" by (auto split: option.splits)
  then show ?thesis by (simp add: map_of_eq_None_iff)
qed

text \<open>
  A sum over the buckets of all students, taken from the sorted reply, is the sum over the
  contributing sessions.
\<close>

lemma per_student_sum:
  fixes f :: "CurrencyTotal \<Rightarrow> 'a::comm_monoid_add" and f' :: "Session \<Rightarrow> 'a"
  assumes SI: "student_invariant dn ps S"
    and bucket: "\<And>k U. bucket_invariant (filter (\<lambda>s. studentId s = k) ps) U \<Longrightarrow>
                   sum_list (map f (filter P (map snd U)))
                     = sum_list (map f' (filter Q (filter (\<lambda>s. studentId s = k) ps)))"
  shows "sum_list (map f (filter P (concat (map sp_totals
           (Array_sort cmpS
              (map (\<lambda>entry. \<lparr>sp_studentId = st_studentId entry,
                               sp_studentName = st_studentName entry,
                               sp_totals = Array_sort cmpC (map snd (st_totalsByCurrency entry))\<rparr>)
                 (map snd S)))))))
         = sum_list (map f' (filter Q ps))"
proof -
  let ?g = "\<lambda>entry. \<lparr>sp_studentId = st_studentId entry, sp_studentName = st_studentName entry,
                       sp_totals = Array_sort cmpC (map snd (st_totalsByCurrency entry))\<rparr>"
  let ?h = "\<lambda>e. sum_list (map f (filter P (sp_totals e)))"
  have d: "distinct (map fst S)" using SI by (simp add: student_invariant_def)
  have cover: "\<forall>s \<in> set (filter Q ps). studentId s \<in> set (map fst S)"
    using student_cover [OF SI] by auto
  have "sum_list (map f (filter P (concat (map sp_totals (Array_sort cmpS (map ?g (map snd S)))))))
          = sum_list (map ?h (Array_sort cmpS (map ?g (map snd S))))"
    by (rule sum_concat_filter)
  also have "\<dots> = sum_list (map ?h (map ?g (map snd S)))"
    by (rule sum_list_perm) (rule mset_Array_sort)
  also have "map ?h (map ?g (map snd S))
               = map (\<lambda>k. sum_list (map f' (filter (\<lambda>s. studentId s = k) (filter Q ps))))
                   (map fst S)"
  proof -
    have "map ?h (map ?g (map snd S)) = map (\<lambda>p. ?h (?g (snd p))) S" by simp
    also have "\<dots> = map (\<lambda>p. sum_list (map f' (filter (\<lambda>s. studentId s = fst p) (filter Q ps)))) S"
    proof (rule map_cong [OF refl])
      fix p assume m: "p \<in> set S"
      then have "(fst p, snd p) \<in> set S" by simp
      then have bi: "bucket_invariant (filter (\<lambda>s. studentId s = fst p) ps)
                       (st_totalsByCurrency (snd p))"
        by (rule student_entries(3) [OF SI])
      have "?h (?g (snd p)) = sum_list (map f (filter P (map snd (st_totalsByCurrency (snd p)))))"
        by (simp add: sum_list_Array_sort)
      also have "\<dots> = sum_list (map f' (filter Q (filter (\<lambda>s. studentId s = fst p) ps)))"
        by (rule bucket [OF bi])
      also have "filter Q (filter (\<lambda>s. studentId s = fst p) ps)
                   = filter (\<lambda>s. studentId s = fst p) (filter Q ps)"
        by (simp add: conj_commute)
      finally show "?h (?g (snd p))
           = sum_list (map f' (filter (\<lambda>s. studentId s = fst p) (filter Q ps)))" .
    qed
    also have "\<dots> = map (\<lambda>k. sum_list (map f' (filter (\<lambda>s. studentId s = k) (filter Q ps))))
                      (map fst S)" by simp
    finally show ?thesis .
  qed
  also have "sum_list (map (\<lambda>k. sum_list (map f' (filter (\<lambda>s. studentId s = k) (filter Q ps))))
                   (map fst S)) = sum_list (map f' (filter Q ps))"
    by (rule regroup [OF d cover])
  finally show ?thesis .
qed


lemma get_payroll_fields:
  "totals (get_payroll dn cmp userId rs re db)
     = Array_sort (\<lambda>a b. cmp (currency_code (ct_currency a)) (currency_code (ct_currency b)))
         (map snd (fst (fold (payroll_step dn) (payroll_sessions userId rs re db) ([], []))))"
  "byStudent (get_payroll dn cmp userId rs re db)
     = Array_sort
         (\<lambda>a b. cmp (nullish (sp_studentName a) (sp_studentId a))
                     (nullish (sp_studentName b) (sp_studentId b)))
         (map (\<lambda>entry. \<lparr>sp_studentId = st_studentId entry,
                          sp_studentName = st_studentName entry,
                          sp_totals =
                            Array_sort (\<lambda>a b. cmp (currency_code (ct_currency a))
                                                   (currency_code (ct_currency b)))
                              (map snd (st_totalsByCurrency entry))\<rparr>)
            (map snd (snd (fold (payroll_step dn) (payroll_sessions userId rs re db) ([], [])))))"
  by (simp_all add: get_payroll_def Let_def)

lemma bucket_cents_filter:
  assumes "sum_list (map (\<lambda>s. \<bar>session_cents s\<bar>) ps) < 2 ^ 53"
    and "bucket_invariant (filter (\<lambda>s. studentId s = k) ps) U"
  shows "sum_list (map totalCents (filter (\<lambda>u. ct_currency u = c) (map snd U)))
       = sum_list (map session_cents
           (filter (\<lambda>s. currencySnapshot s = c) (filter (\<lambda>s. studentId s = k) ps)))"
proof -
  have "sum_list (map (\<lambda>s. \<bar>session_cents s\<bar>) (filter (\<lambda>s. studentId s = k) ps))
          \<le> sum_list (map (\<lambda>s. \<bar>session_cents s\<bar>) ps)" by (rule sum_abs_filter_le)
  then have "sum_list (map (\<lambda>s. \<bar>session_cents s\<bar>) (filter (\<lambda>s. studentId s = k) ps)) < 2 ^ 53"
    using assms(1) by simp
  from bucket_cents [OF assms(2) this] show ?thesis .
qed

lemma bucket_count_filter:
  "bucket_invariant qs U \<Longrightarrow>
     sum_list (map sessionsCount (filter (\<lambda>u. ct_currency u = c) (map snd U)))
       = sum_list (map (\<lambda>_. 1::nat) (filter (\<lambda>s. currencySnapshot s = c) qs))"
  by (simp only: bucket_count sum_ones)

lemma bucket_count_true:
  assumes "bucket_invariant qs U"
  shows "sum_list (map sessionsCount (filter (\<lambda>_. True) (map snd U)))
       = sum_list (map (\<lambda>_. 1::nat) (filter (\<lambda>_. True) qs))"
proof -
  have a: "filter (\<lambda>_. True) (map snd U) = map snd U" by simp
  have b: "filter (\<lambda>_. True) qs = qs" by simp
  show ?thesis
    unfolding a b sum_ones by (rule bucket_count_all [OF assms])
qed

text \<open>
  Claim C10, amended. In every payroll reply, for each top-level entry \<open>t\<close> of \<open>totals\<close>:
  \<open>sessionsCount\<close> equals the sum of \<open>sessionsCount\<close> over the per-student entries of the same
  currency; \<open>totalCents\<close> and \<open>totalHours\<close> are the sums, taken in the order of the selection
  with the rounding of each addition of Numbers, of the prorated cents and of the hours of
  the selected sessions of that currency with a positive duration. When the magnitudes of
  the prorated cents of all those sessions add up to less than \<open>2^53\<close>, no addition of cents
  rounds: \<open>totalCents\<close> is then the exact sum of the prorated cents, and it equals the sum of
  \<open>totalCents\<close> over the per-student entries of the same currency. Each per-student entry's
  \<open>totalCents\<close> and \<open>totalHours\<close> are the rounded sums, in the same order, over that student's
  sessions of that currency, and its currency appears in \<open>totals\<close>. Every session with a
  positive duration is counted once at the top level and once in the breakdown, and \<open>totals\<close>
  has one entry per currency.
\<close>

theorem payroll_consistent:
  "(\<forall>t \<in> set (totals (get_payroll dn cmp userId rs re db)).
       sessionsCount t
         = sum_list (map sessionsCount (filter (\<lambda>u. ct_currency u = ct_currency t)
             (concat (map sp_totals (byStudent (get_payroll dn cmp userId rs re db))))))
     \<and> totalCents t
         = foldl Number_add 0 (map session_cents
             (filter (\<lambda>s. currencySnapshot s = ct_currency t)
                (filter contributes (payroll_sessions userId rs re db))))
     \<and> totalHours t
         = foldl js_add 0 (map session_hours
             (filter (\<lambda>s. currencySnapshot s = ct_currency t)
                (filter contributes (payroll_sessions userId rs re db))))
     \<and> (sum_list (map (\<lambda>s. \<bar>session_cents s\<bar>)
            (filter contributes (payroll_sessions userId rs re db))) < 2 ^ 53
        \<longrightarrow> totalCents t
              = sum_list (map totalCents (filter (\<lambda>u. ct_currency u = ct_currency t)
                  (concat (map sp_totals (byStudent (get_payroll dn cmp userId rs re db))))))
          \<and> totalCents t
              = sum_list (map session_cents
                  (filter (\<lambda>s. currencySnapshot s = ct_currency t)
                     (filter contributes (payroll_sessions userId rs re db))))))
   \<and> (\<forall>e \<in> set (byStudent (get_payroll dn cmp userId rs re db)). \<forall>u \<in> set (sp_totals e).
         totalCents u
           = foldl Number_add 0 (map session_cents
               (filter (\<lambda>s. currencySnapshot s = ct_currency u)
                  (filter (\<lambda>s. studentId s = sp_studentId e)
                     (filter contributes (payroll_sessions userId rs re db)))))
       \<and> totalHours u
           = foldl js_add 0 (map session_hours
               (filter (\<lambda>s. currencySnapshot s = ct_currency u)
                  (filter (\<lambda>s. studentId s = sp_studentId e)
                     (filter contributes (payroll_sessions userId rs re db)))))
       \<and> ct_currency u \<in> ct_currency ` set (totals (get_payroll dn cmp userId rs re db)))
   \<and> sum_list (map sessionsCount (totals (get_payroll dn cmp userId rs re db)))
       = length (filter contributes (payroll_sessions userId rs re db))
   \<and> sum_list (map sessionsCount
         (concat (map sp_totals (byStudent (get_payroll dn cmp userId rs re db)))))
       = length (filter contributes (payroll_sessions userId rs re db))
   \<and> distinct (map ct_currency (totals (get_payroll dn cmp userId rs re db)))"
proof -
  define xs where "xs = payroll_sessions userId rs re db"
  define ps where "ps = filter contributes xs"
  define T where "T = fst (fold (payroll_step dn) xs ([], []))"
  define S where "S = snd (fold (payroll_step dn) xs ([], []))"
  define cmpC where "cmpC = (\<lambda>(a::CurrencyTotal) (b::CurrencyTotal). cmp (currency_code (ct_currency a)) (currency_code (ct_currency b)))"
  define cmpS where "cmpS = (\<lambda>(a::StudentPayroll) (b::StudentPayroll). cmp (nullish (sp_studentName a) (sp_studentId a))
                                       (nullish (sp_studentName b) (sp_studentId b)))"
  define g where "g = (\<lambda>entry::StudentTotals. \<lparr>sp_studentId = st_studentId entry,
                          sp_studentName = st_studentName entry,
                          sp_totals = Array_sort cmpC (map snd (st_totalsByCurrency entry))\<rparr>)"
  have TI: "bucket_invariant ps T" and SI: "student_invariant dn ps S"
    using payroll_loop [of xs dn] by (simp_all add: ps_def T_def S_def)
  have tot: "totals (get_payroll dn cmp userId rs re db) = Array_sort cmpC (map snd T)"
    by (simp add: get_payroll_fields cmpC_def T_def xs_def)
  have byS: "byStudent (get_payroll dn cmp userId rs re db) = Array_sort cmpS (map g (map snd S))"
    by (simp add: get_payroll_fields cmpC_def cmpS_def g_def S_def xs_def)
  have dT: "distinct (map fst T)" using TI by (simp add: bucket_invariant_def)
  have keys: "map ct_currency (map snd T) = map fst T"
  proof -
    have "map ct_currency (map snd T) = map (\<lambda>p. ct_currency (snd p)) T" by simp
    also have "\<dots> = map (\<lambda>p. fst p) T"
      by (rule map_cong [OF refl]) (use bucket_keyed [OF TI] in auto)
    finally show ?thesis by simp
  qed
  have top: "\<And>t. t \<in> set (Array_sort cmpC (map snd T)) \<Longrightarrow>
               t = expected_bucket (ct_currency t)
                     (filter (\<lambda>s. currencySnapshot s = ct_currency t) ps)"
  proof -
    fix t assume "t \<in> set (Array_sort cmpC (map snd T))"
    then have "t \<in> set (map snd T)" by (simp add: set_Array_sort)
    then obtain k where kt: "(k, t) \<in> set T" by auto
    have e: "t = expected_bucket k (filter (\<lambda>s. currencySnapshot s = k) ps)"
      by (rule bucket_entries(1) [OF TI kt])
    then have "ct_currency t = k" by (simp add: expected_bucket_def)
    with e show "t = expected_bucket (ct_currency t)
                     (filter (\<lambda>s. currencySnapshot s = ct_currency t) ps)" by simp
  qed
  have centsB: "\<And>c. sum_list (map (\<lambda>s. \<bar>session_cents s\<bar>) ps) < 2 ^ 53 \<Longrightarrow>
                 sum_list (map totalCents (filter (\<lambda>u. ct_currency u = c)
                   (concat (map sp_totals (Array_sort cmpS (map g (map snd S)))))))
                 = sum_list (map session_cents (filter (\<lambda>s. currencySnapshot s = c) ps))"
    unfolding g_def by (rule per_student_sum [OF SI bucket_cents_filter])
  have countB: "\<And>c. sum_list (map sessionsCount (filter (\<lambda>u. ct_currency u = c)
                   (concat (map sp_totals (Array_sort cmpS (map g (map snd S)))))))
                 = length (filter (\<lambda>s. currencySnapshot s = c) ps)"
    unfolding g_def sum_ones [symmetric]
    by (rule per_student_sum [OF SI bucket_count_filter])
  have countAll: "sum_list (map sessionsCount
                   (concat (map sp_totals (Array_sort cmpS (map g (map snd S)))))) = length ps"
  proof -
    have "sum_list (map sessionsCount (filter (\<lambda>_. True)
                   (concat (map sp_totals (Array_sort cmpS (map g (map snd S)))))))
            = sum_list (map (\<lambda>_. 1::nat) (filter (\<lambda>_. True) ps))"
      unfolding g_def by (rule per_student_sum [OF SI bucket_count_true])
    moreover have "filter (\<lambda>_. True)
                     (concat (map sp_totals (Array_sort cmpS (map g (map snd S)))))
                   = concat (map sp_totals (Array_sort cmpS (map g (map snd S))))"
      by (rule filter_True) simp
    moreover have "filter (\<lambda>_. True) ps = ps" by (rule filter_True) simp
    ultimately show ?thesis by (simp only: sum_ones)
  qed
  have part1: "\<And>t. t \<in> set (Array_sort cmpC (map snd T)) \<Longrightarrow>
       sessionsCount t = sum_list (map sessionsCount (filter (\<lambda>u. ct_currency u = ct_currency t)
             (concat (map sp_totals (Array_sort cmpS (map g (map snd S)))))))
     \<and> totalCents t = foldl Number_add 0 (map session_cents
             (filter (\<lambda>s. currencySnapshot s = ct_currency t) ps))
     \<and> totalHours t = foldl js_add 0 (map session_hours
             (filter (\<lambda>s. currencySnapshot s = ct_currency t) ps))"
  proof -
    fix t assume m: "t \<in> set (Array_sort cmpC (map snd T))"
    let ?ss = "filter (\<lambda>s. currencySnapshot s = ct_currency t) ps"
    have e: "t = expected_bucket (ct_currency t) ?ss" by (rule top [OF m])
    have "totalCents t = foldl Number_add 0 (map session_cents ?ss)"
      by (subst e) (simp add: expected_bucket_def)
    moreover have "sessionsCount t = length ?ss"
      by (subst e) (simp add: expected_bucket_def)
    moreover have "totalHours t = foldl js_add 0 (map session_hours ?ss)"
      by (subst e) (simp add: expected_bucket_def)
    ultimately show "sessionsCount t = sum_list (map sessionsCount (filter (\<lambda>u. ct_currency u = ct_currency t)
             (concat (map sp_totals (Array_sort cmpS (map g (map snd S)))))))
     \<and> totalCents t = foldl Number_add 0 (map session_cents ?ss)
     \<and> totalHours t = foldl js_add 0 (map session_hours ?ss)"
      by (simp only: countB)
  qed
  have part1b: "\<And>t. t \<in> set (Array_sort cmpC (map snd T)) \<Longrightarrow>
       sum_list (map (\<lambda>s. \<bar>session_cents s\<bar>) ps) < 2 ^ 53 \<Longrightarrow>
       totalCents t = sum_list (map totalCents (filter (\<lambda>u. ct_currency u = ct_currency t)
             (concat (map sp_totals (Array_sort cmpS (map g (map snd S)))))))
     \<and> totalCents t = sum_list (map session_cents
             (filter (\<lambda>s. currencySnapshot s = ct_currency t) ps))"
  proof -
    fix t assume m: "t \<in> set (Array_sort cmpC (map snd T))"
      and b: "sum_list (map (\<lambda>s. \<bar>session_cents s\<bar>) ps) < 2 ^ 53"
    let ?ss = "filter (\<lambda>s. currencySnapshot s = ct_currency t) ps"
    have "totalCents t = foldl Number_add 0 (map session_cents ?ss)"
      using part1 [OF m] by blast
    then have "totalCents t = sum_list (map session_cents ?ss)"
      by (simp only: cents_exact [OF b])
    then show "totalCents t = sum_list (map totalCents (filter (\<lambda>u. ct_currency u = ct_currency t)
             (concat (map sp_totals (Array_sort cmpS (map g (map snd S)))))))
     \<and> totalCents t = sum_list (map session_cents ?ss)"
      by (simp only: centsB [OF b])
  qed
  have part2: "\<And>e u. e \<in> set (Array_sort cmpS (map g (map snd S))) \<Longrightarrow> u \<in> set (sp_totals e) \<Longrightarrow>
       totalCents u = foldl Number_add 0 (map session_cents
               (filter (\<lambda>s. currencySnapshot s = ct_currency u)
                  (filter (\<lambda>s. studentId s = sp_studentId e) ps)))
       \<and> totalHours u = foldl js_add 0 (map session_hours
               (filter (\<lambda>s. currencySnapshot s = ct_currency u)
                  (filter (\<lambda>s. studentId s = sp_studentId e) ps)))
       \<and> ct_currency u \<in> ct_currency ` set (Array_sort cmpC (map snd T))"
  proof -
    fix e u assume me: "e \<in> set (Array_sort cmpS (map g (map snd S)))" and mu: "u \<in> set (sp_totals e)"
    from me have "e \<in> set (map g (map snd S))" by (simp add: set_Array_sort)
    then obtain st e0 where s0: "(st, e0) \<in> set S" and eg: "e = g e0" by auto
    have id0: "st_studentId e0 = st"
      and bi: "bucket_invariant (filter (\<lambda>s. studentId s = st) ps) (st_totalsByCurrency e0)"
      using student_entries [OF SI s0] by simp_all
    have sid: "sp_studentId e = st" by (simp add: eg g_def id0)
    have "u \<in> set (map snd (st_totalsByCurrency e0))"
      using mu by (simp add: eg g_def set_Array_sort)
    then obtain k where ku: "(k, u) \<in> set (st_totalsByCurrency e0)" by auto
    let ?own = "filter (\<lambda>s. currencySnapshot s = k) (filter (\<lambda>s. studentId s = st) ps)"
    have ue: "u = expected_bucket k ?own" and ne: "?own \<noteq> []"
      using bucket_entries [OF bi ku] by simp_all
    have ck: "ct_currency u = k" by (subst ue) (simp add: expected_bucket_def)
    have h: "totalHours u = foldl js_add 0 (map session_hours ?own)"
      by (subst ue) (simp add: expected_bucket_def)
    have hc: "totalCents u = foldl Number_add 0 (map session_cents ?own)"
      by (subst ue) (simp add: expected_bucket_def)
    have "filter (\<lambda>s. currencySnapshot s = k) ps \<noteq> []"
      using ne by (auto simp: filter_empty_conv)
    then have "map_of T k = Some (expected_bucket k (filter (\<lambda>s. currencySnapshot s = k) ps))"
      using TI by (simp add: bucket_invariant_def)
    then have "(k, expected_bucket k (filter (\<lambda>s. currencySnapshot s = k) ps)) \<in> set T"
      by (rule map_of_SomeD)
    then have "expected_bucket k (filter (\<lambda>s. currencySnapshot s = k) ps) \<in> set (map snd T)"
      by force
    then have "ct_currency (expected_bucket k (filter (\<lambda>s. currencySnapshot s = k) ps))
                 \<in> ct_currency ` set (Array_sort cmpC (map snd T))"
      unfolding set_Array_sort by (rule imageI)
    then have "k \<in> ct_currency ` set (Array_sort cmpC (map snd T))"
      by (simp add: expected_bucket_def)
    then show "totalCents u = foldl Number_add 0 (map session_cents
               (filter (\<lambda>s. currencySnapshot s = ct_currency u)
                  (filter (\<lambda>s. studentId s = sp_studentId e) ps)))
       \<and> totalHours u = foldl js_add 0 (map session_hours
               (filter (\<lambda>s. currencySnapshot s = ct_currency u)
                  (filter (\<lambda>s. studentId s = sp_studentId e) ps)))
       \<and> ct_currency u \<in> ct_currency ` set (Array_sort cmpC (map snd T))"
      using h hc by (simp only: ck sid)
  qed
  have part3: "sum_list (map sessionsCount (Array_sort cmpC (map snd T))) = length ps"
  proof -
    have "sum_list (map sessionsCount (Array_sort cmpC (map snd T)))
            = sum_list (map sessionsCount (map snd T))"
      by (rule sum_list_perm) (rule mset_Array_sort)
    then show ?thesis by (simp only: bucket_count_all [OF TI])
  qed
  have part5: "distinct (map ct_currency (Array_sort cmpC (map snd T)))"
  proof -
    have "mset (map ct_currency (Array_sort cmpC (map snd T))) = mset (map ct_currency (map snd T))"
      unfolding mset_map mset_Array_sort ..
    then have "distinct (map ct_currency (Array_sort cmpC (map snd T)))
                 = distinct (map ct_currency (map snd T))"
      by (rule mset_eq_imp_distinct_iff)
    then show ?thesis using dT by (simp only: keys)
  qed
  show ?thesis
    unfolding tot byS xs_def [symmetric] ps_def [symmetric]
    using part1 part1b part2 part3 countAll part5 by blast
qed

text \<open>
  Claim C10, as stated, fails. In the week of three lessons of 15, 20 and 105 minutes, the
  first and third with one student and the second with another, the top-level \<open>totalHours\<close>
  is the double \<open>2.333333333333333\<close> (the sum in session order), while the per-student
  values are \<open>2\<close> and \<open>0.3333333333333333\<close>; their sum, exact or rounded to a double, is a
  different number. In the week with the lesson of \<open>2^53\<close> cents, the top-level \<open>totalCents\<close>
  stays at \<open>2^53\<close>, because adding one cent to it rounds back twice, while the per-student
  values are \<open>2^53\<close> and \<open>2\<close>.
\<close>

theorem payroll_hours_counterexample:
  "map ct_currency (totals demo_payroll) = [AUD]
   \<and> map totalHours (totals demo_payroll) = [2627099782632789 / 1125899906842624]
   \<and> map totalHours (filter (\<lambda>u. ct_currency u = AUD)
         (concat (map sp_totals (byStudent demo_payroll))))
       = [2, 6004799503160661 / 18014398509481984]
   \<and> (2627099782632789 / 1125899906842624 :: rat)
       \<noteq> sum_list [2, 6004799503160661 / 18014398509481984]
   \<and> (2627099782632789 / 1125899906842624 :: rat)
       \<noteq> js_add 2 (6004799503160661 / 18014398509481984)
   \<and> map ct_currency (totals demo_payroll_long) = [AUD]
   \<and> map totalCents (totals demo_payroll_long) = [9007199254740992]
   \<and> map totalCents (filter (\<lambda>u. ct_currency u = AUD)
         (concat (map sp_totals (byStudent demo_payroll_long))))
       = [9007199254740992, 2]
   \<and> (9007199254740992 :: int) \<noteq> sum_list [9007199254740992, 2]
   \<and> (9007199254740992 :: int) \<noteq> Number_add 9007199254740992 2"
  by code_simp

text \<open>
  The week of three lessons again: three sessions contribute, their cents are far below
  \<open>2^53\<close>, and the reply has the one total below.
\<close>

lemma demo_payroll_contributing:
  "length (filter contributes
     (payroll_sessions ''teacher1'' 1893934800000 1894539600000 demo_db_payroll)) = 3"
  by code_simp

lemma demo_payroll_bound:
  "sum_list (map (\<lambda>s. \<bar>session_cents s\<bar>) (filter contributes
     (payroll_sessions ''teacher1'' 1893934800000 1894539600000 demo_db_payroll))) = 23333"
  by code_simp

lemma demo_payroll_total:
  "\<lparr>ct_currency = AUD, totalCents = 23333, totalHours = 2627099782632789 / 1125899906842624,
    sessionsCount = 3\<rparr> \<in> set (totals demo_payroll)"
  by code_simp

text \<open>
  In that week the cents and the counts do agree: the per-student cents add up to the 23333
  of the top level, and the three sessions are counted once at each level.
\<close>

theorem payroll_consistent_witness:
  "sum_list (map totalCents (filter (\<lambda>u. ct_currency u = AUD)
      (concat (map sp_totals (byStudent demo_payroll))))) = 23333
   \<and> sum_list (map sessionsCount (filter (\<lambda>u. ct_currency u = AUD)
      (concat (map sp_totals (byStudent demo_payroll))))) = 3
   \<and> sum_list (map sessionsCount (totals demo_payroll)) = 3
   \<and> sum_list (map sessionsCount (concat (map sp_totals (byStudent demo_payroll)))) = 3"
proof -
  note t = payroll_consistent [of demo_displayNameOf code_unit_compare "''teacher1''"
             1893934800000 1894539600000 demo_db_payroll, folded demo_payroll_def]
  let ?t0 = "\<lparr>ct_currency = AUD, totalCents = 23333,
              totalHours = 2627099782632789 / 1125899906842624, sessionsCount = 3\<rparr>"
  have bound: "sum_list (map (\<lambda>s. \<bar>session_cents s\<bar>) (filter contributes
     (payroll_sessions ''teacher1'' 1893934800000 1894539600000 demo_db_payroll))) < 2 ^ 53"
    unfolding demo_payroll_bound by simp
  from t demo_payroll_total bound
  have a: "totalCents ?t0
         = sum_list (map totalCents (filter (\<lambda>u. ct_currency u = ct_currency ?t0)
             (concat (map sp_totals (byStudent demo_payroll)))))
     \<and> sessionsCount ?t0
         = sum_list (map sessionsCount (filter (\<lambda>u. ct_currency u = ct_currency ?t0)
             (concat (map sp_totals (byStudent demo_payroll)))))"
    by blast
  from t have b: "sum_list (map sessionsCount (totals demo_payroll))
       = length (filter contributes
           (payroll_sessions ''teacher1'' 1893934800000 1894539600000 demo_db_payroll))
   \<and> sum_list (map sessionsCount (concat (map sp_totals (byStudent demo_payroll))))
       = length (filter contributes
           (payroll_sessions ''teacher1'' 1893934800000 1894539600000 demo_db_payroll))"
    by blast
  from a b show ?thesis by (simp add: demo_payroll_contributing)
qed

end
